(* ===== verification/Barista_Prelude.thy ===== *)
theory Barista_Prelude
  imports Main "HOL-Library.List_Lexorder" "HOL-Library.Char_ord" "HOL-Library.Product_Lexorder"
begin

text \<open>
  What every component of the development shares: the named collections of
  facts, the machine integers of the Rust sources, and the row operations that
  the SQL statements of the journal are written in.

  Rust's fixed-width integers are modelled on \<^typ>\<open>int\<close>, with the \<open>as\<close> casts and
  the saturating operations written out at their width.  A table of the journal
  is the list of its rows in insertion order; one \<open>UPDATE\<close>, \<open>DELETE\<close> or
  \<open>SELECT\<close> is one of the combinators below, and the number of rows a statement
  reports as changed is the number of rows its \<open>WHERE\<close> clause selects.
\<close>

named_theorems machine_defs "definitions of the machine integers"
named_theorems sql_defs "definitions of the row operations"
named_theorems journal_simps "what an operation of the journal leaves of each table"
named_theorems journal_intros "operations that keep the invariants of the journal"

type_synonym ms = int

section \<open>Machine integers\<close>

definition i64_min :: int where
  "i64_min = - (2 ^ 63)"

definition i64_max :: int where
  "i64_max = 2 ^ 63 - 1"

definition u64_max :: int where
  "u64_max = 2 ^ 64 - 1"

definition in_i64 :: "int \<Rightarrow> bool" where
  "in_i64 n \<longleftrightarrow> i64_min \<le> n \<and> n \<le> i64_max"

definition in_u64 :: "int \<Rightarrow> bool" where
  "in_u64 n \<longleftrightarrow> 0 \<le> n \<and> n \<le> u64_max"

text \<open>The casts \<open>as i64\<close> and \<open>as u64\<close>: reduction modulo the width.\<close>

definition as_i64 :: "int \<Rightarrow> int" where
  "as_i64 n = (n + 2 ^ 63) mod 2 ^ 64 - 2 ^ 63"

definition as_u64 :: "int \<Rightarrow> int" where
  "as_u64 n = n mod 2 ^ 64"

definition i64_clamp :: "int \<Rightarrow> int" where
  "i64_clamp n = max i64_min (min i64_max n)"

definition i64_saturating_add :: "int \<Rightarrow> int \<Rightarrow> int" where
  "i64_saturating_add a b = i64_clamp (a + b)"

definition i64_saturating_mul :: "int \<Rightarrow> int \<Rightarrow> int" where
  "i64_saturating_mul a b = i64_clamp (a * b)"

definition i64_saturating_sub :: "int \<Rightarrow> int \<Rightarrow> int" where
  "i64_saturating_sub a b = i64_clamp (a - b)"

definition u64_saturating_add :: "int \<Rightarrow> int \<Rightarrow> int" where
  "u64_saturating_add a b = min u64_max (a + b)"

declare i64_min_def [machine_defs] i64_max_def [machine_defs] u64_max_def [machine_defs]
  in_i64_def [machine_defs] in_u64_def [machine_defs] as_i64_def [machine_defs]
  as_u64_def [machine_defs] i64_clamp_def [machine_defs] i64_saturating_add_def [machine_defs]
  i64_saturating_mul_def [machine_defs] i64_saturating_sub_def [machine_defs]
  u64_saturating_add_def [machine_defs]

section \<open>Rows and statements\<close>

definition sql_update :: "('r \<Rightarrow> bool) \<Rightarrow> ('r \<Rightarrow> 'r) \<Rightarrow> 'r list \<Rightarrow> 'r list" where
  "sql_update p f t = map (\<lambda>r. if p r then f r else r) t"

definition sql_changed :: "('r \<Rightarrow> bool) \<Rightarrow> 'r list \<Rightarrow> nat" where
  "sql_changed p t = length (filter p t)"

definition sql_delete :: "('r \<Rightarrow> bool) \<Rightarrow> 'r list \<Rightarrow> 'r list" where
  "sql_delete p t = filter (\<lambda>r. \<not> p r) t"

text \<open>\<open>INSERT OR REPLACE\<close>: the row holding the key goes, the new one is appended.\<close>

definition sql_replace :: "('r \<Rightarrow> 'k) \<Rightarrow> 'r \<Rightarrow> 'r list \<Rightarrow> 'r list" where
  "sql_replace key r t = filter (\<lambda>x. key x \<noteq> key r) t @ [r]"

definition row_with :: "('r \<Rightarrow> 'k) \<Rightarrow> 'k \<Rightarrow> 'r list \<Rightarrow> 'r option" where
  "row_with key k t = find (\<lambda>r. key r = k) t"

definition has_key :: "('r \<Rightarrow> 'k) \<Rightarrow> 'k \<Rightarrow> 'r list \<Rightarrow> bool" where
  "has_key key k t \<longleftrightarrow> k \<in> key ` set t"

definition unique_keys :: "('r \<Rightarrow> 'k) \<Rightarrow> 'r list \<Rightarrow> bool" where
  "unique_keys key t \<longleftrightarrow> distinct (map key t)"

declare sql_update_def [sql_defs] sql_changed_def [sql_defs] sql_delete_def [sql_defs]
  sql_replace_def [sql_defs] row_with_def [sql_defs] has_key_def [sql_defs]
  unique_keys_def [sql_defs]

section \<open>Facts about machine integers\<close>

lemma as_i64_in_i64 [simp]: "in_i64 (as_i64 n)"
  by (simp add: machine_defs)

lemma as_i64_id [simp]: "in_i64 n \<Longrightarrow> as_i64 n = n"
  by (simp add: machine_defs)

lemma as_u64_id [simp]: "in_u64 n \<Longrightarrow> as_u64 n = n"
  by (simp add: machine_defs)

lemma as_u64_as_i64 [simp]: "in_u64 n \<Longrightarrow> as_u64 (as_i64 n) = n"
  by (simp add: machine_defs mod_diff_left_eq)

lemma i64_clamp_in_i64 [simp]: "in_i64 (i64_clamp n)"
  by (simp add: machine_defs)

lemma i64_clamp_id [simp]: "in_i64 n \<Longrightarrow> i64_clamp n = n"
  by (simp add: machine_defs)

section \<open>Facts about rows\<close>

lemma set_sql_update: "set (sql_update p f t) = (\<lambda>r. if p r then f r else r) ` set t"
  by (simp add: sql_update_def)

lemma length_sql_update [simp]: "length (sql_update p f t) = length t"
  by (simp add: sql_update_def)

lemma sql_update_Nil [simp]: "sql_update p f [] = []"
  by (simp add: sql_update_def)

lemma sql_update_Cons [simp]:
  "sql_update p f (r # t) = (if p r then f r else r) # sql_update p f t"
  by (simp add: sql_update_def)

lemma sql_update_append [simp]: "sql_update p f (s @ t) = sql_update p f s @ sql_update p f t"
  by (simp add: sql_update_def)

lemma map_sql_update_same:
  assumes "\<And>r. g (f r) = g r"
  shows "map g (sql_update p f t) = map g t"
  using assms by (simp add: sql_update_def)

lemma sql_update_none:
  "sql_changed p t = 0 \<Longrightarrow> sql_update p f t = t"
  by (induction t) (auto simp: sql_changed_def split: if_splits)

lemma row_with_Nil [simp]: "row_with key k [] = None"
  by (simp add: row_with_def)

lemma row_with_Cons [simp]:
  "row_with key k (r # t) = (if key r = k then Some r else row_with key k t)"
  by (simp add: row_with_def)

lemma row_with_append:
  "row_with key k (s @ t) = (case row_with key k s of None \<Rightarrow> row_with key k t | Some r \<Rightarrow> Some r)"
  by (induction s) auto

lemma row_with_Some_key: "row_with key k t = Some r \<Longrightarrow> key r = k"
  by (induction t) (auto split: if_splits)

lemma row_with_Some_in: "row_with key k t = Some r \<Longrightarrow> r \<in> set t"
  by (induction t) (auto split: if_splits)

lemma row_with_None_iff: "row_with key k t = None \<longleftrightarrow> \<not> has_key key k t"
  by (induction t) (auto simp: has_key_def)

lemma row_with_unique:
  assumes "unique_keys key t" and "r \<in> set t"
  shows "row_with key (key r) t = Some r"
  using assms by (induction t) (auto simp: unique_keys_def image_iff)

lemma row_with_sql_update:
  assumes "\<And>r. key (f r) = key r"
  shows "row_with key k (sql_update p f t)
         = map_option (\<lambda>r. if p r then f r else r) (row_with key k t)"
  using assms by (induction t) auto

lemma row_with_sql_delete_other:
  "(\<And>r. p r \<Longrightarrow> key r \<noteq> k) \<Longrightarrow> row_with key k (sql_delete p t) = row_with key k t"
  by (induction t) (auto simp: sql_delete_def)

lemma row_with_sql_delete_key [simp]:
  "row_with key k (sql_delete (\<lambda>r. key r = k) t) = None"
  by (induction t) (auto simp: sql_delete_def)

lemma row_with_sql_replace [simp]:
  "row_with key k (sql_replace key r t) = (if k = key r then Some r else row_with key k t)"
  by (induction t) (auto simp: sql_replace_def)

lemma has_key_sql_update [simp]:
  assumes "\<And>r. key (f r) = key r"
  shows "has_key key k (sql_update p f t) = has_key key k t"
  using map_sql_update_same [of key f p t] assms
  by (simp add: has_key_def flip: set_map)

lemma unique_keys_Nil [simp]: "unique_keys key []"
  by (simp add: unique_keys_def)

lemma unique_keys_sql_update:
  assumes "\<And>r. key (f r) = key r"
  shows "unique_keys key (sql_update p f t) = unique_keys key t"
  using assms by (simp add: unique_keys_def map_sql_update_same)

lemma unique_keys_sql_delete: "unique_keys key t \<Longrightarrow> unique_keys key (sql_delete p t)"
  by (simp add: unique_keys_def sql_delete_def distinct_map_filter)

lemma unique_keys_sql_replace: "unique_keys key t \<Longrightarrow> unique_keys key (sql_replace key r t)"
  by (auto simp: unique_keys_def sql_replace_def distinct_map_filter)

lemma unique_keys_snoc:
  "unique_keys key (t @ [r]) \<longleftrightarrow> unique_keys key t \<and> \<not> has_key key (key r) t"
  by (auto simp: unique_keys_def has_key_def)

lemma sql_changed_key_le_1:
  assumes "unique_keys key t"
  shows "sql_changed (\<lambda>r. key r = k \<and> q r) t \<le> 1"
  using assms
proof (induction t)
  case (Cons a t)
  have "filter (\<lambda>r. key r = key a \<and> q r) t = []"
    using Cons.prems by (auto simp: unique_keys_def filter_empty_conv image_iff)
  with Cons show ?case
    by (auto simp: sql_changed_def unique_keys_def)
qed (simp add: sql_changed_def)

lemma sql_changed_key_row:
  assumes "unique_keys key t"
  shows "sql_changed (\<lambda>r. key r = k \<and> q r) t
         = (case row_with key k t of Some r \<Rightarrow> if q r then 1 else 0 | None \<Rightarrow> 0)"
  using assms
proof (induction t)
  case (Cons a t)
  have "filter (\<lambda>r. key r = key a \<and> q r) t = []"
    using Cons.prems by (auto simp: unique_keys_def filter_empty_conv image_iff)
  with Cons show ?case
    by (auto simp: sql_changed_def unique_keys_def)
qed (simp add: sql_changed_def)

lemma sql_update_key_only:
  assumes "unique_keys key t" and "row_with key k t = Some x" and "P x"
  shows "sql_update (\<lambda>r. key r = k) f t = sql_update (\<lambda>r. key r = k \<and> P r) f t"
proof -
  have "P r" if "r \<in> set t" "key r = k" for r
    using row_with_unique [OF assms(1) that(1)] that(2) assms(2,3) by simp
  thus ?thesis unfolding sql_update_def by (intro map_cong) auto
qed

section \<open>The contract of a keyed table\<close>

text \<open>
  Every table of the journal has a primary key, and every component reaches it
  through one field of the connection.  The laws are those of a lens: writing a
  table reads back as written, and two writes are one.
\<close>

locale keyed_table =
  fixes key :: "'r \<Rightarrow> 'k"
    and rows :: "'db \<Rightarrow> 'r list"
    and modify :: "('r list \<Rightarrow> 'r list) \<Rightarrow> 'db \<Rightarrow> 'db"
  assumes rows_modify: "rows (modify f db) = f (rows db)"
    and modify_modify: "modify g (modify f db) = modify (\<lambda>t. g (f t)) db"
begin

lemma get_after_update:
  assumes "\<And>r. key (f r) = key r"
  shows "row_with key k (rows (modify (sql_update p f) db))
         = map_option (\<lambda>r. if p r then f r else r) (row_with key k (rows db))"
  by (simp add: rows_modify row_with_sql_update assms)

lemma get_after_replace:
  "row_with key k (rows (modify (sql_replace key r) db))
   = (if k = key r then Some r else row_with key k (rows db))"
  by (simp add: rows_modify)

lemma get_after_delete:
  "row_with key k (rows (modify (sql_delete (\<lambda>r. key r = k)) db)) = None"
  by (simp add: rows_modify)

lemma unique_after_update:
  assumes "\<And>r. key (f r) = key r" and "unique_keys key (rows db)"
  shows "unique_keys key (rows (modify (sql_update p f) db))"
  using assms by (simp add: rows_modify unique_keys_sql_update)

lemma unique_after_delete:
  "unique_keys key (rows db) \<Longrightarrow> unique_keys key (rows (modify (sql_delete p) db))"
  by (simp add: rows_modify unique_keys_sql_delete)

lemma unique_after_replace:
  "unique_keys key (rows db) \<Longrightarrow> unique_keys key (rows (modify (sql_replace key r) db))"
  by (simp add: rows_modify unique_keys_sql_replace)

lemma unique_after_insert:
  "unique_keys key (rows db) \<Longrightarrow> \<not> has_key key (key r) (rows db)
   \<Longrightarrow> unique_keys key (rows (modify (\<lambda>t. t @ [r]) db))"
  by (simp add: rows_modify unique_keys_snoc)

end

end
