(* ===== verification/State_Machine.thy ===== *)
theory State_Machine
  imports Barista_Prelude
begin

text \<open>
  \<open>state_machine.rs\<close>: the instance and the operation state machines.  The two
  transition tables are lists of edges as in the source, \<open>can_transition\<close> and
  \<open>op_can_transition\<close> are the predicates every other component asks.

  The locale \<open>lifecycle\<close> is the contract both machines keep: a set of final
  states that no legal move leaves.  It is interpreted on both predicates.
\<close>

section \<open>States\<close>

datatype instance_state =
    I_Unspecified | I_Creating | I_Created | I_Starting | I_Running | I_Checkpointing
  | I_Pausing | I_Paused | I_Resuming | I_Stopping | I_Stopped | I_Destroying
  | I_Destroyed | I_Failed

datatype operation_state =
    Op_Unspecified | Op_Queued | Op_Running | Op_Done | Op_Failed | Op_AwaitingInput
  | Op_Canceled

section \<open>Instances\<close>

definition TRANSITIONS :: "(instance_state \<times> instance_state) list" where
  "TRANSITIONS =
    [(I_Creating, I_Created),
     (I_Created, I_Starting),
     (I_Starting, I_Running),
     (I_Running, I_Checkpointing),
     (I_Checkpointing, I_Running),
     (I_Running, I_Pausing),
     (I_Pausing, I_Paused),
     (I_Paused, I_Resuming),
     (I_Resuming, I_Running),
     (I_Running, I_Stopping),
     (I_Stopping, I_Stopped),
     (I_Stopped, I_Starting)]"

fun is_transitional :: "instance_state \<Rightarrow> bool" where
  "is_transitional I_Creating = True"
| "is_transitional I_Starting = True"
| "is_transitional I_Checkpointing = True"
| "is_transitional I_Pausing = True"
| "is_transitional I_Resuming = True"
| "is_transitional I_Stopping = True"
| "is_transitional I_Destroying = True"
| "is_transitional _ = False"

fun is_terminal :: "instance_state \<Rightarrow> bool" where
  "is_terminal I_Destroyed = True"
| "is_terminal I_Failed = True"
| "is_terminal _ = False"

definition can_transition :: "instance_state \<Rightarrow> instance_state \<Rightarrow> bool" where
  "can_transition from to =
    (if to = I_Destroying \<or> to = I_Destroyed then from \<noteq> I_Destroyed
     else if to = I_Failed then is_transitional from
     else (from, to) \<in> set TRANSITIONS)"

section \<open>Operations\<close>

definition ALL_OP_STATES :: "operation_state list" where
  "ALL_OP_STATES =
    [Op_Unspecified, Op_Queued, Op_Running, Op_AwaitingInput, Op_Done, Op_Failed, Op_Canceled]"

definition OP_TRANSITIONS :: "(operation_state \<times> operation_state) list" where
  "OP_TRANSITIONS =
    [(Op_Queued, Op_Running),
     (Op_Running, Op_AwaitingInput),
     (Op_AwaitingInput, Op_Running)]"

fun op_is_in_flight :: "operation_state \<Rightarrow> bool" where
  "op_is_in_flight Op_Queued = True"
| "op_is_in_flight Op_Running = True"
| "op_is_in_flight Op_AwaitingInput = True"
| "op_is_in_flight _ = False"

fun op_is_settled :: "operation_state \<Rightarrow> bool" where
  "op_is_settled Op_Done = True"
| "op_is_settled Op_Failed = True"
| "op_is_settled Op_Canceled = True"
| "op_is_settled _ = False"

definition op_can_transition :: "operation_state \<Rightarrow> operation_state \<Rightarrow> bool" where
  "op_can_transition from to =
    (if from = Op_Unspecified \<or> to = Op_Unspecified then False
     else if op_is_settled from then False
     else if op_is_settled to then True
     else (from, to) \<in> set OP_TRANSITIONS)"

text \<open>Paths of legal moves, the relation the reachability properties speak about.\<close>

inductive path :: "('s \<Rightarrow> 's \<Rightarrow> bool) \<Rightarrow> 's \<Rightarrow> 's \<Rightarrow> bool"
  for legal :: "'s \<Rightarrow> 's \<Rightarrow> bool" where
  path_refl: "path legal s s"
| path_step: "path legal s t \<Longrightarrow> legal t u \<Longrightarrow> path legal s u"

section \<open>The contract of a lifecycle\<close>

locale lifecycle =
  fixes legal :: "'s \<Rightarrow> 's \<Rightarrow> bool"
    and final :: "'s \<Rightarrow> bool"
  assumes final_stuck: "final s \<Longrightarrow> \<not> legal s t"
begin

lemma path_from_final: "path legal s t \<Longrightarrow> final s \<Longrightarrow> t = s"
  by (induction rule: path.induct) (auto dest: final_stuck)

lemma path_trans: "path legal t u \<Longrightarrow> path legal s t \<Longrightarrow> path legal s u"
  by (induction rule: path.induct) (auto intro: path.intros)

lemma path_invariant:
  "path legal s t \<Longrightarrow> P s \<Longrightarrow> (\<And>x y. legal x y \<Longrightarrow> P x \<Longrightarrow> P y) \<Longrightarrow> P t"
  by (induction rule: path.induct) auto

end

lemmas state_machine_defs =
  can_transition_def TRANSITIONS_def op_can_transition_def OP_TRANSITIONS_def

interpretation inst: lifecycle can_transition "\<lambda>s. s = I_Destroyed"
  by unfold_locales (auto simp: state_machine_defs)

interpretation ops: lifecycle op_can_transition op_is_settled
  by unfold_locales (simp add: state_machine_defs)

section \<open>Instance moves\<close>

lemma not_in_flight_iff: "\<not> op_is_in_flight s \<longleftrightarrow> op_is_settled s \<or> s = Op_Unspecified"
  by (cases s) auto

lemma settled_not_in_flight: "op_is_settled s \<Longrightarrow> \<not> op_is_in_flight s"
  by (cases s) auto

lemma set_ALL_OP_STATES [simp]: "set ALL_OP_STATES = UNIV"
proof -
  have "x \<in> set ALL_OP_STATES" for x
    by (cases x) (simp_all add: ALL_OP_STATES_def)
  thus ?thesis by blast
qed

lemma transitional_exits:
  "is_transitional s \<Longrightarrow> can_transition s t \<Longrightarrow> \<not> is_transitional t \<or> t = I_Destroying"
  by (cases s; cases t) (auto simp: state_machine_defs)

lemma failed_only_destroyed:
  "path can_transition s t \<Longrightarrow> s = I_Failed \<or> s = I_Destroying \<or> s = I_Destroyed
   \<Longrightarrow> t \<in> {I_Failed, I_Destroying, I_Destroyed}"
proof (induction rule: path.induct)
  case (path_step s t u)
  thus ?case by (cases t; cases u) (auto simp: state_machine_defs)
qed auto

text \<open>
  A state is terminal exactly when it is not transitional and its only legal
  exits are towards destruction, and the contract's zero value, which no
  instance is ever moved to, is the one other state of that shape.  This is what
  \<open>is_terminal\<close> claims to be derived from the table.
\<close>

theorem terminal_from_table:
  "is_terminal s \<longleftrightarrow>
     s \<noteq> I_Unspecified \<and> \<not> is_transitional s \<and>
     filter (can_transition s)
       [I_Unspecified, I_Creating, I_Created, I_Starting, I_Running, I_Checkpointing, I_Pausing,
        I_Paused, I_Resuming, I_Stopping, I_Stopped, I_Failed] = []"
  by (cases s) (simp_all add: state_machine_defs)

text \<open>
  Once destruction has begun or the instance has failed, no sequence of
  legal moves brings it back to life, and from \<open>DESTROYED\<close> nothing moves at all.
\<close>

theorem destruction_is_final:
  assumes "path can_transition s t" and "s = I_Failed \<or> s = I_Destroying \<or> s = I_Destroyed"
  shows "t \<in> {I_Failed, I_Destroying, I_Destroyed} \<and> (s = I_Destroyed \<longrightarrow> t = I_Destroyed)"
  using failed_only_destroyed [OF assms] inst.path_from_final [OF assms(1)] by auto

theorem destruction_is_final_witness:
  "path can_transition I_Failed I_Destroyed \<and> I_Destroyed \<in> {I_Failed, I_Destroying, I_Destroyed}"
proof -
  have p: "path can_transition I_Failed I_Destroyed"
    by (rule path_step [OF path_refl]) (simp add: can_transition_def)
  with destruction_is_final [OF p] show ?thesis by simp
qed

text \<open>
  The operation machine.  Every in-flight operation may settle into each of
  the three outcomes; a settled one admits no further sequence of moves; and
  nothing reaches or leaves the zero value.
\<close>

theorem operation_settles_once:
  "(op_is_in_flight s \<longrightarrow> (\<forall>t. op_is_settled t \<longrightarrow> op_can_transition s t))
   \<and> (op_is_settled s \<longrightarrow> path op_can_transition s t \<longrightarrow> t = s)
   \<and> \<not> op_can_transition s Op_Unspecified \<and> \<not> op_can_transition Op_Unspecified s"
proof -
  have "op_can_transition s t" if "op_is_in_flight s" "op_is_settled t" for t
    using that by (cases s; cases t) (simp_all add: op_can_transition_def)
  moreover have "t = s" if "op_is_settled s" "path op_can_transition s t"
    using ops.path_from_final that by blast
  moreover have "\<not> op_can_transition s Op_Unspecified" "\<not> op_can_transition Op_Unspecified s"
    by (simp_all add: op_can_transition_def)
  ultimately show ?thesis by blast
qed

theorem operation_settles_once_witness:
  "op_can_transition Op_AwaitingInput Op_Canceled"
  using operation_settles_once [of Op_AwaitingInput] by simp

end
