(* ===== verification/Contract.thy ===== *)
theory Contract
  imports State_Machine
begin

text \<open>
  The messages and enumerations of the node contract
  (\<open>barista-proto/src/generated/barista.node.v1alpha1.rs\<close>) that the modelled
  components read or write, with the source's constructors.  A protobuf map is a
  finite partial function, a repeated field a list, an optional message an
  \<^typ>\<open>'a option\<close>.  An enumeration field is the enumeration itself: the
  journal and the handlers only ever write discriminants of the generated types.
\<close>

section \<open>Identifiers\<close>

type_synonym instance_id = string
type_synonym snapshot_id = string
type_synonym op_id = string
type_synonym idempotency_key = string
type_synonym bytes = "int list"

section \<open>Enumerations\<close>

datatype snapshot_kind = SK_Unspecified | SK_MemoryAndDisk | SK_DiskOnly

datatype snapshot_tier = ST_Unspecified | ST_Local | ST_ObjectStore

datatype egress_mode = EM_Unspecified | EM_All | EM_HttpHttpsOnly

datatype ttl_action = TA_Unspecified | TA_Pause | TA_Stop | TA_Destroy

datatype fork_mode = FM_Unspecified | FM_Cow | FM_FullCopy

datatype capsule_storage = CS_Unspecified | CS_LocalDir | CS_ObjectStore

datatype capsule_object_type = CT_Unspecified | CT_Memory | CT_Disk | CT_Metadata

datatype error_reason =
    ER_Unspecified | ER_InvalidSpec | ER_TemplateNotFound | ER_BundleMismatch
  | ER_CpuClassMismatch | ER_CapabilityMissing | ER_ConcurrentOperation | ER_GuestUnreachable
  | ER_HookTimeout | ER_ResourcesExhausted | ER_SnapshotInvalidated | ER_SubstrateUnavailable
  | ER_CursorTooOld | ER_SnapshotNameConflict | ER_ForkModeUnavailable
  | ER_CapsuleVerificationFailed | ER_CapsuleIncompatible | ER_CapsuleNotFound
  | ER_ObjectStoreUnavailable | ER_EpochRevoked

datatype event_type =
    ET_Unspecified | ET_StateChanged | ET_OperationProgress | ET_ReadyChanged | ET_TtlWarning
  | ET_Degradation | ET_Restored | ET_WakeFired | ET_Fenced | ET_IdleFired
  | ET_LineageRecorded | ET_EpochRotated | ET_CapsuleExported | ET_CapsuleImported

section \<open>Messages\<close>

record oci_image_ref =
  oci_image :: string
  oci_digest :: string

record template_ref =
  tpl_oci :: "oci_image_ref option"
  tpl_runtime_bundle_ref :: string
  tpl_template_hash :: string
  tpl_arch :: string

record resources =
  res_vcpu :: int
  res_mem_mib :: int
  res_disk_mib :: int

record process =
  proc_start_cmd :: "string list"
  proc_ready_cmd :: "string list"
  proc_env :: "string \<rightharpoonup> string"
  proc_workdir :: string

record hooks =
  hk_pre_snapshot_cmd :: "string list"
  hk_post_restore_cmd :: "string list"
  hk_pre_snapshot_timeout_ms :: int
  hk_post_restore_timeout_ms :: int

record egress_policy =
  eg_mediated :: bool
  eg_mode :: egress_mode

record instance_spec =
  sp_instance_id :: instance_id
  sp_template :: "template_ref option"
  sp_resources :: "resources option"
  sp_process :: "process option"
  sp_hooks :: "hooks option"
  sp_ttl_seconds :: int
  sp_ttl_action :: ttl_action
  sp_labels :: "string \<rightharpoonup> string"
  sp_egress :: "egress_policy option"
  sp_idle_action :: "ttl_action option"

record lineage =
  ln_lineage_id :: string
  ln_source_snapshot_id :: string
  ln_source_capsule_id :: string
  ln_parent_instance_id :: string

record stop_reason =
  rs_requested :: bool
  rs_exit_code :: "int option"
  rs_detail :: string

record hook_outcome =
  ho_ran :: bool
  ho_timed_out :: bool
  ho_exit_code :: int

record error_detail =
  ed_reason :: error_reason
  ed_message :: string

record timestamp =
  t_seconds :: int
  t_nanos :: int

record pb_operation =
  po_op_id :: op_id
  po_kind :: string
  po_instance_id :: instance_id
  po_state :: operation_state
  po_current_step :: string
  po_error :: "error_detail option"
  po_degraded :: string
  po_created_at :: timestamp
  po_finished_at :: "timestamp option"
  po_froze_workload :: bool
  po_actual_fork_mode :: fork_mode
  po_capsule_id :: string

record capsule_object =
  ob_digest :: string
  ob_length :: int
  ob_type :: capsule_object_type
  ob_media_type :: string

record capsule_manifest =
  mf_schema_version :: string
  mf_cpu_class :: string
  mf_template_hash :: string
  mf_runtime_bundle_ref :: string
  mf_kind :: snapshot_kind
  mf_objects :: "capsule_object list"
  mf_lineage_id :: string
  mf_architecture :: string
  mf_created_at :: "timestamp option"
  mf_required_restore_capabilities :: "string list"

record pb_event =
  pe_cursor :: int
  pe_type :: event_type
  pe_instance_id :: instance_id
  pe_op_id :: op_id
  pe_state :: instance_state
  pe_message :: string
  pe_at :: "timestamp option"
  pe_stop_reason :: "stop_reason option"

record capabilities =
  cap_memory_snapshot :: bool
  cap_disk_snapshot :: bool
  cap_live_checkpoint :: bool
  cap_guest_agent :: bool
  cap_hardware_isolation :: bool
  cap_lazy_restore :: bool
  cap_cow_fork :: bool
  cap_egress_control :: bool
  cap_full_copy_fork :: bool
  cap_object_store_snapshots :: bool
  cap_capsule_export :: bool
  cap_capsule_import :: bool
  cap_safe_grant_rebind :: bool

section \<open>Defaults\<close>

text \<open>\<open>Default::default()\<close> of the messages the handlers fall back to.\<close>

definition default_template :: template_ref where
  "default_template = \<lparr>tpl_oci = None, tpl_runtime_bundle_ref = '''', tpl_template_hash = '''',
     tpl_arch = ''''\<rparr>"

definition default_resources :: resources where
  "default_resources = \<lparr>res_vcpu = 0, res_mem_mib = 0, res_disk_mib = 0\<rparr>"

definition default_spec :: instance_spec where
  "default_spec = \<lparr>sp_instance_id = '''', sp_template = None, sp_resources = None,
     sp_process = None, sp_hooks = None, sp_ttl_seconds = 0, sp_ttl_action = TA_Unspecified,
     sp_labels = Map.empty, sp_egress = None, sp_idle_action = None\<rparr>"

definition default_event :: pb_event where
  "default_event = \<lparr>pe_cursor = 0, pe_type = ET_Unspecified, pe_instance_id = '''', pe_op_id = '''',
     pe_state = I_Unspecified, pe_message = '''', pe_at = None, pe_stop_reason = None\<rparr>"

section \<open>Timestamps\<close>

text \<open>Rust's \<open>/\<close> and \<open>%\<close> on signed integers truncate towards zero.\<close>

definition trunc_div :: "int \<Rightarrow> int \<Rightarrow> int" where
  "trunc_div a b = sgn a * sgn b * (\<bar>a\<bar> div \<bar>b\<bar>)"

definition trunc_mod :: "int \<Rightarrow> int \<Rightarrow> int" where
  "trunc_mod a b = a - b * trunc_div a b"

text \<open>\<open>db.rs\<close>, \<open>ts\<close>: milliseconds since the epoch as a protobuf timestamp.\<close>

definition ts :: "ms \<Rightarrow> timestamp" where
  "ts t = \<lparr>t_seconds = trunc_div t 1000, t_nanos = trunc_mod t 1000 * 1000000\<rparr>"

text \<open>\<open>reconcile.rs\<close>, \<open>ts_ms\<close>: and back, saturating.\<close>

definition ts_ms :: "timestamp \<Rightarrow> ms" where
  "ts_ms t = i64_saturating_add (i64_saturating_mul (t_seconds t) 1000)
               (trunc_div (t_nanos t) 1000000)"

lemma trunc_div_mult_cancel [simp]: "0 < b \<Longrightarrow> trunc_div (a * b) b = a"
  by (simp add: trunc_div_def abs_mult sgn_mult sgn_mult_abs)

lemma trunc_div_nonneg: "0 < b \<Longrightarrow> 0 \<le> t \<Longrightarrow> 0 \<le> b * trunc_div t b \<and> b * trunc_div t b \<le> t"
  by (cases "t = 0") (simp_all add: trunc_div_def pos_imp_zdiv_nonneg_iff minus_mod_eq_mult_div [symmetric]
      zmod_le_nonneg_dividend)

lemma trunc_div_minus: "trunc_div (- t) b = - trunc_div t b"
  by (simp add: trunc_div_def)

lemma trunc_div_in_i64:
  assumes "in_i64 t" and "0 < b"
  shows "in_i64 (b * trunc_div t b)"
proof (cases "0 \<le> t")
  case True
  thus ?thesis using trunc_div_nonneg [of b t] assms by (simp add: machine_defs)
next
  case False
  thus ?thesis using trunc_div_nonneg [of b "- t"] assms by (simp add: trunc_div_minus machine_defs)
qed

text \<open>Reading back a timestamp the node wrote gives the instant it was made from.\<close>

lemma ts_ms_ts [simp]:
  assumes "in_i64 t"
  shows "ts_ms (ts t) = t"
proof -
  have "in_i64 (trunc_div t 1000 * 1000)"
    using trunc_div_in_i64 [OF assms, of 1000] by (simp add: mult.commute)
  thus ?thesis
    unfolding ts_ms_def ts_def timestamp.simps i64_saturating_mul_def i64_saturating_add_def
    by (simp only: trunc_div_mult_cancel i64_clamp_id trunc_mod_def) (simp add: assms mult.commute)
qed

end
