(* ===== verification/Rust_Text.thy ===== *)
theory Rust_Text
  imports Barista_Prelude
begin

text \<open>
  The functions of Rust's \<open>str\<close> that the sources use, on strings as lists of
  characters, with the facts the parsers and the deterministic idempotency keys
  rest on.  Whitespace is the ASCII part of \<open>char::is_whitespace\<close>.
\<close>

section \<open>Definitions\<close>

fun strip_prefix :: "string \<Rightarrow> string \<Rightarrow> string option" where
  "strip_prefix [] s = Some s"
| "strip_prefix (p # ps) [] = None"
| "strip_prefix (p # ps) (c # cs) = (if p = c then strip_prefix ps cs else None)"

definition starts_with :: "string \<Rightarrow> string \<Rightarrow> bool" where
  "starts_with s p \<longleftrightarrow> strip_prefix p s \<noteq> None"

fun str_contains :: "string \<Rightarrow> string \<Rightarrow> bool" where
  "str_contains [] p \<longleftrightarrow> p = []"
| "str_contains (c # cs) p \<longleftrightarrow> starts_with (c # cs) p \<or> str_contains cs p"

fun split_once :: "char \<Rightarrow> string \<Rightarrow> (string \<times> string) option" where
  "split_once d [] = None"
| "split_once d (c # cs) =
     (if c = d then Some ([], cs)
      else map_option (\<lambda>(a, b). (c # a, b)) (split_once d cs))"

fun split_where :: "(char \<Rightarrow> bool) \<Rightarrow> string \<Rightarrow> string list" where
  "split_where p [] = [[]]"
| "split_where p (c # cs) =
     (if p c then [] # split_where p cs
      else (case split_where p cs of [] \<Rightarrow> [[c]] | w # ws \<Rightarrow> (c # w) # ws))"

definition split_char :: "char \<Rightarrow> string \<Rightarrow> string list" where
  "split_char d = split_where (\<lambda>c. c = d)"

definition is_whitespace :: "char \<Rightarrow> bool" where
  "is_whitespace c \<longleftrightarrow> of_char c \<in> {9 :: nat, 10, 11, 12, 13, 32}"

definition split_whitespace :: "string \<Rightarrow> string list" where
  "split_whitespace s = filter (\<lambda>w. w \<noteq> []) (split_where is_whitespace s)"

text \<open>\<open>iter().find_map(f)\<close>.\<close>

fun find_map :: "('a \<Rightarrow> 'b option) \<Rightarrow> 'a list \<Rightarrow> 'b option" where
  "find_map f [] = None"
| "find_map f (x # xs) = (case f x of Some y \<Rightarrow> Some y | None \<Rightarrow> find_map f xs)"

definition trim_end_matches :: "char \<Rightarrow> string \<Rightarrow> string" where
  "trim_end_matches d s = rev (dropWhile (\<lambda>c. c = d) (rev s))"

fun join :: "string \<Rightarrow> string list \<Rightarrow> string" where
  "join sep [] = []"
| "join sep [x] = x"
| "join sep (x # y # xs) = x @ sep @ join sep (y # xs)"

text \<open>\<open>to_string\<close> of the unsigned and of the signed integers.\<close>

fun dec :: "nat \<Rightarrow> string" where
  "dec n = (if n < 10 then [char_of (48 + n)] else dec (n div 10) @ [char_of (48 + n mod 10)])"

declare dec.simps [simp del]

definition dec_u :: "int \<Rightarrow> string" where
  "dec_u n = dec (nat n)"

definition dec_i :: "int \<Rightarrow> string" where
  "dec_i n = (if n < 0 then CHR ''-'' # dec (nat (- n)) else dec (nat n))"

text \<open>The value a list of digits denotes.\<close>

definition undec :: "string \<Rightarrow> nat" where
  "undec s = foldl (\<lambda>n c. 10 * n + (of_char c - 48)) 0 s"

section \<open>Prefixes and separators\<close>

lemma strip_prefix_Some_iff: "strip_prefix p s = Some r \<longleftrightarrow> s = p @ r"
  by (induction p s rule: strip_prefix.induct) auto

lemma strip_prefix_append [simp]: "strip_prefix p (p @ r) = Some r"
  by (simp add: strip_prefix_Some_iff)

lemma starts_with_iff: "starts_with s p \<longleftrightarrow> (\<exists>r. s = p @ r)"
  by (auto simp: starts_with_def strip_prefix_Some_iff)

lemma split_once_Some_iff:
  "split_once d s = Some (a, b) \<longleftrightarrow> s = a @ d # b \<and> d \<notin> set a"
proof (induction s arbitrary: a)
  case (Cons c s)
  show ?case
    by (cases a) (auto simp: Cons.IH)
qed simp

lemma split_once_None_iff: "split_once d s = None \<longleftrightarrow> d \<notin> set s"
  by (induction s) auto

lemma split_once_append:
  "d \<notin> set a \<Longrightarrow> split_once d (a @ d # b) = Some (a, b)"
  by (simp add: split_once_Some_iff)

lemma split_where_not_Nil [simp]: "split_where p s \<noteq> []"
  by (induction s) (auto split: list.splits)

lemma split_where_no_sep: "\<forall>c \<in> set s. \<not> p c \<Longrightarrow> split_where p s = [s]"
  by (induction s) auto

lemma split_where_append:
  "\<forall>c \<in> set s. \<not> p c \<Longrightarrow> p d \<Longrightarrow> split_where p (s @ d # t) = s # split_where p t"
  by (induction s) auto

section \<open>Numbers\<close>

lemma of_char_digit [simp]: "n < 10 \<Longrightarrow> of_char (char_of (48 + n :: nat)) = (48 + n :: nat)"
  by (simp add: of_char_of)

lemma undec_snoc: "undec (s @ [c]) = 10 * undec s + (of_char c - 48)"
  by (simp add: undec_def)

lemma undec_dec [simp]: "undec (dec n) = n"
proof (induction n rule: dec.induct)
  case (1 n)
  show ?case
  proof (cases "n < 10")
    case True
    thus ?thesis by (subst dec.simps) (simp add: undec_def)
  next
    case False
    thus ?thesis using 1 by (subst dec.simps) (simp add: undec_snoc)
  qed
qed

lemma dec_inj [simp]: "dec m = dec n \<longleftrightarrow> m = n"
  by (metis undec_dec)

lemma dec_not_Nil [simp]: "dec n \<noteq> []"
  by (subst dec.simps) simp

lemma dec_digits: "c \<in> set (dec n) \<Longrightarrow> 48 \<le> (of_char c :: nat) \<and> of_char c < (58 :: nat)"
proof (induction n rule: dec.induct)
  case (1 n)
  show ?case
  proof (cases "n < 10")
    case True
    thus ?thesis using 1(2) by (subst (asm) dec.simps) simp
  next
    case False
    hence "c \<in> set (dec (n div 10)) \<or> c = char_of (48 + n mod 10)"
      using 1(2) by (subst (asm) dec.simps) auto
    thus ?thesis using 1(1) False by auto
  qed
qed

lemma dash_notin_dec [simp]: "CHR ''-'' \<notin> set (dec n)"
  using dec_digits [of "CHR ''-''" n] by auto

lemma dec_i_inj [simp]: "dec_i m = dec_i n \<longleftrightarrow> m = n"
proof -
  have ne: "dec k \<noteq> CHR ''-'' # s" for k s
    using dash_notin_dec [of k] by (metis list.set_intros(1))
  show ?thesis using ne ne [symmetric] by (auto simp: dec_i_def)
qed

lemma dec_u_inj: "0 \<le> m \<Longrightarrow> 0 \<le> n \<Longrightarrow> dec_u m = dec_u n \<longleftrightarrow> m = n"
  by (simp add: dec_u_def eq_nat_nat_iff)

end
