(* ===== verification/Journal_Schema.thy ===== *)
theory Journal_Schema
  imports Contract
begin

text \<open>
  \<open>db.rs\<close>: the tables of the SQLite journal, the rows the readers decode from
  them, and the invariants every statement keeps.

  A table is the list of its rows in insertion order.  Encoded blobs
  (\<open>prost\<close>'s bytes of a spec or of a manifest) are kept decoded: the node only
  reads what it wrote.  The wall clock is an argument of every operation that
  reads it.  A method returns what the source returns; the failures of SQLite
  itself (a full disk) are not states of the journal and are not modelled here.
\<close>

section \<open>Tables\<close>

record instances_row =
  ic_instance_id :: instance_id
  ic_spec :: instance_spec
  ic_state :: instance_state
  ic_ready :: bool
  ic_runtime :: string
  ic_created_at_ms :: ms
  ic_updated_at_ms :: ms
  ic_ttl_deadline_ms :: "ms option"
  ic_latest_snapshot_id :: snapshot_id
  ic_guest_token :: string
  ic_guest_anchor :: bytes
  ic_guest_cert :: bytes
  ic_guest_key :: bytes
  ic_host_cert :: bytes
  ic_host_key :: bytes
  ic_wake_at_ms :: "ms option"
  ic_stop_requested :: "bool option"
  ic_stop_exit_code :: "int option"
  ic_stop_detail :: "string option"
  ic_run_epoch_ms :: "ms option"
  ic_lineage_id :: string
  ic_source_snapshot_id :: string
  ic_source_capsule_id :: string
  ic_parent_instance_id :: string
  ic_execution_epoch :: int

record operations_row =
  oc_op_id :: op_id
  oc_kind :: string
  oc_instance_id :: instance_id
  oc_idempotency_key :: idempotency_key
  oc_payload :: string
  oc_state :: operation_state
  oc_current_step :: string
  oc_error_reason :: error_reason
  oc_error_message :: string
  oc_degraded :: string
  oc_created_at_ms :: ms
  oc_finished_at_ms :: "ms option"
  oc_froze_workload :: bool
  oc_executor_active :: bool
  oc_actual_fork_mode :: fork_mode

record events_row =
  ec_cursor :: int
  ec_type :: event_type
  ec_instance_id :: instance_id
  ec_op_id :: op_id
  ec_state :: instance_state
  ec_message :: string
  ec_at_ms :: ms
  ec_stop_requested :: "bool option"
  ec_stop_exit_code :: "int option"
  ec_stop_detail :: "string option"

record snapshots_row =
  sc_snapshot_id :: snapshot_id
  sc_instance_id :: instance_id
  sc_kind :: snapshot_kind
  sc_cpu_class :: string
  sc_template_hash :: string
  sc_runtime_bundle_ref :: string
  sc_tier :: snapshot_tier
  sc_size_bytes :: int
  sc_created_at_ms :: ms
  sc_hook_ran :: "bool option"
  sc_hook_timed_out :: "bool option"
  sc_hook_exit_code :: "int option"
  sc_name :: string

record fleet_leases_row =
  fl_name :: string
  fl_epoch :: int
  fl_instance_id :: string
  fl_fencing :: bool
  fl_acquired_at_ms :: ms

record object_refs_row =
  rc_digest :: string
  rc_length :: int
  rc_refcount :: int
  rc_verified :: bool
  rc_gc_pending :: bool

record capsules_row =
  cc_capsule_id :: string
  cc_manifest :: capsule_manifest
  cc_storage :: capsule_storage
  cc_lineage_id :: string
  cc_total_size :: int
  cc_created_at_ms :: ms

record capsule_operations_row =
  pc_op_id :: op_id
  pc_kind :: string
  pc_capsule_id :: string
  pc_idempotency_key :: idempotency_key
  pc_request :: string
  pc_state :: operation_state
  pc_error_reason :: error_reason
  pc_error_message :: string
  pc_created_at_ms :: ms
  pc_finished_at_ms :: "ms option"

text \<open>
  The connection.  \<open>j_event_seq\<close> is what SQLite keeps for an \<open>AUTOINCREMENT\<close> key:
  the largest cursor ever handed out, which deleting rows does not lower.
\<close>

record journal =
  j_instances :: "instances_row list"
  j_operations :: "operations_row list"
  j_events :: "events_row list"
  j_event_seq :: int
  j_last_pruned_cursor :: int
  j_next_execution_epoch :: int
  j_snapshots :: "snapshots_row list"
  j_fleet_leases :: "fleet_leases_row list"
  j_object_refs :: "object_refs_row list"
  j_capsules :: "capsules_row list"
  j_capsule_operations :: "capsule_operations_row list"

definition empty_journal :: journal where
  "empty_journal = \<lparr>j_instances = [], j_operations = [], j_events = [], j_event_seq = 0,
     j_last_pruned_cursor = 0, j_next_execution_epoch = 0, j_snapshots = [], j_fleet_leases = [],
     j_object_refs = [], j_capsules = [], j_capsule_operations = []\<rparr>"

text \<open>
  What a method of the journal can refuse with: a violated key, a row that is
  absent, and the refusals the source spells out with \<open>bail!\<close> and \<open>ensure!\<close>.
\<close>

datatype journal_error =
    ConstraintViolation
  | InstanceAbsent instance_id int
  | OpAbsent op_id operation_state
  | OpCannotBecome op_id operation_state operation_state
  | NotFinishable op_id
  | CanceledMeasuredStateIllegal op_id "instance_state option" instance_state
  | MintFailed string
  | CapsuleOpAbsent op_id

section \<open>Decoded rows\<close>

record identity =
  idn_anchor :: bytes
  idn_guest_cert :: bytes
  idn_guest_key :: bytes
  idn_host_cert :: bytes
  idn_host_key :: bytes

record InstanceRow =
  ir_id :: instance_id
  ir_spec :: instance_spec
  ir_state :: instance_state
  ir_ready :: bool
  ir_runtime :: string
  ir_created_at_ms :: ms
  ir_updated_at_ms :: ms
  ir_ttl_deadline_ms :: "ms option"
  ir_wake_at_ms :: "ms option"
  ir_stop_reason :: "stop_reason option"
  ir_latest_snapshot_id :: snapshot_id
  ir_guest_token :: string
  ir_identity :: "identity option"
  ir_run_epoch_ms :: "ms option"
  ir_lineage :: "lineage option"
  ir_execution_epoch :: int

record OperationRow =
  or_op_id :: op_id
  or_kind :: string
  or_instance_id :: instance_id
  or_payload :: string
  or_state :: operation_state
  or_current_step :: string
  or_error_reason :: error_reason
  or_error_message :: string
  or_degraded :: string
  or_created_at_ms :: ms
  or_finished_at_ms :: "ms option"
  or_froze_workload :: bool
  or_actual_fork_mode :: fork_mode

record SnapshotRow =
  sr_snapshot_id :: snapshot_id
  sr_instance_id :: instance_id
  sr_kind :: snapshot_kind
  sr_cpu_class :: string
  sr_template_hash :: string
  sr_runtime_bundle_ref :: string
  sr_tier :: snapshot_tier
  sr_size_bytes :: int
  sr_created_at_ms :: ms
  sr_pre_snapshot_hook :: "hook_outcome option"
  sr_name :: string

definition stop_reason_from ::
  "bool option \<Rightarrow> int option \<Rightarrow> string option \<Rightarrow> stop_reason option" where
  "stop_reason_from requested exit_code detail =
     map_option (\<lambda>req. \<lparr>rs_requested = req, rs_exit_code = exit_code,
                        rs_detail = (case detail of Some d \<Rightarrow> d | None \<Rightarrow> '''')\<rparr>) requested"

definition identity_from :: "instances_row \<Rightarrow> identity option" where
  "identity_from r =
     (if ic_guest_anchor r = [] then None
      else Some \<lparr>idn_anchor = ic_guest_anchor r, idn_guest_cert = ic_guest_cert r,
                 idn_guest_key = ic_guest_key r, idn_host_cert = ic_host_cert r,
                 idn_host_key = ic_host_key r\<rparr>)"

definition lineage_from :: "instances_row \<Rightarrow> lineage option" where
  "lineage_from r =
     (if ic_lineage_id r = [] \<and> ic_source_snapshot_id r = [] \<and> ic_source_capsule_id r = []
         \<and> ic_parent_instance_id r = [] then None
      else Some \<lparr>ln_lineage_id = ic_lineage_id r,
                 ln_source_snapshot_id = ic_source_snapshot_id r,
                 ln_source_capsule_id = ic_source_capsule_id r,
                 ln_parent_instance_id = ic_parent_instance_id r\<rparr>)"

definition instance_row_from :: "instances_row \<Rightarrow> InstanceRow" where
  "instance_row_from r =
     \<lparr>ir_id = sp_instance_id (ic_spec r),
      ir_spec = ic_spec r,
      ir_state = ic_state r,
      ir_ready = ic_ready r,
      ir_runtime = ic_runtime r,
      ir_created_at_ms = ic_created_at_ms r,
      ir_updated_at_ms = ic_updated_at_ms r,
      ir_ttl_deadline_ms = ic_ttl_deadline_ms r,
      ir_wake_at_ms = ic_wake_at_ms r,
      ir_stop_reason =
        stop_reason_from (ic_stop_requested r) (ic_stop_exit_code r) (ic_stop_detail r),
      ir_latest_snapshot_id = ic_latest_snapshot_id r,
      ir_guest_token = ic_guest_token r,
      ir_identity = identity_from r,
      ir_run_epoch_ms = ic_run_epoch_ms r,
      ir_lineage = lineage_from r,
      ir_execution_epoch = as_u64 (ic_execution_epoch r)\<rparr>"

definition operation_row_from :: "operations_row \<Rightarrow> OperationRow" where
  "operation_row_from r =
     \<lparr>or_op_id = oc_op_id r, or_kind = oc_kind r, or_instance_id = oc_instance_id r,
      or_payload = oc_payload r, or_state = oc_state r, or_current_step = oc_current_step r,
      or_error_reason = oc_error_reason r, or_error_message = oc_error_message r,
      or_degraded = oc_degraded r, or_created_at_ms = oc_created_at_ms r,
      or_finished_at_ms = oc_finished_at_ms r, or_froze_workload = oc_froze_workload r,
      or_actual_fork_mode = oc_actual_fork_mode r\<rparr>"

definition snapshot_row_from :: "snapshots_row \<Rightarrow> SnapshotRow" where
  "snapshot_row_from r =
     \<lparr>sr_snapshot_id = sc_snapshot_id r, sr_instance_id = sc_instance_id r, sr_kind = sc_kind r,
      sr_cpu_class = sc_cpu_class r, sr_template_hash = sc_template_hash r,
      sr_runtime_bundle_ref = sc_runtime_bundle_ref r, sr_tier = sc_tier r,
      sr_size_bytes = as_u64 (sc_size_bytes r), sr_created_at_ms = sc_created_at_ms r,
      sr_pre_snapshot_hook =
        map_option (\<lambda>ran. \<lparr>ho_ran = ran,
           ho_timed_out = (case sc_hook_timed_out r of Some b \<Rightarrow> b | None \<Rightarrow> False),
           ho_exit_code = (case sc_hook_exit_code r of Some c \<Rightarrow> c | None \<Rightarrow> 0)\<rparr>) (sc_hook_ran r),
      sr_name = sc_name r\<rparr>"

text \<open>\<open>OperationRow::to_proto\<close>: an error is reported for \<open>FAILED\<close> and nothing else.\<close>

definition op_to_proto :: "OperationRow \<Rightarrow> pb_operation" where
  "op_to_proto r =
     \<lparr>po_op_id = or_op_id r, po_kind = or_kind r, po_instance_id = or_instance_id r,
      po_state = or_state r, po_current_step = or_current_step r,
      po_error = (if or_state r = Op_Failed
                  then Some \<lparr>ed_reason = or_error_reason r, ed_message = or_error_message r\<rparr>
                  else None),
      po_degraded = or_degraded r, po_created_at = ts (or_created_at_ms r),
      po_finished_at = map_option ts (or_finished_at_ms r),
      po_froze_workload = or_froze_workload r, po_actual_fork_mode = or_actual_fork_mode r,
      po_capsule_id = ''''\<rparr>"

section \<open>Guards over operation states\<close>

text \<open>
  \<open>op_states_where\<close> builds a \<open>state IN (...)\<close> fragment from the list of all
  states; a row satisfies the fragment when its state is in that list.
\<close>

definition op_states_where :: "(operation_state \<Rightarrow> bool) \<Rightarrow> operation_state list" where
  "op_states_where keep = filter keep ALL_OP_STATES"

definition in_flight_ops :: "operation_state list" where
  "in_flight_ops = op_states_where op_is_in_flight"

definition ops_movable_to :: "operation_state \<Rightarrow> operation_state list" where
  "ops_movable_to to = op_states_where (\<lambda>from. op_can_transition from to)"

section \<open>Invariants\<close>

text \<open>The keys the schema declares, and that a row's id is its spec's id.\<close>

definition schema_ok :: "journal \<Rightarrow> bool" where
  "schema_ok db \<longleftrightarrow>
     unique_keys ic_instance_id (j_instances db)
   \<and> (\<forall>r \<in> set (j_instances db). sp_instance_id (ic_spec r) = ic_instance_id r)
   \<and> unique_keys oc_op_id (j_operations db)
   \<and> unique_keys oc_idempotency_key (j_operations db)
   \<and> unique_keys sc_snapshot_id (j_snapshots db)
   \<and> unique_keys fl_name (j_fleet_leases db)
   \<and> unique_keys rc_digest (j_object_refs db)
   \<and> unique_keys cc_capsule_id (j_capsules db)
   \<and> unique_keys pc_op_id (j_capsule_operations db)
   \<and> unique_keys pc_idempotency_key (j_capsule_operations db)"

text \<open>
  Per-instance serialisation: an operation in flight holds its instance, and no
  instance is held twice.
\<close>

definition claims_ok :: "operations_row list \<Rightarrow> bool" where
  "claims_ok ops \<longleftrightarrow>
     (\<forall>o1 \<in> set ops. op_is_in_flight (oc_state o1) \<longrightarrow> oc_executor_active o1)
   \<and> distinct (map oc_instance_id (filter oc_executor_active ops))"

section \<open>The tables as keyed tables\<close>

interpretation instances: keyed_table ic_instance_id j_instances j_instances_update
  by unfold_locales simp_all

interpretation operations: keyed_table oc_op_id j_operations j_operations_update
  by unfold_locales simp_all

interpretation snapshots: keyed_table sc_snapshot_id j_snapshots j_snapshots_update
  by unfold_locales simp_all

interpretation fleet_leases: keyed_table fl_name j_fleet_leases j_fleet_leases_update
  by unfold_locales simp_all

interpretation object_refs: keyed_table rc_digest j_object_refs j_object_refs_update
  by unfold_locales simp_all

interpretation capsules: keyed_table cc_capsule_id j_capsules j_capsules_update
  by unfold_locales simp_all

interpretation capsule_operations:
  keyed_table pc_op_id j_capsule_operations j_capsule_operations_update
  by unfold_locales simp_all

section \<open>Facts shared by the operations of the journal\<close>

lemma set_op_states_where [simp]: "s \<in> set (op_states_where p) \<longleftrightarrow> p s"
  by (simp add: op_states_where_def)

lemma set_in_flight_ops [simp]: "s \<in> set in_flight_ops \<longleftrightarrow> op_is_in_flight s"
  by (simp add: in_flight_ops_def)

lemma set_ops_movable_to [simp]: "s \<in> set (ops_movable_to to) \<longleftrightarrow> op_can_transition s to"
  by (simp add: ops_movable_to_def)

lemma schema_ok_empty [simp]: "schema_ok empty_journal"
  by (simp add: schema_ok_def empty_journal_def)

lemma claims_ok_Nil [simp]: "claims_ok []"
  by (simp add: claims_ok_def)

lemma claims_ok_Cons:
  "claims_ok (r # ops) \<longleftrightarrow>
     claims_ok ops \<and> (op_is_in_flight (oc_state r) \<longrightarrow> oc_executor_active r)
   \<and> (oc_executor_active r \<longrightarrow>
        (\<forall>q \<in> set ops. oc_executor_active q \<longrightarrow> oc_instance_id q \<noteq> oc_instance_id r))"
  by (auto simp: claims_ok_def image_iff)

text \<open>
  A statement that rewrites operation rows keeps the claims if each rewritten
  row keeps its instance, takes no new claim, and is claimed while in flight.
\<close>

lemma holders_sql_update:
  assumes inst: "\<And>r. oc_instance_id (f r) = oc_instance_id r"
    and active: "\<And>r. p r \<Longrightarrow> oc_executor_active (f r) \<Longrightarrow> oc_executor_active r"
  shows "set (map oc_instance_id (filter oc_executor_active (sql_update p f ops)))
         \<subseteq> set (map oc_instance_id (filter oc_executor_active ops))"
    and "distinct (map oc_instance_id (filter oc_executor_active ops)) \<Longrightarrow>
         distinct (map oc_instance_id (filter oc_executor_active (sql_update p f ops)))"
proof (induction ops)
  case (Cons r ops)
  { case 1
    show ?case using Cons.IH(1) active [of r] by (cases "p r") (auto simp: inst)
  next
    case 2
    hence "distinct (map oc_instance_id (filter oc_executor_active (sql_update p f ops)))"
      by (intro Cons.IH(2)) (simp split: if_splits)
    with 2 Cons.IH(1) active [of r] show ?case
      by (cases "p r"; cases "oc_executor_active r"; cases "oc_executor_active (f r)")
        (simp_all add: inst, blast+) }
qed simp_all

lemma claims_ok_sql_update:
  assumes ok: "claims_ok ops"
    and inst: "\<And>r. oc_instance_id (f r) = oc_instance_id r"
    and active: "\<And>r. p r \<Longrightarrow> oc_executor_active (f r) \<Longrightarrow> oc_executor_active r"
    and flight: "\<And>r. p r \<Longrightarrow> (op_is_in_flight (oc_state r) \<longrightarrow> oc_executor_active r)
              \<Longrightarrow> op_is_in_flight (oc_state (f r)) \<Longrightarrow> oc_executor_active (f r)"
  shows "claims_ok (sql_update p f ops)"
  unfolding claims_ok_def
proof (intro conjI ballI impI)
  fix q assume q: "q \<in> set (sql_update p f ops)" "op_is_in_flight (oc_state q)"
  then obtain r where "r \<in> set ops" "q = (if p r then f r else r)"
    by (auto simp only: set_sql_update)
  thus "oc_executor_active q"
    using ok q(2) flight [of r] by (cases "p r") (simp_all add: claims_ok_def)
next
  show "distinct (map oc_instance_id (filter oc_executor_active (sql_update p f ops)))"
    using holders_sql_update(2) [of f p ops, OF inst active] ok by (simp add: claims_ok_def)
qed

lemma claims_ok_snoc:
  "claims_ok (ops @ [r]) \<longleftrightarrow>
     claims_ok ops \<and> (op_is_in_flight (oc_state r) \<longrightarrow> oc_executor_active r)
   \<and> (oc_executor_active r \<longrightarrow>
        (\<forall>q \<in> set ops. oc_executor_active q \<longrightarrow> oc_instance_id q \<noteq> oc_instance_id r))"
  by (auto simp: claims_ok_def image_iff)

lemma claims_ok_exclusive:
  assumes "claims_ok ops" and "q \<in> set ops" "r \<in> set ops"
    and "oc_executor_active q" "oc_executor_active r" "oc_instance_id q = oc_instance_id r"
  shows "q = r"
  using assms by (induction ops) (auto simp: claims_ok_Cons)

end
