(* ===== verification/Journal_Instances.thy ===== *)
theory Journal_Instances
  imports Journal_Schema
begin

text \<open>
  \<open>db.rs\<close>, the instance table: lookup and listing, state, readiness, execution
  epochs, and the two deadlines (the TTL lease and the wake alarm).

  A deadline is taken by \<open>take_deadline\<close>, which the source writes once over the
  column's name.  The locale \<open>deadline_column\<close> is what it needs of a column; it is
  interpreted on both columns, and its lemmas are the claim's guarantees.
\<close>

section \<open>Registry\<close>

definition insert_instance ::
  "journal \<Rightarrow> instance_spec \<Rightarrow> string \<Rightarrow> string \<Rightarrow> ms \<Rightarrow> journal_error + journal" where
  "insert_instance db spec runtime guest_token now =
     (if has_key ic_instance_id (sp_instance_id spec) (j_instances db) then Inl ConstraintViolation
      else Inr (j_instances_update (\<lambda>t. t @
        [\<lparr>ic_instance_id = sp_instance_id spec, ic_spec = spec, ic_state = I_Creating,
          ic_ready = False, ic_runtime = runtime, ic_created_at_ms = now, ic_updated_at_ms = now,
          ic_ttl_deadline_ms = None, ic_latest_snapshot_id = '''', ic_guest_token = guest_token,
          ic_guest_anchor = [], ic_guest_cert = [], ic_guest_key = [], ic_host_cert = [],
          ic_host_key = [], ic_wake_at_ms = None, ic_stop_requested = None,
          ic_stop_exit_code = None, ic_stop_detail = None, ic_run_epoch_ms = None,
          ic_lineage_id = '''', ic_source_snapshot_id = '''', ic_source_capsule_id = '''',
          ic_parent_instance_id = '''', ic_execution_epoch = 0\<rparr>]) db))"

definition get_instance :: "journal \<Rightarrow> instance_id \<Rightarrow> InstanceRow option" where
  "get_instance db iid = map_option instance_row_from (row_with ic_instance_id iid (j_instances db))"

definition list_instances :: "journal \<Rightarrow> InstanceRow list" where
  "list_instances db = map instance_row_from (sort_key ic_created_at_ms (j_instances db))"

definition transitional_instances :: "journal \<Rightarrow> InstanceRow list" where
  "transitional_instances db = filter (\<lambda>i. is_transitional (ir_state i)) (list_instances db)"

section \<open>State, readiness and epochs\<close>

definition set_instance_state ::
  "journal \<Rightarrow> instance_id \<Rightarrow> instance_state \<Rightarrow> ms \<Rightarrow> journal" where
  "set_instance_state db iid state now =
    (let db1 = j_instances_update
           (sql_update (\<lambda>r. ic_instance_id r = iid)
              (\<lambda>r. r\<lparr>ic_state := state, ic_updated_at_ms := now\<rparr>)) db;
         db2 = (if state = I_Running
                then j_instances_update
                       (sql_update (\<lambda>r. ic_instance_id r = iid)
                          (\<lambda>r. r\<lparr>ic_run_epoch_ms := Some now\<rparr>)) db1
                else db1)
     in if state = I_Destroyed
        then j_instances_update
               (sql_update (\<lambda>r. ic_instance_id r = iid)
                  (\<lambda>r. r\<lparr>ic_guest_token := '''', ic_guest_anchor := [], ic_guest_cert := [],
                          ic_guest_key := [], ic_host_cert := [], ic_host_key := []\<rparr>)) db2
        else db2)"

definition issue_execution_epoch :: "journal \<Rightarrow> int \<times> journal" where
  "issue_execution_epoch db =
     (let db' = j_next_execution_epoch_update (\<lambda>n. n + 1) db
      in (as_u64 (j_next_execution_epoch db'), db'))"

definition set_instance_epoch ::
  "journal \<Rightarrow> instance_id \<Rightarrow> int \<Rightarrow> ms \<Rightarrow> journal_error + journal" where
  "set_instance_epoch db iid epoch now =
    (if sql_changed (\<lambda>r. ic_instance_id r = iid) (j_instances db) = 1
     then Inr (j_instances_update
            (sql_update (\<lambda>r. ic_instance_id r = iid)
               (\<lambda>r. r\<lparr>ic_execution_epoch := as_i64 epoch, ic_updated_at_ms := now\<rparr>)) db)
     else Inl (InstanceAbsent iid epoch))"

definition set_instance_ready ::
  "journal \<Rightarrow> instance_id \<Rightarrow> bool \<Rightarrow> ms \<Rightarrow> bool \<times> journal" where
  "set_instance_ready db iid ready now =
    (let p = (\<lambda>r. ic_instance_id r = iid \<and> ic_ready r \<noteq> ready)
     in (sql_changed p (j_instances db) > 0,
         j_instances_update
           (sql_update p (\<lambda>r. r\<lparr>ic_ready := ready, ic_updated_at_ms := now\<rparr>)) db))"

definition set_ttl_deadline :: "journal \<Rightarrow> instance_id \<Rightarrow> ms option \<Rightarrow> ms \<Rightarrow> journal" where
  "set_ttl_deadline db iid deadline now =
     j_instances_update (sql_update (\<lambda>r. ic_instance_id r = iid)
       (\<lambda>r. r\<lparr>ic_ttl_deadline_ms := deadline, ic_updated_at_ms := now\<rparr>)) db"

definition set_wake_at :: "journal \<Rightarrow> instance_id \<Rightarrow> ms option \<Rightarrow> ms \<Rightarrow> journal" where
  "set_wake_at db iid wake now =
     j_instances_update (sql_update (\<lambda>r. ic_instance_id r = iid)
       (\<lambda>r. r\<lparr>ic_wake_at_ms := wake, ic_updated_at_ms := now\<rparr>)) db"

section \<open>Claims on a deadline\<close>

datatype claim = TtlExpiry ms | Wake ms

text \<open>The column a claim clears and the value it must still hold.\<close>

fun claim_column ::
  "claim \<Rightarrow> (instances_row \<Rightarrow> ms option) \<times> ((ms option \<Rightarrow> ms option) \<Rightarrow> instances_row \<Rightarrow> instances_row) \<times> ms"
where
  "claim_column (TtlExpiry d) = (ic_ttl_deadline_ms, ic_ttl_deadline_ms_update, d)"
| "claim_column (Wake d) = (ic_wake_at_ms, ic_wake_at_ms_update, d)"

text \<open>\<open>WHERE instance_id = ?1 AND column = ?2 AND column <= ?3\<close>; a \<open>NULL\<close> matches neither.\<close>

definition claim_matches ::
  "(instances_row \<Rightarrow> ms option) \<Rightarrow> instance_id \<Rightarrow> ms \<Rightarrow> ms \<Rightarrow> instances_row \<Rightarrow> bool" where
  "claim_matches col iid expected now r \<longleftrightarrow>
     ic_instance_id r = iid \<and> col r = Some expected \<and> expected \<le> now"

definition take_deadline :: "journal \<Rightarrow> instance_id \<Rightarrow> claim \<Rightarrow> ms \<Rightarrow> bool \<times> journal" where
  "take_deadline db iid claim now =
    (case claim_column claim of (col, set_col, expected) \<Rightarrow>
       (sql_changed (claim_matches col iid expected now) (j_instances db) = 1,
        j_instances_update
          (sql_update (claim_matches col iid expected now)
             (\<lambda>r. set_col (\<lambda>_. None) (r\<lparr>ic_updated_at_ms := now\<rparr>))) db))"

definition claim_wake :: "journal \<Rightarrow> instance_id \<Rightarrow> ms \<Rightarrow> ms \<Rightarrow> bool \<times> journal" where
  "claim_wake db iid expected now = take_deadline db iid (Wake expected) now"

definition claim_ttl_expiry :: "journal \<Rightarrow> instance_id \<Rightarrow> ms \<Rightarrow> ms \<Rightarrow> bool \<times> journal" where
  "claim_ttl_expiry db iid expected now = take_deadline db iid (TtlExpiry expected) now"

text \<open>The part of the schema's invariant about the instance table.\<close>

definition instances_ok :: "instances_row list \<Rightarrow> bool" where
  "instances_ok t \<longleftrightarrow>
     unique_keys ic_instance_id t \<and> (\<forall>r \<in> set t. sp_instance_id (ic_spec r) = ic_instance_id r)"

text \<open>A journal with one armed instance, used by the concrete instances of the properties.\<close>

definition sample_spec :: instance_spec where
  "sample_spec = default_spec\<lparr>sp_instance_id := ''i1''\<rparr>"

definition sample_journal :: journal where
  "sample_journal =
     (case insert_instance empty_journal sample_spec ''fake'' ''tok'' 1 of
        Inr db \<Rightarrow> set_ttl_deadline (set_wake_at db ''i1'' (Some 5) 2) ''i1'' (Some 9) 2
      | Inl _ \<Rightarrow> empty_journal)"

section \<open>What one statement does to the instance table\<close>

lemmas instance_defs = insert_instance_def set_instance_state_def issue_execution_epoch_def
  set_instance_epoch_def set_instance_ready_def set_ttl_deadline_def set_wake_at_def
  claim_wake_def claim_ttl_expiry_def

lemma schema_ok_instances: "schema_ok db \<Longrightarrow> instances_ok (j_instances db)"
  by (simp add: schema_ok_def instances_ok_def)

lemma schema_ok_with_instances:
  "schema_ok db \<Longrightarrow> instances_ok (f (j_instances db)) \<Longrightarrow> schema_ok (j_instances_update f db)"
  by (simp add: schema_ok_def instances_ok_def)

lemma instances_ok_sql_update:
  assumes "instances_ok t"
    and "\<And>r. ic_instance_id (f r) = ic_instance_id r" and "\<And>r. ic_spec (f r) = ic_spec r"
  shows "instances_ok (sql_update p f t)"
  using assms by (auto simp: instances_ok_def unique_keys_sql_update set_sql_update)

lemma instances_ok_snoc:
  "instances_ok (t @ [r]) \<longleftrightarrow>
     instances_ok t \<and> \<not> has_key ic_instance_id (ic_instance_id r) t
     \<and> sp_instance_id (ic_spec r) = ic_instance_id r"
  by (auto simp: instances_ok_def unique_keys_snoc)

lemma get_instance_id:
  "schema_ok db \<Longrightarrow> get_instance db iid = Some i \<Longrightarrow> ir_id i = iid"
  using row_with_Some_in [of ic_instance_id iid "j_instances db"]
    row_with_Some_key [of ic_instance_id iid "j_instances db"]
  by (auto simp: get_instance_def instance_row_from_def schema_ok_def)

lemma list_instances_get:
  assumes "schema_ok db" "i \<in> set (list_instances db)"
  shows "get_instance db (ir_id i) = Some i"
proof -
  obtain r where r: "r \<in> set (j_instances db)" "i = instance_row_from r"
    using assms(2) by (auto simp: list_instances_def)
  have "ir_id i = ic_instance_id r"
    using assms(1) r by (simp add: schema_ok_def instance_row_from_def)
  thus ?thesis
    using assms(1) r row_with_unique [of ic_instance_id "j_instances db" r]
    by (simp add: get_instance_def schema_ok_def)
qed

section \<open>Every operation keeps the schema\<close>

lemma schema_ok_insert_instance [journal_intros]:
  "schema_ok db \<Longrightarrow> insert_instance db spec runtime token now = Inr db' \<Longrightarrow> schema_ok db'"
  by (auto simp: insert_instance_def instances_ok_snoc schema_ok_instances
      intro!: schema_ok_with_instances split: if_splits)

lemma schema_ok_set_instance_state [journal_intros]:
  "schema_ok db \<Longrightarrow> schema_ok (set_instance_state db iid state now)"
  by (auto simp: set_instance_state_def Let_def schema_ok_instances
      intro!: schema_ok_with_instances instances_ok_sql_update)

lemma schema_ok_issue_execution_epoch [journal_intros]:
  "schema_ok db \<Longrightarrow> schema_ok (snd (issue_execution_epoch db))"
  by (simp add: issue_execution_epoch_def schema_ok_def)

lemma schema_ok_set_instance_epoch [journal_intros]:
  "schema_ok db \<Longrightarrow> set_instance_epoch db iid epoch now = Inr db' \<Longrightarrow> schema_ok db'"
  by (auto simp: set_instance_epoch_def schema_ok_instances
      intro!: schema_ok_with_instances instances_ok_sql_update split: if_splits)

lemma schema_ok_set_instance_ready [journal_intros]:
  "schema_ok db \<Longrightarrow> schema_ok (snd (set_instance_ready db iid ready now))"
  by (auto simp: set_instance_ready_def Let_def schema_ok_instances
      intro!: schema_ok_with_instances instances_ok_sql_update)

lemma schema_ok_set_ttl_deadline [journal_intros]:
  "schema_ok db \<Longrightarrow> schema_ok (set_ttl_deadline db iid deadline now)"
  by (auto simp: set_ttl_deadline_def schema_ok_instances
      intro!: schema_ok_with_instances instances_ok_sql_update)

lemma schema_ok_set_wake_at [journal_intros]:
  "schema_ok db \<Longrightarrow> schema_ok (set_wake_at db iid wake now)"
  by (auto simp: set_wake_at_def schema_ok_instances
      intro!: schema_ok_with_instances instances_ok_sql_update)

lemma schema_ok_take_deadline [journal_intros]:
  "schema_ok db \<Longrightarrow> schema_ok (snd (take_deadline db iid claim now))"
  by (cases claim) (auto simp: take_deadline_def schema_ok_instances
      intro!: schema_ok_with_instances instances_ok_sql_update)

section \<open>The contract of a deadline column\<close>

locale deadline_column =
  fixes col :: "instances_row \<Rightarrow> ms option"
    and set_col :: "(ms option \<Rightarrow> ms option) \<Rightarrow> instances_row \<Rightarrow> instances_row"
    and mk :: "ms \<Rightarrow> claim"
  assumes column: "claim_column (mk d) = (col, set_col, d)"
    and col_set: "col (set_col f r) = f (col r)"
    and id_set: "ic_instance_id (set_col f r) = ic_instance_id r"
    and col_touch: "col (r\<lparr>ic_updated_at_ms := now\<rparr>) = col r"
begin

lemma taken_iff:
  assumes "schema_ok db"
  shows "fst (take_deadline db iid (mk d) now) \<longleftrightarrow>
           (\<exists>r. row_with ic_instance_id iid (j_instances db) = Some r \<and> col r = Some d \<and> d \<le> now)"
  using assms sql_changed_key_row [of ic_instance_id "j_instances db" iid
      "\<lambda>r. col r = Some d \<and> d \<le> now"]
  by (auto simp: take_deadline_def column claim_matches_def [abs_def] schema_ok_def
      split: option.splits)

lemma not_taken_unchanged:
  assumes "schema_ok db" and "\<not> fst (take_deadline db iid (mk d) now)"
  shows "snd (take_deadline db iid (mk d) now) = db"
proof -
  let ?m = "claim_matches col iid d now"
  have "sql_changed ?m (j_instances db) \<le> 1"
    using assms(1) sql_changed_key_le_1 [of ic_instance_id "j_instances db" iid
        "\<lambda>r. col r = Some d \<and> d \<le> now"]
    by (simp add: claim_matches_def [abs_def] schema_ok_def)
  moreover have "sql_changed ?m (j_instances db) \<noteq> 1"
    using assms(2) by (simp add: take_deadline_def column)
  ultimately have "sql_changed ?m (j_instances db) = 0" by linarith
  thus ?thesis by (simp add: take_deadline_def column sql_update_none)
qed

lemma row_after_take:
  "row_with ic_instance_id k (j_instances (snd (take_deadline db iid (mk d) now)))
   = map_option (\<lambda>r. if claim_matches col iid d now r
                     then set_col (\<lambda>_. None) (r\<lparr>ic_updated_at_ms := now\<rparr>) else r)
       (row_with ic_instance_id k (j_instances db))"
  by (simp add: take_deadline_def column row_with_sql_update id_set)

lemma taken_clears:
  assumes "schema_ok db" and "fst (take_deadline db iid (mk d) now)"
  shows "\<exists>r. row_with ic_instance_id iid (j_instances (snd (take_deadline db iid (mk d) now))) = Some r
             \<and> col r = None"
proof -
  obtain r where r: "row_with ic_instance_id iid (j_instances db) = Some r" "col r = Some d" "d \<le> now"
    using assms taken_iff by blast
  thus ?thesis
    using row_with_Some_key [OF r(1)] by (simp add: row_after_take claim_matches_def col_set)
qed

lemma taken_once:
  assumes "schema_ok db" and "fst (take_deadline db iid (mk d) now)"
  shows "\<not> fst (take_deadline (snd (take_deadline db iid (mk d) now)) iid (mk d') now')"
  using taken_clears [OF assms] schema_ok_take_deadline [OF assms(1)] by (auto simp: taken_iff)

end

interpretation ttl: deadline_column ic_ttl_deadline_ms ic_ttl_deadline_ms_update TtlExpiry
  by unfold_locales simp_all

interpretation wake: deadline_column ic_wake_at_ms ic_wake_at_ms_update Wake
  by unfold_locales simp_all

section \<open>Guarantees\<close>

lemma sample_journal_ok: "schema_ok sample_journal"
proof -
  obtain db where db: "insert_instance empty_journal sample_spec ''fake'' ''tok'' 1 = Inr db"
    by (simp add: insert_instance_def empty_journal_def has_key_def)
  hence "schema_ok db" using schema_ok_insert_instance schema_ok_empty by blast
  thus ?thesis
    using db by (simp add: sample_journal_def schema_ok_set_wake_at schema_ok_set_ttl_deadline)
qed

lemmas sample_simps = sample_journal_def insert_instance_def empty_journal_def has_key_def
  sample_spec_def default_spec_def set_ttl_deadline_def set_wake_at_def get_instance_def
  instance_row_from_def

text \<open>
  C8: taking a deadline is exact and happens once.  A claim succeeds precisely
  when the instance still holds the deadline that was observed and it is due; a
  claim that fails leaves the journal as it was, so a renewal wins; and after a
  successful claim no later claim of the same kind succeeds, at any time and for
  any expected value, until the column is armed again.
\<close>

theorem deadline_taken_once:
  assumes "schema_ok db"
  shows "(fst (take_deadline db iid (Wake d) now) \<longleftrightarrow>
            (\<exists>i. get_instance db iid = Some i \<and> ir_wake_at_ms i = Some d \<and> d \<le> now))
       \<and> (fst (take_deadline db iid (TtlExpiry d) now) \<longleftrightarrow>
            (\<exists>i. get_instance db iid = Some i \<and> ir_ttl_deadline_ms i = Some d \<and> d \<le> now))
       \<and> (\<not> fst (take_deadline db iid c now) \<longrightarrow> snd (take_deadline db iid c now) = db)
       \<and> (fst (claim_wake db iid d now) \<longrightarrow>
            \<not> fst (claim_wake (snd (claim_wake db iid d now)) iid d' now'))
       \<and> (fst (claim_ttl_expiry db iid d now) \<longrightarrow>
            \<not> fst (claim_ttl_expiry (snd (claim_ttl_expiry db iid d now)) iid d' now'))"
proof -
  have "snd (take_deadline db iid c now) = db" if "\<not> fst (take_deadline db iid c now)"
    using that assms ttl.not_taken_unchanged wake.not_taken_unchanged by (cases c) auto
  thus ?thesis
    using assms ttl.taken_once wake.taken_once
    by (auto simp: claim_wake_def claim_ttl_expiry_def ttl.taken_iff wake.taken_iff
        get_instance_def instance_row_from_def)
qed

theorem deadline_taken_once_witness:
  "fst (take_deadline sample_journal ''i1'' (Wake 5) 7)
   \<and> \<not> fst (take_deadline sample_journal ''i1'' (TtlExpiry 9) 7)"
  using deadline_taken_once [OF sample_journal_ok, of "''i1''" 5 7]
    deadline_taken_once [OF sample_journal_ok, of "''i1''" 9 7]
  by (simp add: sample_simps)

text \<open>
  Moving an instance with \<open>set_instance_state\<close> stamps the run epoch exactly on
  the way into \<open>RUNNING\<close> and forgets the guest token and the channel identity
  exactly on the way into \<open>DESTROYED\<close>, and touches no other instance.
\<close>

theorem set_instance_state_effect:
  "get_instance (set_instance_state db iid state now) iid =
     map_option (\<lambda>i. i\<lparr>ir_state := state, ir_updated_at_ms := now,
        ir_run_epoch_ms := (if state = I_Running then Some now else ir_run_epoch_ms i),
        ir_guest_token := (if state = I_Destroyed then '''' else ir_guest_token i),
        ir_identity := (if state = I_Destroyed then None else ir_identity i)\<rparr>) (get_instance db iid)
   \<and> (other \<noteq> iid \<longrightarrow>
        get_instance (set_instance_state db iid state now) other = get_instance db other)"
proof -
  let ?db = "set_instance_state db iid state now"
  let ?f = "\<lambda>r. if ic_instance_id r = iid
     then r\<lparr>ic_state := state, ic_updated_at_ms := now,
        ic_run_epoch_ms := (if state = I_Running then Some now else ic_run_epoch_ms r),
        ic_guest_token := (if state = I_Destroyed then '''' else ic_guest_token r),
        ic_guest_anchor := (if state = I_Destroyed then [] else ic_guest_anchor r),
        ic_guest_cert := (if state = I_Destroyed then [] else ic_guest_cert r),
        ic_guest_key := (if state = I_Destroyed then [] else ic_guest_key r),
        ic_host_cert := (if state = I_Destroyed then [] else ic_host_cert r),
        ic_host_key := (if state = I_Destroyed then [] else ic_host_key r)\<rparr> else r"
  have row: "row_with ic_instance_id k (j_instances ?db)
             = map_option ?f (row_with ic_instance_id k (j_instances db))" for k
    by (cases "row_with ic_instance_id k (j_instances db)")
      (simp_all add: set_instance_state_def Let_def row_with_sql_update)
  have key: "ic_instance_id r = k" if "row_with ic_instance_id k (j_instances db) = Some r" for k r
    using that by (rule row_with_Some_key)
  have "get_instance ?db other = get_instance db other" if "other \<noteq> iid"
    using that key [of other]
    by (cases "row_with ic_instance_id other (j_instances db)") (simp_all add: get_instance_def row)
  thus ?thesis
    using key [of iid] by (cases "row_with ic_instance_id iid (j_instances db)")
      (simp_all add: get_instance_def row instance_row_from_def identity_from_def lineage_from_def)
qed

theorem set_instance_state_effect_witness:
  "get_instance (set_instance_state sample_journal ''i1'' I_Destroyed 7) ''i2'' = None"
  using set_instance_state_effect [of sample_journal "''i1''" I_Destroyed 7 "''i2''"]
  by (simp add: sample_simps)

end
