(* ===== verification/Journal_Operations.thy ===== *)
theory Journal_Operations
  imports Journal_Instances Rust_Text
begin

text \<open>
  \<open>db.rs\<close>, the operation table: lookup, the executor's narration, the moves a
  caller makes on an operation it does not execute (park, resume, cancel), the
  settling writes, crash recovery's sweep, and \<open>finish_operation\<close>, the one
  transaction in which an operation and its instance end together.

  A transaction that rolls back returns the error and no journal; the caller
  keeps the one it had.
\<close>

section \<open>Lookup\<close>

definition get_operation :: "journal \<Rightarrow> op_id \<Rightarrow> OperationRow option" where
  "get_operation db oid = map_option operation_row_from (row_with oc_op_id oid (j_operations db))"

definition find_op_by_idempotency_key :: "journal \<Rightarrow> idempotency_key \<Rightarrow> OperationRow option" where
  "find_op_by_idempotency_key db key =
     (case row_with oc_idempotency_key key (j_operations db) of
        Some r \<Rightarrow> get_operation db (oc_op_id r)
      | None \<Rightarrow> None)"

text \<open>The source snapshot named in a fork's descriptor.\<close>

definition source_snapshot_of :: "string \<Rightarrow> string option" where
  "source_snapshot_of payload =
     (case find_map (strip_prefix ''source_snapshot_id='') (split_whitespace payload) of
        Some s \<Rightarrow> if s \<noteq> [] then Some s else None
      | None \<Rightarrow> None)"

text \<open>\<open>OpKind::Fork.as_str()\<close>, the literal the query is given.\<close>

definition fork_source_instances_in_flight :: "journal \<Rightarrow> instance_id list" where
  "fork_source_instances_in_flight db =
     List.map_filter (\<lambda>r.
        case source_snapshot_of (oc_payload r) of
          None \<Rightarrow> None
        | Some sid \<Rightarrow>
            (case row_with sc_snapshot_id sid (j_snapshots db) of
               None \<Rightarrow> None
             | Some s \<Rightarrow> if sc_instance_id s \<noteq> [] then Some (sc_instance_id s) else None))
       (filter (\<lambda>r. oc_kind r = ''fork'' \<and> oc_executor_active r) (j_operations db))"

definition has_inflight_op :: "journal \<Rightarrow> instance_id \<Rightarrow> bool" where
  "has_inflight_op db iid \<longleftrightarrow>
     0 < sql_changed (\<lambda>r. oc_instance_id r = iid \<and> oc_executor_active r) (j_operations db)"

section \<open>Insertion\<close>

text \<open>The columns an \<open>INSERT INTO operations\<close> names; the others take their defaults.\<close>

definition operation_insert :: "OperationRow \<Rightarrow> idempotency_key \<Rightarrow> operations_row" where
  "operation_insert op key =
     \<lparr>oc_op_id = or_op_id op, oc_kind = or_kind op, oc_instance_id = or_instance_id op,
      oc_idempotency_key = key, oc_payload = or_payload op, oc_state = or_state op,
      oc_current_step = or_current_step op, oc_error_reason = ER_Unspecified,
      oc_error_message = '''', oc_degraded = '''', oc_created_at_ms = or_created_at_ms op,
      oc_finished_at_ms = None, oc_froze_workload = False, oc_executor_active = True,
      oc_actual_fork_mode = FM_Unspecified\<rparr>"

definition insert_operation ::
  "journal \<Rightarrow> OperationRow \<Rightarrow> idempotency_key \<Rightarrow> journal_error + journal" where
  "insert_operation db op key =
     (if has_key oc_op_id (or_op_id op) (j_operations db)
         \<or> has_key oc_idempotency_key key (j_operations db)
      then Inl ConstraintViolation
      else Inr (j_operations_update (\<lambda>t. t @ [operation_insert op key]) db))"

section \<open>The executor's narration\<close>

definition set_op_step :: "journal \<Rightarrow> op_id \<Rightarrow> string \<Rightarrow> journal" where
  "set_op_step db oid step =
     j_operations_update (sql_update (\<lambda>r. oc_op_id r = oid \<and> oc_state r \<in> set in_flight_ops)
       (\<lambda>r. r\<lparr>oc_state := Op_Running, oc_current_step := step\<rparr>)) db"

definition set_op_froze_workload :: "journal \<Rightarrow> op_id \<Rightarrow> journal" where
  "set_op_froze_workload db oid =
     j_operations_update (sql_update (\<lambda>r. oc_op_id r = oid) (\<lambda>r. r\<lparr>oc_froze_workload := True\<rparr>)) db"

definition set_op_fork_mode :: "journal \<Rightarrow> op_id \<Rightarrow> fork_mode \<Rightarrow> journal" where
  "set_op_fork_mode db oid mode =
     j_operations_update (sql_update (\<lambda>r. oc_op_id r = oid) (\<lambda>r. r\<lparr>oc_actual_fork_mode := mode\<rparr>)) db"

definition finish_op_done :: "journal \<Rightarrow> op_id \<Rightarrow> string \<Rightarrow> ms \<Rightarrow> journal" where
  "finish_op_done db oid degraded now =
     j_operations_update (sql_update (\<lambda>r. oc_op_id r = oid)
       (\<lambda>r. r\<lparr>oc_state := Op_Done, oc_degraded := degraded, oc_finished_at_ms := Some now,
               oc_executor_active := False\<rparr>)) db"

definition finish_op_failed ::
  "journal \<Rightarrow> op_id \<Rightarrow> error_reason \<Rightarrow> string \<Rightarrow> ms \<Rightarrow> journal" where
  "finish_op_failed db oid reason msg now =
     j_operations_update (sql_update (\<lambda>r. oc_op_id r = oid)
       (\<lambda>r. r\<lparr>oc_state := Op_Failed, oc_error_reason := reason, oc_error_message := msg,
               oc_finished_at_ms := Some now, oc_executor_active := False\<rparr>)) db"

section \<open>Guarded moves\<close>

text \<open>
  \<open>move_op\<close>: run the guarded \<open>UPDATE\<close>; a statement that matched no row is a
  refusal that names the state the row is in.
\<close>

definition move_op ::
  "journal \<Rightarrow> op_id \<Rightarrow> operation_state \<Rightarrow> (operations_row \<Rightarrow> bool)
   \<Rightarrow> (operations_row \<Rightarrow> operations_row) \<Rightarrow> journal_error + journal" where
  "move_op db oid to guard f =
     (if sql_changed (\<lambda>r. oc_op_id r = oid \<and> guard r) (j_operations db) = 1
      then Inr (j_operations_update (sql_update (\<lambda>r. oc_op_id r = oid \<and> guard r) f) db)
      else (case row_with oc_op_id oid (j_operations db) of
              Some r \<Rightarrow> Inl (OpCannotBecome oid (oc_state r) to)
            | None \<Rightarrow> Inl (OpAbsent oid to)))"

definition await_op_input :: "journal \<Rightarrow> op_id \<Rightarrow> string \<Rightarrow> journal_error + journal" where
  "await_op_input db oid prompt =
     move_op db oid Op_AwaitingInput (\<lambda>r. oc_state r \<in> set (ops_movable_to Op_AwaitingInput))
       (\<lambda>r. r\<lparr>oc_state := Op_AwaitingInput, oc_current_step := prompt\<rparr>)"

definition resume_op_from_input :: "journal \<Rightarrow> op_id \<Rightarrow> string \<Rightarrow> journal_error + journal" where
  "resume_op_from_input db oid step =
     move_op db oid Op_Running (\<lambda>r. oc_state r = Op_AwaitingInput)
       (\<lambda>r. r\<lparr>oc_state := Op_Running, oc_current_step := step\<rparr>)"

definition finish_op_canceled ::
  "journal \<Rightarrow> op_id \<Rightarrow> string \<Rightarrow> ms \<Rightarrow> journal_error + journal" where
  "finish_op_canceled db oid reason now =
     move_op db oid Op_Canceled (\<lambda>r. oc_state r \<in> set (ops_movable_to Op_Canceled))
       (\<lambda>r. r\<lparr>oc_state := Op_Canceled, oc_error_message := reason, oc_current_step := '''',
               oc_finished_at_ms := Some now,
               oc_executor_active :=
                 (if oc_state r = Op_AwaitingInput then False else oc_executor_active r)\<rparr>)"

section \<open>Crash recovery and opening\<close>

text \<open>The loop body is one \<open>UPDATE\<close> and one read; one instant stands for the loop's clock.\<close>

fun fail_each :: "journal \<Rightarrow> op_id list \<Rightarrow> string \<Rightarrow> ms \<Rightarrow> OperationRow list \<times> journal" where
  "fail_each db [] msg now = ([], db)"
| "fail_each db (oid # ids) msg now =
     (let db' = finish_op_failed db oid ER_Unspecified msg now;
          (rest, db'') = fail_each db' ids msg now
      in ((case get_operation db' oid of Some op \<Rightarrow> op # rest | None \<Rightarrow> rest), db''))"

definition fail_inflight_ops :: "journal \<Rightarrow> string \<Rightarrow> ms \<Rightarrow> OperationRow list \<times> journal" where
  "fail_inflight_ops db msg now =
     fail_each db (map oc_op_id (filter (\<lambda>r. oc_state r \<in> set in_flight_ops) (j_operations db))) msg now"

text \<open>\<open>Db::open\<close> on an existing file: no executor survived the process.\<close>

definition open_journal :: "journal \<Rightarrow> journal" where
  "open_journal db =
     j_operations_update (sql_update (\<lambda>_. True)
       (\<lambda>r. r\<lparr>oc_executor_active := (oc_state r \<in> set in_flight_ops)\<rparr>)) db"

section \<open>Finishing an operation\<close>

record finalized =
  fz_readiness_changed :: bool
  fz_outcome_recorded :: bool

text \<open>The four writes to the instance, in the order of the transaction.\<close>

definition finish_instance_writes ::
  "journal \<Rightarrow> instance_id \<Rightarrow> instance_state \<Rightarrow> ms option \<Rightarrow> stop_reason option \<Rightarrow> bool \<Rightarrow> ms
   \<Rightarrow> bool \<times> journal" where
  "finish_instance_writes db iid state ttl reason clear_ready now =
    (let me = (\<lambda>r. ic_instance_id r = iid);
         t1 = sql_update me (\<lambda>r. r\<lparr>ic_state := state, ic_updated_at_ms := now\<rparr>) (j_instances db);
         t2 = sql_update me (\<lambda>r. r\<lparr>ic_stop_requested := map_option rs_requested reason,
                ic_stop_exit_code := Option.bind reason rs_exit_code,
                ic_stop_detail := map_option rs_detail reason\<rparr>) t1;
         t3 = sql_update me (\<lambda>r. r\<lparr>ic_ttl_deadline_ms := ttl\<rparr>) t2;
         was_ready = (\<lambda>r. me r \<and> ic_ready r)
     in if clear_ready
        then (sql_changed was_ready t3 > 0,
              db\<lparr>j_instances := sql_update was_ready (\<lambda>r. r\<lparr>ic_ready := False\<rparr>) t3\<rparr>)
        else (False, db\<lparr>j_instances := t3\<rparr>))"

fun settle_op_row ::
  "ms \<Rightarrow> string \<Rightarrow> (error_reason \<times> string) + unit \<Rightarrow> operations_row \<Rightarrow> operations_row" where
  "settle_op_row now degraded (Inr _) r =
     r\<lparr>oc_state := Op_Done, oc_finished_at_ms := Some now, oc_current_step := '''',
       oc_degraded := degraded, oc_executor_active := False\<rparr>"
| "settle_op_row now degraded (Inl (reason, message)) r =
     r\<lparr>oc_state := Op_Failed, oc_finished_at_ms := Some now, oc_error_reason := reason,
       oc_error_message := message, oc_degraded := degraded, oc_executor_active := False\<rparr>"

definition finish_operation ::
  "journal \<Rightarrow> op_id \<Rightarrow> instance_id \<Rightarrow> instance_state \<Rightarrow> ms option \<Rightarrow> stop_reason option \<Rightarrow> bool
   \<Rightarrow> string \<Rightarrow> (error_reason \<times> string) + unit \<Rightarrow> ms \<Rightarrow> journal_error + (finalized \<times> journal)" where
  "finish_operation db oid iid state ttl reason clear_ready degraded outcome now =
    (let was = map_option ic_state (row_with ic_instance_id iid (j_instances db));
         (readiness_changed, db1) = finish_instance_writes db iid state ttl reason clear_ready now;
         mine = (\<lambda>r. oc_op_id r = oid \<and> oc_state r \<in> set in_flight_ops);
         finished = sql_changed mine (j_operations db1);
         db2 = j_operations_update (sql_update mine (settle_op_row now degraded outcome)) db1
     in if finished \<noteq> 1
        then (if map_option oc_state (row_with oc_op_id oid (j_operations db2)) \<noteq> Some Op_Canceled
              then Inl (NotFinishable oid)
              else if \<not> (case was of Some from \<Rightarrow> from = state \<or> can_transition from state
                                    | None \<Rightarrow> False)
              then Inl (CanceledMeasuredStateIllegal oid was state)
              else Inr (\<lparr>fz_readiness_changed = readiness_changed, fz_outcome_recorded = False\<rparr>,
                        j_operations_update (sql_update (\<lambda>r. oc_op_id r = oid)
                          (\<lambda>r. r\<lparr>oc_executor_active := False\<rparr>)) db2))
        else Inr (\<lparr>fz_readiness_changed = readiness_changed, fz_outcome_recorded = True\<rparr>, db2))"

text \<open>The part of the schema's invariant about the operation table, and a reported outcome.\<close>

definition operations_ok :: "operations_row list \<Rightarrow> bool" where
  "operations_ok t \<longleftrightarrow> unique_keys oc_op_id t \<and> unique_keys oc_idempotency_key t"

definition reported ::
  "operations_row \<Rightarrow> operation_state \<times> error_reason \<times> string \<times> string \<times> ms option" where
  "reported r = (oc_state r, oc_error_reason r, oc_error_message r, oc_degraded r, oc_finished_at_ms r)"

text \<open>One queued operation on the sample instance.\<close>

definition sample_op :: OperationRow where
  "sample_op = \<lparr>or_op_id = ''o1'', or_kind = ''stop'', or_instance_id = ''i1'', or_payload = ''grace_seconds=0'',
     or_state = Op_Queued, or_current_step = '''', or_error_reason = ER_Unspecified,
     or_error_message = '''', or_degraded = '''', or_created_at_ms = 3, or_finished_at_ms = None,
     or_froze_workload = False, or_actual_fork_mode = FM_Unspecified\<rparr>"

definition sample_ops_journal :: journal where
  "sample_ops_journal =
     (case insert_operation sample_journal sample_op ''k1'' of Inr db \<Rightarrow> db | Inl _ \<Rightarrow> sample_journal)"

lemmas operation_defs = set_op_step_def set_op_froze_workload_def set_op_fork_mode_def
  finish_op_done_def finish_op_failed_def open_journal_def

lemmas guarded_move_defs = await_op_input_def resume_op_from_input_def finish_op_canceled_def

section \<open>Keeping the schema and the claims\<close>

lemma schema_ok_operations: "schema_ok db \<Longrightarrow> operations_ok (j_operations db)"
  by (simp add: schema_ok_def operations_ok_def)

lemma schema_ok_with_operations:
  "schema_ok db \<Longrightarrow> operations_ok (f (j_operations db)) \<Longrightarrow> schema_ok (j_operations_update f db)"
  by (simp add: schema_ok_def operations_ok_def)

lemma operations_ok_sql_update:
  assumes "operations_ok t"
    and "\<And>r. oc_op_id (f r) = oc_op_id r" "\<And>r. oc_idempotency_key (f r) = oc_idempotency_key r"
  shows "operations_ok (sql_update p f t)"
  using assms by (simp add: operations_ok_def unique_keys_sql_update)

lemma operations_ok_snoc:
  "operations_ok (t @ [r]) \<longleftrightarrow> operations_ok t \<and> \<not> has_key oc_op_id (oc_op_id r) t
     \<and> \<not> has_key oc_idempotency_key (oc_idempotency_key r) t"
  by (auto simp: operations_ok_def unique_keys_snoc)

lemma settle_op_row_keys [simp]:
  "oc_op_id (settle_op_row now degraded outcome r) = oc_op_id r"
  "oc_idempotency_key (settle_op_row now degraded outcome r) = oc_idempotency_key r"
  "oc_instance_id (settle_op_row now degraded outcome r) = oc_instance_id r"
  "\<not> oc_executor_active (settle_op_row now degraded outcome r)"
  "\<not> op_is_in_flight (oc_state (settle_op_row now degraded outcome r))"
  by (cases outcome; auto split: prod.splits)+

lemma schema_ok_set_op_step [journal_intros]: "schema_ok db \<Longrightarrow> schema_ok (set_op_step db oid step)"
  and schema_ok_set_op_froze [journal_intros]: "schema_ok db \<Longrightarrow> schema_ok (set_op_froze_workload db oid)"
  and schema_ok_set_op_fork_mode [journal_intros]: "schema_ok db \<Longrightarrow> schema_ok (set_op_fork_mode db oid mode)"
  and schema_ok_finish_op_failed [journal_intros]:
    "schema_ok db \<Longrightarrow> schema_ok (finish_op_failed db oid reason msg now)"
  and schema_ok_open_journal [journal_intros]: "schema_ok db \<Longrightarrow> schema_ok (open_journal db)"
  unfolding operation_defs
  by (auto intro!: schema_ok_with_operations operations_ok_sql_update schema_ok_operations)

lemma claims_ok_set_op_step [journal_intros]:
  "claims_ok (j_operations db) \<Longrightarrow> claims_ok (j_operations (set_op_step db oid step))"
  by (auto simp: operation_defs intro!: claims_ok_sql_update)

lemma claims_ok_set_op_froze [journal_intros]:
  "claims_ok (j_operations db) \<Longrightarrow> claims_ok (j_operations (set_op_froze_workload db oid))"
  by (auto simp: operation_defs intro!: claims_ok_sql_update)

lemma claims_ok_set_op_fork_mode [journal_intros]:
  "claims_ok (j_operations db) \<Longrightarrow> claims_ok (j_operations (set_op_fork_mode db oid mode))"
  by (auto simp: operation_defs intro!: claims_ok_sql_update)

lemma claims_ok_finish_op_failed [journal_intros]:
  "claims_ok (j_operations db) \<Longrightarrow> claims_ok (j_operations (finish_op_failed db oid reason msg now))"
  by (auto simp: operation_defs intro!: claims_ok_sql_update)

lemma move_op_Inr_iff:
  "move_op db oid to guard f = Inr db' \<longleftrightarrow>
     sql_changed (\<lambda>r. oc_op_id r = oid \<and> guard r) (j_operations db) = 1
     \<and> db' = j_operations_update (sql_update (\<lambda>r. oc_op_id r = oid \<and> guard r) f) db"
  by (auto simp: move_op_def split: option.splits)

lemma schema_ok_move_op:
  assumes "schema_ok db" and "move_op db oid to guard f = Inr db'"
    and "\<And>r. oc_op_id (f r) = oc_op_id r" "\<And>r. oc_idempotency_key (f r) = oc_idempotency_key r"
  shows "schema_ok db'"
  using assms by (auto simp: move_op_Inr_iff
      intro!: schema_ok_with_operations operations_ok_sql_update schema_ok_operations)

lemma schema_ok_await_op_input [journal_intros]:
  "schema_ok db \<Longrightarrow> await_op_input db oid prompt = Inr db' \<Longrightarrow> schema_ok db'"
  unfolding await_op_input_def by (erule schema_ok_move_op, assumption) simp_all

lemma schema_ok_resume_op_from_input [journal_intros]:
  "schema_ok db \<Longrightarrow> resume_op_from_input db oid step = Inr db' \<Longrightarrow> schema_ok db'"
  unfolding resume_op_from_input_def by (erule schema_ok_move_op, assumption) simp_all

lemma schema_ok_finish_op_canceled [journal_intros]:
  "schema_ok db \<Longrightarrow> finish_op_canceled db oid reason now = Inr db' \<Longrightarrow> schema_ok db'"
  unfolding finish_op_canceled_def by (erule schema_ok_move_op, assumption) simp_all

lemma claims_ok_await_op_input [journal_intros]:
  "claims_ok (j_operations db) \<Longrightarrow> await_op_input db oid prompt = Inr db' \<Longrightarrow> claims_ok (j_operations db')"
  by (auto simp: guarded_move_defs move_op_Inr_iff state_machine_defs
      intro!: claims_ok_sql_update split: if_splits)

lemma claims_ok_resume_op_from_input [journal_intros]:
  "claims_ok (j_operations db) \<Longrightarrow> resume_op_from_input db oid step = Inr db'
   \<Longrightarrow> claims_ok (j_operations db')"
  by (auto simp: guarded_move_defs move_op_Inr_iff intro!: claims_ok_sql_update)

lemma claims_ok_finish_op_canceled [journal_intros]:
  "claims_ok (j_operations db) \<Longrightarrow> finish_op_canceled db oid reason now = Inr db'
   \<Longrightarrow> claims_ok (j_operations db')"
  by (auto simp: guarded_move_defs move_op_Inr_iff intro!: claims_ok_sql_update split: if_splits)

text \<open>Opening recomputes every claim from the state, so it keeps the claims of a sound journal.\<close>

lemma claims_ok_open_journal [journal_intros]:
  assumes "claims_ok (j_operations db)"
  shows "claims_ok (j_operations (open_journal db))"
proof -
  let ?f = "\<lambda>r. r\<lparr>oc_executor_active := oc_state r \<in> set in_flight_ops\<rparr>"
  have "sql_update (\<lambda>_. True) ?f (j_operations db)
        = sql_update (\<lambda>r. op_is_in_flight (oc_state r) \<longrightarrow> oc_executor_active r) ?f (j_operations db)"
    using assms unfolding sql_update_def claims_ok_def by (intro map_cong) simp_all
  moreover have "claims_ok (sql_update (\<lambda>r. op_is_in_flight (oc_state r) \<longrightarrow> oc_executor_active r) ?f
                   (j_operations db))"
    by (rule claims_ok_sql_update [OF assms]) simp_all
  ultimately show ?thesis by (simp add: open_journal_def)
qed

section \<open>Crash recovery's sweep\<close>

lemma sql_update_two:
  assumes "\<And>r. f (f r) = f r" and "\<And>r. key (f r) = key r"
  shows "sql_update (\<lambda>r. key r \<in> B) f (sql_update (\<lambda>r. key r = a) f t)
         = sql_update (\<lambda>r. key r \<in> insert a B) f t"
  by (induction t) (simp_all add: assms)

lemma fail_each_operations:
  "j_operations (snd (fail_each db ids msg now)) =
     sql_update (\<lambda>r. oc_op_id r \<in> set ids)
       (\<lambda>r. r\<lparr>oc_state := Op_Failed, oc_error_reason := ER_Unspecified, oc_error_message := msg,
              oc_finished_at_ms := Some now, oc_executor_active := False\<rparr>) (j_operations db)"
proof (induction ids arbitrary: db)
  case Nil
  show ?case by (simp add: sql_update_def)
next
  case (Cons a ids)
  thus ?case
    by (simp add: Let_def split_beta finish_op_failed_def sql_update_two)
qed

lemma fail_each_other:
  "j_operations_update (\<lambda>_. j_operations db) (snd (fail_each db ids msg now)) = db"
proof (induction ids arbitrary: db)
  case (Cons a ids)
  let ?db' = "finish_op_failed db a ER_Unspecified msg now"
  have "j_operations_update (\<lambda>_. j_operations db)
          (j_operations_update (\<lambda>_. j_operations ?db') (snd (fail_each ?db' ids msg now))) = db"
    by (simp only: Cons.IH) (simp add: finish_op_failed_def)
  thus ?case by (simp add: Let_def split_beta)
qed simp

lemma journal_operations_eqI:
  "j_operations_update (\<lambda>_. j_operations db) d = db \<Longrightarrow> j_operations d = f (j_operations db)
   \<Longrightarrow> d = j_operations_update f db"
  by (cases d; cases db) simp

lemma fail_inflight_operations:
  assumes "schema_ok db"
  shows "snd (fail_inflight_ops db msg now) =
     j_operations_update (sql_update (\<lambda>r. op_is_in_flight (oc_state r))
       (\<lambda>r. r\<lparr>oc_state := Op_Failed, oc_error_reason := ER_Unspecified, oc_error_message := msg,
              oc_finished_at_ms := Some now, oc_executor_active := False\<rparr>)) db"
proof -
  let ?ids = "map oc_op_id (filter (\<lambda>r. oc_state r \<in> set in_flight_ops) (j_operations db))"
  have uniq: "inj_on oc_op_id (set (j_operations db))"
    using assms by (simp add: schema_ok_def unique_keys_def distinct_map)
  have "sql_update (\<lambda>r. oc_op_id r \<in> set ?ids) f (j_operations db)
        = sql_update (\<lambda>r. op_is_in_flight (oc_state r)) f (j_operations db)" for f
    unfolding sql_update_def by (rule map_cong) (auto dest: inj_onD [OF uniq])
  hence ops: "j_operations (snd (fail_inflight_ops db msg now)) =
     sql_update (\<lambda>r. op_is_in_flight (oc_state r))
       (\<lambda>r. r\<lparr>oc_state := Op_Failed, oc_error_reason := ER_Unspecified, oc_error_message := msg,
              oc_finished_at_ms := Some now, oc_executor_active := False\<rparr>) (j_operations db)"
    by (simp add: fail_inflight_ops_def fail_each_operations)
  have rest: "j_operations_update (\<lambda>_. j_operations db) (snd (fail_inflight_ops db msg now)) = db"
    by (simp only: fail_inflight_ops_def fail_each_other)
  show ?thesis by (rule journal_operations_eqI) (fact rest, fact ops)
qed

lemma schema_ok_fail_inflight_ops [journal_intros]:
  "schema_ok db \<Longrightarrow> schema_ok (snd (fail_inflight_ops db msg now))"
  by (simp add: fail_inflight_operations)
    (auto intro!: schema_ok_with_operations operations_ok_sql_update schema_ok_operations)

lemma claims_ok_fail_inflight_ops [journal_intros]:
  "schema_ok db \<Longrightarrow> claims_ok (j_operations db)
   \<Longrightarrow> claims_ok (j_operations (snd (fail_inflight_ops db msg now)))"
  by (simp add: fail_inflight_operations) (rule claims_ok_sql_update, simp_all)

section \<open>Finishing: the instance half\<close>

lemma finish_instance_writes_row:
  "row_with ic_instance_id k (j_instances (snd (finish_instance_writes db iid state ttl reason clear now)))
   = map_option (\<lambda>r. if ic_instance_id r = iid
        then r\<lparr>ic_state := state, ic_updated_at_ms := now,
               ic_stop_requested := map_option rs_requested reason,
               ic_stop_exit_code := Option.bind reason rs_exit_code,
               ic_stop_detail := map_option rs_detail reason,
               ic_ttl_deadline_ms := ttl, ic_ready := (ic_ready r \<and> \<not> clear)\<rparr> else r)
       (row_with ic_instance_id k (j_instances db))"
  by (cases "row_with ic_instance_id k (j_instances db)")
    (simp_all add: finish_instance_writes_def Let_def row_with_sql_update)

lemma finish_instance_writes_frame [simp]:
  "j_operations (snd (finish_instance_writes db iid state ttl reason clear now)) = j_operations db"
  "j_instances_update (\<lambda>_. t) (snd (finish_instance_writes db iid state ttl reason clear now))
   = j_instances_update (\<lambda>_. t) db"
  by (simp_all add: finish_instance_writes_def Let_def)

lemma stop_reason_roundtrip [simp]:
  "stop_reason_from (map_option rs_requested reason) (Option.bind reason rs_exit_code)
     (map_option rs_detail reason) = reason"
  by (cases reason) (simp_all add: stop_reason_from_def)

lemma finish_instance_writes_get:
  "get_instance (snd (finish_instance_writes db iid state ttl reason clear now)) k =
     (if k = iid then map_option (\<lambda>i. i\<lparr>ir_state := state, ir_updated_at_ms := now,
            ir_ttl_deadline_ms := ttl, ir_stop_reason := reason,
            ir_ready := (ir_ready i \<and> \<not> clear)\<rparr>) (get_instance db iid)
      else get_instance db k)"
proof (cases "row_with ic_instance_id k (j_instances db)")
  case None
  thus ?thesis by (auto simp: get_instance_def finish_instance_writes_row)
next
  case (Some r)
  thus ?thesis using row_with_Some_key [OF Some]
    by (cases "k = iid") (simp_all add: get_instance_def finish_instance_writes_row
        instance_row_from_def identity_from_def lineage_from_def)
qed

lemma finish_instance_writes_schema:
  "schema_ok db \<Longrightarrow> schema_ok (snd (finish_instance_writes db iid state ttl reason clear now))"
  unfolding finish_instance_writes_def Let_def
  by (auto intro!: schema_ok_with_instances instances_ok_sql_update schema_ok_instances)

text \<open>The finalize as a case distinction on the operation's row.\<close>

lemma finish_operation_cases:
  assumes "schema_ok db"
  shows "finish_operation db oid iid state ttl reason clear degraded outcome now =
    (let ready = fst (finish_instance_writes db iid state ttl reason clear now);
         db1 = snd (finish_instance_writes db iid state ttl reason clear now);
         was = map_option ic_state (row_with ic_instance_id iid (j_instances db));
         mine = (\<lambda>r. oc_op_id r = oid \<and> op_is_in_flight (oc_state r))
     in case row_with oc_op_id oid (j_operations db) of
          None \<Rightarrow> Inl (NotFinishable oid)
        | Some op \<Rightarrow>
            if op_is_in_flight (oc_state op)
            then Inr (\<lparr>fz_readiness_changed = ready, fz_outcome_recorded = True\<rparr>,
                      j_operations_update (sql_update mine (settle_op_row now degraded outcome)) db1)
            else if oc_state op \<noteq> Op_Canceled then Inl (NotFinishable oid)
            else if (case was of Some from \<Rightarrow> from = state \<or> can_transition from state | None \<Rightarrow> False)
            then Inr (\<lparr>fz_readiness_changed = ready, fz_outcome_recorded = False\<rparr>,
                      j_operations_update (sql_update (\<lambda>r. oc_op_id r = oid)
                          (\<lambda>r. r\<lparr>oc_executor_active := False\<rparr>)) db1)
            else Inl (CanceledMeasuredStateIllegal oid was state))"
proof -
  let ?mine = "\<lambda>r. oc_op_id r = oid \<and> op_is_in_flight (oc_state r)"
  let ?db1 = "snd (finish_instance_writes db iid state ttl reason clear now)"
  have uniq: "unique_keys oc_op_id (j_operations db)" using assms by (simp add: schema_ok_def)
  have n: "sql_changed ?mine (j_operations db)
           = (case row_with oc_op_id oid (j_operations db) of
                Some r \<Rightarrow> if op_is_in_flight (oc_state r) then 1 else 0 | None \<Rightarrow> 0)"
    by (rule sql_changed_key_row [OF uniq])
  have idle: "j_operations_update (sql_update ?mine f) ?db1 = ?db1"
    if "sql_changed ?mine (j_operations db) = 0" for f
    using sql_update_none [OF that] by (cases ?db1) (metis finish_instance_writes_frame(1)
        journal.select_convs(2) journal.update_convs(2))
  show ?thesis
  proof (cases "row_with oc_op_id oid (j_operations db)")
    case None
    thus ?thesis using n idle
      by (simp add: finish_operation_def Let_def split_beta row_with_sql_update)
  next
    case (Some op)
    thus ?thesis using n idle
      by (simp add: finish_operation_def Let_def split_beta row_with_sql_update)
  qed
qed

lemma schema_ok_finish_operation [journal_intros]:
  assumes "schema_ok db"
    and "finish_operation db oid iid state ttl reason clear degraded outcome now = Inr (fz, db')"
  shows "schema_ok db'"
  using assms(2) finish_instance_writes_schema [OF assms(1), of iid state ttl reason clear now]
  unfolding finish_operation_cases [OF assms(1)] Let_def
  by (auto split: option.splits if_splits
      intro!: schema_ok_with_operations operations_ok_sql_update dest: schema_ok_operations)

lemma claims_ok_release:
  assumes "schema_ok db" "claims_ok (j_operations db)"
    and "row_with oc_op_id oid (j_operations db) = Some op" "\<not> op_is_in_flight (oc_state op)"
  shows "claims_ok (sql_update (\<lambda>r. oc_op_id r = oid) (\<lambda>r. r\<lparr>oc_executor_active := False\<rparr>)
           (j_operations db))"
proof -
  have "unique_keys oc_op_id (j_operations db)" using assms(1) by (simp add: schema_ok_def)
  from sql_update_key_only [OF this assms(3), of "\<lambda>r. \<not> op_is_in_flight (oc_state r)", OF assms(4)]
  show ?thesis using assms(2) by (auto intro: claims_ok_sql_update)
qed

lemma claims_ok_finish_operation [journal_intros]:
  assumes "schema_ok db" "claims_ok (j_operations db)"
    and "finish_operation db oid iid state ttl reason clear degraded outcome now = Inr (fz, db')"
  shows "claims_ok (j_operations db')"
proof -
  have "claims_ok (sql_update p (settle_op_row now degraded outcome) (j_operations db))" for p
    by (rule claims_ok_sql_update [OF assms(2)]) simp_all
  thus ?thesis
    using assms(3) claims_ok_release [OF assms(1,2), of oid]
    unfolding finish_operation_cases [OF assms(1)] Let_def
    by (auto split: option.splits if_splits)
qed

lemma schema_ok_insert_operation [journal_intros]:
  "schema_ok db \<Longrightarrow> insert_operation db op key = Inr db' \<Longrightarrow> schema_ok db'"
  by (auto simp: insert_operation_def operations_ok_snoc operation_insert_def
      intro!: schema_ok_with_operations schema_ok_operations split: if_splits)

lemma sample_ops_journal_ok: "schema_ok sample_ops_journal"
  using sample_journal_ok schema_ok_insert_operation [OF sample_journal_ok, of sample_op "''k1''"]
  by (auto simp: sample_ops_journal_def split: sum.splits)

lemmas sample_ops_simps = sample_ops_journal_def sample_op_def insert_operation_def
  operation_insert_def get_operation_def operation_row_from_def sample_simps

section \<open>Guarantees\<close>

lemma move_op_row:
  assumes "schema_ok db" and "\<And>r. oc_op_id (f r) = oc_op_id r"
  shows "move_op db oid to guard f =
     (case row_with oc_op_id oid (j_operations db) of
        None \<Rightarrow> Inl (OpAbsent oid to)
      | Some op \<Rightarrow> if guard op
          then Inr (j_operations_update (sql_update (\<lambda>r. oc_op_id r = oid \<and> guard r) f) db)
          else Inl (OpCannotBecome oid (oc_state op) to))"
  using assms(1) sql_changed_key_row [of oc_op_id "j_operations db" oid guard]
  by (auto simp: move_op_def schema_ok_def split: option.splits)

text \<open>
  The moves a caller makes on somebody else's operation are refused exactly
  when the operation machine forbids them: parking needs a running operation,
  delivering input needs one that is waiting, cancelling needs one in flight.  A
  refusal names the state the operation is in; no refused move writes anything.
\<close>

theorem guarded_moves_exact:
  assumes "schema_ok db" and "get_operation db oid = Some op"
  shows "(await_op_input db oid prompt = Inl (OpCannotBecome oid (or_state op) Op_AwaitingInput)
            \<longleftrightarrow> or_state op \<noteq> Op_Running)
       \<and> (resume_op_from_input db oid step = Inl (OpCannotBecome oid (or_state op) Op_Running)
            \<longleftrightarrow> or_state op \<noteq> Op_AwaitingInput)
       \<and> (finish_op_canceled db oid why now = Inl (OpCannotBecome oid (or_state op) Op_Canceled)
            \<longleftrightarrow> \<not> op_is_in_flight (or_state op))
       \<and> (op_is_in_flight (or_state op) \<longrightarrow>
            (\<exists>db' op'. finish_op_canceled db oid why now = Inr db' \<and> get_operation db' oid = Some op'
               \<and> or_state op' = Op_Canceled \<and> or_error_message op' = why
               \<and> or_finished_at_ms op' = Some now \<and> po_error (op_to_proto op') = None))"
proof -
  obtain r where r: "row_with oc_op_id oid (j_operations db) = Some r" "op = operation_row_from r"
    using assms(2) by (auto simp: get_operation_def)
  have st: "or_state op = oc_state r" by (simp add: r(2) operation_row_from_def)
  have park: "op_can_transition (oc_state r) Op_AwaitingInput \<longleftrightarrow> oc_state r = Op_Running"
    by (cases "oc_state r") (simp_all add: state_machine_defs)
  have cancel: "op_can_transition (oc_state r) Op_Canceled \<longleftrightarrow> op_is_in_flight (oc_state r)"
    by (cases "oc_state r") (simp_all add: state_machine_defs)
  show ?thesis
    using r(1) row_with_Some_key [OF r(1)]
    by (simp add: guarded_move_defs move_op_row [OF assms(1)] st park cancel get_operation_def
        row_with_sql_update operation_row_from_def op_to_proto_def)
qed

theorem guarded_moves_exact_witness:
  "\<exists>db' op'. finish_op_canceled sample_ops_journal ''o1'' ''enough'' 8 = Inr db'
      \<and> get_operation db' ''o1'' = Some op' \<and> or_state op' = Op_Canceled
      \<and> or_error_message op' = ''enough'' \<and> or_finished_at_ms op' = Some 8
      \<and> po_error (op_to_proto op') = None"
proof -
  have "get_operation sample_ops_journal ''o1'' = Some sample_op"
    by (simp add: sample_ops_simps)
  from guarded_moves_exact [OF sample_ops_journal_ok this, of _ _ "''enough''" 8]
  show ?thesis by (simp add: sample_op_def)
qed

text \<open>
  C3: \<open>finish_operation\<close> is all or nothing, and a cancellation is never
  overwritten.  If it returns a journal, the operation's claim is released and the
  instance has the measured state, deadline and stop reason; the operation's own
  outcome is written exactly when it was still in flight, and otherwise the
  operation was cancelled, its report is untouched, and the instance moved along a
  legal edge or not at all.  It refuses exactly when the operation is absent, has
  already succeeded or failed, or was cancelled while its instance can no longer
  legally take the measured state.
\<close>

theorem finish_operation_all_or_nothing:
  assumes "schema_ok db"
  shows "case finish_operation db oid iid state ttl reason clear degraded outcome now of
     Inl _ \<Rightarrow>
       (\<forall>op. get_operation db oid = Some op \<longrightarrow> \<not> op_is_in_flight (or_state op)
          \<and> (or_state op = Op_Canceled \<longrightarrow>
               (\<forall>i. get_instance db iid = Some i \<longrightarrow>
                  ir_state i \<noteq> state \<and> \<not> can_transition (ir_state i) state)))
   | Inr (fz, db') \<Rightarrow>
       (\<exists>op op'. row_with oc_op_id oid (j_operations db) = Some op
          \<and> row_with oc_op_id oid (j_operations db') = Some op' \<and> \<not> oc_executor_active op'
          \<and> fz_outcome_recorded fz = op_is_in_flight (oc_state op)
          \<and> (fz_outcome_recorded fz \<longrightarrow> op' = settle_op_row now degraded outcome op)
          \<and> (\<not> fz_outcome_recorded fz \<longrightarrow>
               oc_state op = Op_Canceled \<and> reported op' = reported op
               \<and> (\<exists>i. get_instance db iid = Some i
                      \<and> (ir_state i = state \<or> can_transition (ir_state i) state))))
       \<and> (\<forall>k. k \<noteq> oid \<longrightarrow> get_operation db' k = get_operation db k)
       \<and> get_instance db' iid = map_option (\<lambda>i. i\<lparr>ir_state := state, ir_updated_at_ms := now,
            ir_ttl_deadline_ms := ttl, ir_stop_reason := reason,
            ir_ready := (ir_ready i \<and> \<not> clear)\<rparr>) (get_instance db iid)
       \<and> (\<forall>k. k \<noteq> iid \<longrightarrow> get_instance db' k = get_instance db k)"
proof -
  let ?F = "finish_operation db oid iid state ttl reason clear degraded outcome now"
  let ?db1 = "snd (finish_instance_writes db iid state ttl reason clear now)"
  have inst: "get_instance (j_operations_update f ?db1) k = get_instance ?db1 k" for f k
    by (simp add: get_instance_def)
  have others: "get_operation (j_operations_update (sql_update p g) ?db1) k = get_operation db k"
    if "k \<noteq> oid" "\<And>r. p r \<Longrightarrow> oc_op_id r = oid" "\<And>r. oc_op_id (g r) = oc_op_id r" for k p g
    using that row_with_Some_key [of oc_op_id k "j_operations db"]
    by (cases "row_with oc_op_id k (j_operations db)")
      (auto simp: get_operation_def row_with_sql_update)
  have settled: "\<forall>k. k \<noteq> oid \<longrightarrow> get_operation (j_operations_update
      (sql_update (\<lambda>r. oc_op_id r = oid \<and> op_is_in_flight (oc_state r))
        (settle_op_row now degraded outcome)) ?db1) k = get_operation db k"
    by (intro allI impI others) simp_all
  have released: "\<forall>k. k \<noteq> oid \<longrightarrow> get_operation (j_operations_update
      (sql_update (\<lambda>r. oc_op_id r = oid) (\<lambda>r. r\<lparr>oc_executor_active := False\<rparr>)) ?db1) k
      = get_operation db k"
    by (intro allI impI others) simp_all
  show ?thesis
  proof (cases "row_with oc_op_id oid (j_operations db)")
    case None
    thus ?thesis by (simp add: finish_operation_cases [OF assms] Let_def get_operation_def)
  next
    case (Some op)
    note key = row_with_Some_key [OF Some]
    show ?thesis
    proof (cases "op_is_in_flight (oc_state op)")
      case True
      thus ?thesis using Some key
        by (simp add: finish_operation_cases [OF assms] Let_def inst settled
            finish_instance_writes_get row_with_sql_update)
    next
      case False
      thus ?thesis using Some key
        by (simp add: finish_operation_cases [OF assms] Let_def inst released
            finish_instance_writes_get row_with_sql_update reported_def)
          (auto simp: get_operation_def operation_row_from_def get_instance_def
            instance_row_from_def split: option.splits)
    qed
  qed
qed

theorem finish_operation_all_or_nothing_witness:
  "case finish_operation sample_ops_journal ''o1'' ''i1'' I_Stopped None None True '''' (Inr ()) 8 of
     Inl _ \<Rightarrow> False
   | Inr (fz, db') \<Rightarrow> map_option ir_state (get_instance db' ''i1'') = Some I_Stopped"
proof -
  have "get_operation sample_ops_journal ''o1'' = Some sample_op"
    and "\<exists>i. get_instance sample_ops_journal ''i1'' = Some i"
    by (simp_all add: sample_ops_simps)
  thus ?thesis
    using finish_operation_all_or_nothing [OF sample_ops_journal_ok,
        where oid = "''o1''" and iid = "''i1''" and state = I_Stopped and ttl = None and reason = None
          and clear = True and degraded = "''''" and outcome = "Inr ()" and now = 8]
    by (auto simp: sample_op_def split: sum.splits)
qed

end
