(* ===== verification/Journal_Submit.thy ===== *)
theory Journal_Submit
  imports Journal_Operations
begin

text \<open>
  \<open>db.rs\<close>, \<open>submit_atomically\<close>: the checks and the writes of a submission as one
  transaction.  Identity minting (\<open>rcgen\<close>) is a parameter, called only on the path
  that creates an instance; a failure of it aborts the transaction.  The clock is
  read twice, once when a deadline is claimed and once for the rows written.
\<close>

section \<open>Outcomes\<close>

datatype rejection =
    AlreadyExists instance_id
  | DoesNotExist instance_id
  | IllegalTransition instance_state instance_state

datatype submission =
    Journaled instance_state
  | Replay OperationRow
  | Conflict
  | Rejected rejection
  | ClaimSuperseded

section \<open>The row a create writes\<close>

definition created_row ::
  "instance_spec \<Rightarrow> string \<Rightarrow> string \<Rightarrow> identity option \<Rightarrow> lineage option \<Rightarrow> ms \<Rightarrow> instances_row" where
  "created_row spec runtime guest_token idn lin now =
     \<lparr>ic_instance_id = sp_instance_id spec, ic_spec = spec, ic_state = I_Creating,
      ic_ready = False, ic_runtime = runtime, ic_created_at_ms = now, ic_updated_at_ms = now,
      ic_ttl_deadline_ms = None, ic_latest_snapshot_id = '''', ic_guest_token = guest_token,
      ic_guest_anchor = (case idn of Some i \<Rightarrow> idn_anchor i | None \<Rightarrow> []),
      ic_guest_cert = (case idn of Some i \<Rightarrow> idn_guest_cert i | None \<Rightarrow> []),
      ic_guest_key = (case idn of Some i \<Rightarrow> idn_guest_key i | None \<Rightarrow> []),
      ic_host_cert = (case idn of Some i \<Rightarrow> idn_host_cert i | None \<Rightarrow> []),
      ic_host_key = (case idn of Some i \<Rightarrow> idn_host_key i | None \<Rightarrow> []),
      ic_wake_at_ms = None, ic_stop_requested = None, ic_stop_exit_code = None,
      ic_stop_detail = None, ic_run_epoch_ms = None,
      ic_lineage_id = (case lin of Some l \<Rightarrow> ln_lineage_id l | None \<Rightarrow> ''''),
      ic_source_snapshot_id = (case lin of Some l \<Rightarrow> ln_source_snapshot_id l | None \<Rightarrow> ''''),
      ic_source_capsule_id = (case lin of Some l \<Rightarrow> ln_source_capsule_id l | None \<Rightarrow> ''''),
      ic_parent_instance_id = (case lin of Some l \<Rightarrow> ln_parent_instance_id l | None \<Rightarrow> ''''),
      ic_execution_epoch = 0\<rparr>"

section \<open>The transaction\<close>

text \<open>What the instance row will say while the operation runs, or why it may not run.\<close>

definition submit_recorded ::
  "journal \<Rightarrow> OperationRow \<Rightarrow> instance_state \<Rightarrow> instance_spec option
   \<Rightarrow> (instance_state \<Rightarrow> instance_state option) \<Rightarrow> rejection + instance_state" where
  "submit_recorded db op transitional create_spec plan =
    (case (create_spec, map_option ic_state (row_with ic_instance_id (or_instance_id op) (j_instances db))) of
       (Some _, Some _) \<Rightarrow> Inl (AlreadyExists (or_instance_id op))
     | (Some _, None) \<Rightarrow> Inr transitional
     | (None, None) \<Rightarrow> Inl (DoesNotExist (or_instance_id op))
     | (None, Some from) \<Rightarrow>
         (case plan from of
            Some recorded \<Rightarrow> Inr recorded
          | None \<Rightarrow> Inl (IllegalTransition from transitional)))"

text \<open>The writes, after every check has passed.\<close>

definition submit_writes ::
  "journal \<Rightarrow> OperationRow \<Rightarrow> idempotency_key \<Rightarrow> instance_state \<Rightarrow> instance_spec option \<Rightarrow> string
   \<Rightarrow> string \<Rightarrow> (instance_id \<Rightarrow> string + identity option) \<Rightarrow> lineage option \<Rightarrow> ms
   \<Rightarrow> journal_error + journal" where
  "submit_writes db op key recorded create_spec runtime guest_token mint lin now =
    (case insert_operation db op key of
       Inl e \<Rightarrow> Inl e
     | Inr db1 \<Rightarrow>
         (case create_spec of
            Some spec \<Rightarrow>
              (case mint (sp_instance_id spec) of
                 Inl e \<Rightarrow> Inl (MintFailed e)
               | Inr idn \<Rightarrow>
                   if has_key ic_instance_id (sp_instance_id spec) (j_instances db1)
                   then Inl ConstraintViolation
                   else Inr (j_instances_update
                          (\<lambda>t. t @ [created_row spec runtime guest_token idn lin now]) db1))
          | None \<Rightarrow>
              Inr (j_instances_update
                     (sql_update (\<lambda>r. ic_instance_id r = or_instance_id op)
                        (\<lambda>r. r\<lparr>ic_state := recorded, ic_updated_at_ms := now\<rparr>)) db1)))"

definition submit_atomically ::
  "journal \<Rightarrow> OperationRow \<Rightarrow> idempotency_key \<Rightarrow> instance_state \<Rightarrow> instance_spec option \<Rightarrow> string
   \<Rightarrow> string \<Rightarrow> (instance_id \<Rightarrow> string + identity option) \<Rightarrow> claim option \<Rightarrow> lineage option
   \<Rightarrow> (instance_state \<Rightarrow> instance_state option) \<Rightarrow> ms \<Rightarrow> ms
   \<Rightarrow> journal_error + (submission \<times> journal)" where
  "submit_atomically db op key transitional create_spec runtime guest_token mint claim lin plan
      now_claim now =
    (case row_with oc_idempotency_key key (j_operations db) of
       Some r \<Rightarrow>
         (case get_operation db (oc_op_id r) of
            Some original \<Rightarrow> Inr (Replay original, db)
          | None \<Rightarrow> Inr (Conflict, db))
     | None \<Rightarrow>
         if has_inflight_op db (or_instance_id op) then Inr (Conflict, db)
         else
           (case submit_recorded db op transitional create_spec plan of
              Inl why \<Rightarrow> Inr (Rejected why, db)
            | Inr recorded \<Rightarrow>
                (case (case claim of
                         None \<Rightarrow> (True, db)
                       | Some c \<Rightarrow> take_deadline db (or_instance_id op) c now_claim) of
                   (False, _) \<Rightarrow> Inr (ClaimSuperseded, db)
                 | (True, db1) \<Rightarrow>
                     (case submit_writes db1 op key recorded create_spec runtime guest_token mint lin now of
                        Inl e \<Rightarrow> Inl e
                      | Inr db2 \<Rightarrow> Inr (Journaled recorded, db2)))))"

text \<open>The two deadlines of an instance row.\<close>

fun deadline_of :: "claim \<Rightarrow> InstanceRow \<Rightarrow> ms option" where
  "deadline_of (TtlExpiry _) i = ir_ttl_deadline_ms i"
| "deadline_of (Wake _) i = ir_wake_at_ms i"

section \<open>Shape of a submission\<close>

lemma take_deadline_frame:
  "j_operations (snd (take_deadline db iid c now)) = j_operations db"
  by (cases c) (simp_all add: take_deadline_def)

lemma take_deadline_ids [simp]:
  "has_key ic_instance_id k (j_instances (snd (take_deadline db iid c now)))
   = has_key ic_instance_id k (j_instances db)"
  by (cases c) (simp_all add: take_deadline_def)

lemma has_inflight_op_iff:
  "has_inflight_op db iid \<longleftrightarrow>
     (\<exists>r \<in> set (j_operations db). oc_instance_id r = iid \<and> oc_executor_active r)"
  by (auto simp: has_inflight_op_def sql_changed_def filter_empty_conv)

lemma insert_operation_Inr:
  "insert_operation db op key = Inr db' \<Longrightarrow>
     db' = j_operations_update (\<lambda>t. t @ [operation_insert op key]) db
   \<and> \<not> has_key oc_op_id (or_op_id op) (j_operations db)"
  by (auto simp: insert_operation_def split: if_splits)

lemma submit_writes_Inr:
  assumes "submit_writes db op key recorded create_spec runtime tok mint lin now = Inr db'"
  shows "j_operations db' = j_operations db @ [operation_insert op key]
       \<and> \<not> has_key oc_op_id (or_op_id op) (j_operations db)
       \<and> \<not> has_key oc_idempotency_key key (j_operations db)
       \<and> (case create_spec of
            None \<Rightarrow> j_instances db' = sql_update (\<lambda>r. ic_instance_id r = or_instance_id op)
                      (\<lambda>r. r\<lparr>ic_state := recorded, ic_updated_at_ms := now\<rparr>) (j_instances db)
          | Some spec \<Rightarrow> \<not> has_key ic_instance_id (sp_instance_id spec) (j_instances db)
              \<and> (\<exists>idn. mint (sp_instance_id spec) = Inr idn
                  \<and> j_instances db' = j_instances db @ [created_row spec runtime tok idn lin now]))"
  using assms
  by (auto simp: submit_writes_def insert_operation_def split: sum.splits option.splits if_splits)

lemma submit_writes_schema:
  assumes "schema_ok db"
    and "submit_writes db op key recorded create_spec runtime tok mint lin now = Inr db'"
  shows "schema_ok db'"
  using assms schema_ok_insert_operation [OF assms(1), of op key]
  by (auto simp: submit_writes_def created_row_def instances_ok_snoc
      intro!: schema_ok_with_instances instances_ok_sql_update dest: schema_ok_instances
      split: sum.splits option.splits if_splits)

text \<open>Every way a submission can end, as elimination on its result.\<close>

lemma submit_atomically_Inr:
  assumes "submit_atomically db op key transitional create_spec runtime tok mint claim lin plan
             now_claim now = Inr (res, db')"
  obtains (unchanged) "db' = db" "\<And>st. res \<noteq> Journaled st"
  | (journaled) recorded db1 where
      "res = Journaled recorded"
      "row_with oc_idempotency_key key (j_operations db) = None"
      "\<not> has_inflight_op db (or_instance_id op)"
      "submit_recorded db op transitional create_spec plan = Inr recorded"
      "claim = None \<and> db1 = db \<or>
       (\<exists>c. claim = Some c \<and> fst (take_deadline db (or_instance_id op) c now_claim)
            \<and> db1 = snd (take_deadline db (or_instance_id op) c now_claim))"
      "submit_writes db1 op key recorded create_spec runtime tok mint lin now = Inr db'"
  using assms unfolding submit_atomically_def
  by (auto split: option.splits if_splits sum.splits prod.splits bool.splits)

lemma schema_ok_submit_atomically [journal_intros]:
  assumes "schema_ok db"
    and "submit_atomically db op key transitional create_spec runtime tok mint claim lin plan
           now_claim now = Inr (res, db')"
  shows "schema_ok db'"
  using assms(2)
proof (cases rule: submit_atomically_Inr)
  case unchanged
  thus ?thesis using assms(1) by simp
next
  case (journaled recorded db1)
  hence "schema_ok db1" using assms(1) schema_ok_take_deadline by blast
  thus ?thesis using journaled(6) submit_writes_schema by blast
qed

lemma claims_ok_submit_atomically [journal_intros]:
  assumes "claims_ok (j_operations db)"
    and "submit_atomically db op key transitional create_spec runtime tok mint claim lin plan
           now_claim now = Inr (res, db')"
  shows "claims_ok (j_operations db')"
  using assms(2)
proof (cases rule: submit_atomically_Inr)
  case unchanged
  thus ?thesis using assms(1) by simp
next
  case (journaled recorded db1)
  have "j_operations db1 = j_operations db" using journaled(5) take_deadline_frame by blast
  hence "j_operations db' = j_operations db @ [operation_insert op key]"
    using submit_writes_Inr [OF journaled(6)] by simp
  thus ?thesis using assms(1) journaled(3)
    by (simp add: claims_ok_snoc operation_insert_def has_inflight_op_iff) blast
qed

section \<open>Guarantees\<close>

lemma find_op_by_key_Some:
  assumes "schema_ok db" and "find_op_by_idempotency_key db key = Some original"
  obtains r where "row_with oc_idempotency_key key (j_operations db) = Some r"
    "get_operation db (oc_op_id r) = Some original"
  using assms by (auto simp: find_op_by_idempotency_key_def split: option.splits)

lemma find_op_by_key_None:
  assumes "schema_ok db" and "find_op_by_idempotency_key db key = None"
  shows "row_with oc_idempotency_key key (j_operations db) = None"
proof (cases "row_with oc_idempotency_key key (j_operations db)")
  case (Some r)
  have "unique_keys oc_op_id (j_operations db)" using assms(1) by (simp add: schema_ok_def)
  from row_with_unique [OF this row_with_Some_in [OF Some]] show ?thesis
    using assms(2) Some by (simp add: find_op_by_idempotency_key_def get_operation_def)
qed

text \<open>
  A repeated idempotency key wins over everything.  Whatever else the second
  request carries (another instance, an illegal transition, a claim, a create
  whose identity cannot be minted), it gets the original operation back and the
  journal is untouched.
\<close>

theorem replay_wins_over_everything:
  assumes "schema_ok db" and "find_op_by_idempotency_key db key = Some original"
  shows "submit_atomically db op key transitional create_spec runtime tok mint claim lin plan
           now_claim now = Inr (Replay original, db)"
proof -
  obtain r where "row_with oc_idempotency_key key (j_operations db) = Some r"
    "get_operation db (oc_op_id r) = Some original"
    using find_op_by_key_Some [OF assms] .
  thus ?thesis by (simp add: submit_atomically_def)
qed

theorem replay_wins_over_everything_witness:
  "submit_atomically sample_ops_journal (sample_op\<lparr>or_op_id := ''o2''\<rparr>) ''k1'' I_Creating
     (Some sample_spec) ''fake'' ''tok'' (\<lambda>_. Inl ''no entropy'') (Some (Wake 5)) None
     (\<lambda>_. None) 9 9 = Inr (Replay sample_op, sample_ops_journal)"
  by (rule replay_wins_over_everything [OF sample_ops_journal_ok])
    (simp add: find_op_by_idempotency_key_def sample_ops_simps)

lemma row_after_claim:
  "row_with ic_instance_id k (j_instances (snd (take_deadline db iid c now))) = None \<longleftrightarrow>
   row_with ic_instance_id k (j_instances db) = None"
  by (simp add: row_with_None_iff)

lemma journaled_operation:
  assumes "submit_writes db1 op key recorded create_spec runtime tok mint lin now = Inr db'"
  shows "get_operation db' (or_op_id op) = Some (operation_row_from (operation_insert op key))
       \<and> has_inflight_op db' (or_instance_id op)
       \<and> (\<forall>k. k \<noteq> or_op_id op \<longrightarrow> get_operation db' k = get_operation db1 k)"
proof -
  note w = submit_writes_Inr [OF assms]
  have none: "row_with oc_op_id (or_op_id op) (j_operations db1) = None"
    using w by (simp add: row_with_None_iff)
  have "get_operation db' k = get_operation db1 k" if "k \<noteq> or_op_id op" for k
    using w that by (simp add: get_operation_def row_with_append operation_insert_def
        split: option.splits)
  thus ?thesis using w none
    by (auto simp: get_operation_def row_with_append has_inflight_op_iff operation_insert_def)
qed

lemma journaled_instance:
  assumes "schema_ok db1"
    and "submit_writes db1 op key recorded create_spec runtime tok mint lin now = Inr db'"
    and "create_spec = None \<Longrightarrow> row_with ic_instance_id (or_instance_id op) (j_instances db1) \<noteq> None"
    and "\<And>spec. create_spec = Some spec \<Longrightarrow> sp_instance_id spec = or_instance_id op \<and> recorded = I_Creating"
  shows "map_option ir_state (get_instance db' (or_instance_id op)) = Some recorded"
proof (cases create_spec)
  case None
  then obtain r where r: "row_with ic_instance_id (or_instance_id op) (j_instances db1) = Some r"
    using assms(3) by blast
  thus ?thesis using submit_writes_Inr [OF assms(2)] None row_with_Some_key [OF r]
    by (simp add: get_instance_def row_with_sql_update instance_row_from_def)
next
  case (Some spec)
  hence "row_with ic_instance_id (or_instance_id op) (j_instances db1) = None"
    using submit_writes_Inr [OF assms(2)] assms(4) by (simp add: row_with_None_iff)
  thus ?thesis using submit_writes_Inr [OF assms(2)] assms(4) Some
    by (auto simp: get_instance_def row_with_append instance_row_from_def created_row_def)
qed



end
