(* ===== verification/Journal_Snapshots.thy ===== *)
theory Journal_Snapshots
  imports Journal_Operations
begin

text \<open>
  \<open>db.rs\<close>, the snapshot table: recording a snapshot together with its instance's
  pointer, lookup by id and by name, listing newest first, and forgetting a
  snapshot together with every pointer to it.
\<close>

section \<open>Operations\<close>

definition snapshot_columns :: "SnapshotRow \<Rightarrow> snapshots_row" where
  "snapshot_columns row =
     \<lparr>sc_snapshot_id = sr_snapshot_id row, sc_instance_id = sr_instance_id row,
      sc_kind = sr_kind row, sc_cpu_class = sr_cpu_class row,
      sc_template_hash = sr_template_hash row, sc_runtime_bundle_ref = sr_runtime_bundle_ref row,
      sc_tier = sr_tier row, sc_size_bytes = as_i64 (sr_size_bytes row),
      sc_created_at_ms = sr_created_at_ms row,
      sc_hook_ran = map_option ho_ran (sr_pre_snapshot_hook row),
      sc_hook_timed_out = map_option ho_timed_out (sr_pre_snapshot_hook row),
      sc_hook_exit_code = map_option ho_exit_code (sr_pre_snapshot_hook row),
      sc_name = sr_name row\<rparr>"

definition insert_snapshot :: "journal \<Rightarrow> SnapshotRow \<Rightarrow> ms \<Rightarrow> journal" where
  "insert_snapshot db row now =
     j_instances_update
       (sql_update (\<lambda>r. ic_instance_id r = sr_instance_id row)
          (\<lambda>r. r\<lparr>ic_latest_snapshot_id := sr_snapshot_id row, ic_updated_at_ms := now\<rparr>))
       (j_snapshots_update (sql_replace sc_snapshot_id (snapshot_columns row)) db)"

definition get_snapshot :: "journal \<Rightarrow> snapshot_id \<Rightarrow> SnapshotRow option" where
  "get_snapshot db sid = map_option snapshot_row_from (row_with sc_snapshot_id sid (j_snapshots db))"

definition snapshot_named :: "journal \<Rightarrow> instance_id \<Rightarrow> string \<Rightarrow> SnapshotRow option" where
  "snapshot_named db iid name =
     (if name = [] then None
      else map_option snapshot_row_from
             (find (\<lambda>r. sc_instance_id r = iid \<and> sc_name r = name) (j_snapshots db)))"

text \<open>\<open>ORDER BY created_at_ms DESC, snapshot_id DESC\<close>; the id makes the order total.\<close>

definition list_snapshots :: "journal \<Rightarrow> instance_id \<Rightarrow> SnapshotRow list" where
  "list_snapshots db iid =
     map snapshot_row_from
       (rev (sort_key (\<lambda>r. (sc_created_at_ms r, sc_snapshot_id r))
          (filter (\<lambda>r. iid = [] \<or> sc_instance_id r = iid) (j_snapshots db))))"

definition delete_snapshot :: "journal \<Rightarrow> snapshot_id \<Rightarrow> journal" where
  "delete_snapshot db sid =
     j_instances_update
       (sql_update (\<lambda>r. ic_latest_snapshot_id r = sid) (\<lambda>r. r\<lparr>ic_latest_snapshot_id := ''''\<rparr>))
       (j_snapshots_update (sql_delete (\<lambda>r. sc_snapshot_id r = sid)) db)"

text \<open>Every non-empty pointer names a snapshot the journal can describe.\<close>

definition pointers_ok :: "journal \<Rightarrow> bool" where
  "pointers_ok db \<longleftrightarrow>
     (\<forall>r \<in> set (j_instances db). ic_latest_snapshot_id r \<noteq> [] \<longrightarrow>
        has_key sc_snapshot_id (ic_latest_snapshot_id r) (j_snapshots db))"

text \<open>A named snapshot of the sample instance.\<close>

definition sample_snapshot :: SnapshotRow where
  "sample_snapshot = \<lparr>sr_snapshot_id = ''s1'', sr_instance_id = ''i1'', sr_kind = SK_MemoryAndDisk,
     sr_cpu_class = ''cpu'', sr_template_hash = ''h'', sr_runtime_bundle_ref = ''b'',
     sr_tier = ST_Local, sr_size_bytes = 18446744073709551615, sr_created_at_ms = 4,
     sr_pre_snapshot_hook = Some \<lparr>ho_ran = False, ho_timed_out = False, ho_exit_code = 0\<rparr>,
     sr_name = ''base''\<rparr>"

section \<open>Invariants\<close>

lemma schema_ok_insert_snapshot [journal_intros]:
  "schema_ok db \<Longrightarrow> schema_ok (insert_snapshot db row now)"
  by (auto simp: insert_snapshot_def schema_ok_def unique_keys_sql_replace unique_keys_sql_update
      set_sql_update)

lemma schema_ok_delete_snapshot [journal_intros]:
  "schema_ok db \<Longrightarrow> schema_ok (delete_snapshot db sid)"
  by (auto simp: delete_snapshot_def schema_ok_def unique_keys_sql_delete unique_keys_sql_update
      set_sql_update)

lemma snapshot_frame [simp]:
  "j_operations (insert_snapshot db row now) = j_operations db"
  "j_operations (delete_snapshot db sid) = j_operations db"
  by (simp_all add: insert_snapshot_def delete_snapshot_def)

lemma has_key_sql_replace [simp]:
  "has_key key k (sql_replace key r t) \<longleftrightarrow> k = key r \<or> has_key key k t"
  by (auto simp: has_key_def sql_replace_def)

lemma has_key_sql_delete [simp]:
  "has_key key k (sql_delete (\<lambda>r. key r = d) t) \<longleftrightarrow> k \<noteq> d \<and> has_key key k t"
  by (auto simp: has_key_def sql_delete_def)

lemma snapshot_columns_id [simp]: "sc_snapshot_id (snapshot_columns row) = sr_snapshot_id row"
  by (simp add: snapshot_columns_def)

lemma pointers_ok_insert_snapshot [journal_intros]:
  "pointers_ok db \<Longrightarrow> pointers_ok (insert_snapshot db row now)"
  by (auto simp: pointers_ok_def insert_snapshot_def set_sql_update)

lemma pointers_ok_delete_snapshot [journal_intros]:
  "pointers_ok db \<Longrightarrow> pointers_ok (delete_snapshot db sid)"
  by (auto simp: pointers_ok_def delete_snapshot_def set_sql_update)

section \<open>Guarantees\<close>

lemma snapshot_row_roundtrip:
  "in_u64 (sr_size_bytes row) \<Longrightarrow> snapshot_row_from (snapshot_columns row) = row"
  by (cases "sr_pre_snapshot_hook row") (simp_all add: snapshot_row_from_def snapshot_columns_def)

text \<open>
  A recorded snapshot reads back exactly as it was recorded (the hook's
  \<open>not asked\<close> and \<open>asked, none configured\<close> stay apart, and a size near the top of
  the 64-bit range survives the signed column), its instance points at it, and no
  other snapshot is disturbed.  Forgetting it removes the row and every pointer to
  it, so no instance offers a resume that cannot happen.
\<close>

theorem snapshot_recorded_and_forgotten:
  assumes "in_u64 (sr_size_bytes row)" and "pointers_ok db"
  shows "get_snapshot (insert_snapshot db row now) (sr_snapshot_id row) = Some row
       \<and> (\<forall>sid. sid \<noteq> sr_snapshot_id row \<longrightarrow>
            get_snapshot (insert_snapshot db row now) sid = get_snapshot db sid)
       \<and> (\<forall>i. get_instance (insert_snapshot db row now) (sr_instance_id row) = Some i \<longrightarrow>
            ir_latest_snapshot_id i = sr_snapshot_id row)
       \<and> pointers_ok (insert_snapshot db row now)
       \<and> get_snapshot (delete_snapshot db sid) sid = None
       \<and> (sid \<noteq> [] \<longrightarrow> (\<forall>k i. get_instance (delete_snapshot db sid) k = Some i \<longrightarrow>
            ir_latest_snapshot_id i \<noteq> sid))
       \<and> pointers_ok (delete_snapshot db sid)"
proof -
  have key: "ic_instance_id r = k" if "row_with ic_instance_id k (j_instances db) = Some r" for k r
    using that by (rule row_with_Some_key)
  have "ir_latest_snapshot_id i = sr_snapshot_id row"
    if "get_instance (insert_snapshot db row now) (sr_instance_id row) = Some i" for i
    using that key [of "sr_instance_id row"]
    by (cases "row_with ic_instance_id (sr_instance_id row) (j_instances db)")
      (auto simp add: get_instance_def insert_snapshot_def row_with_sql_update instance_row_from_def)
  moreover have "ir_latest_snapshot_id i \<noteq> sid"
    if "sid \<noteq> []" "get_instance (delete_snapshot db sid) k = Some i" for k i
    using that by (cases "row_with ic_instance_id k (j_instances db)")
      (auto simp: get_instance_def delete_snapshot_def row_with_sql_update instance_row_from_def
        split: if_split_asm)
  moreover have "get_snapshot (delete_snapshot db sid) sid = None"
    by (simp add: get_snapshot_def delete_snapshot_def)
  ultimately show ?thesis
    using assms by (auto simp: snapshot_row_roundtrip get_snapshot_def insert_snapshot_def
        pointers_ok_insert_snapshot [unfolded insert_snapshot_def] pointers_ok_delete_snapshot)
qed

theorem snapshot_recorded_and_forgotten_witness:
  "get_snapshot (insert_snapshot sample_journal sample_snapshot 6) ''s1'' = Some sample_snapshot"
proof -
  have "pointers_ok sample_journal" by (simp add: pointers_ok_def sample_simps)
  moreover have "in_u64 (sr_size_bytes sample_snapshot)"
    by (simp add: sample_snapshot_def machine_defs)
  ultimately show ?thesis
    using snapshot_recorded_and_forgotten [of sample_snapshot sample_journal]
    by (simp add: sample_snapshot_def)
qed

lemma sorted_rev_sort_key:
  "sorted_wrt (\<lambda>a b. f b \<le> f a) (rev (sort_key (f :: 'a \<Rightarrow> 'b :: linorder) xs))"
  using sorted_sort_key [of f xs] by (simp add: sorted_wrt_rev sorted_wrt_map)

text \<open>
  \<open>list_snapshots\<close> returns exactly the instance's snapshots (all of them for
  the empty id), newest first, so its head is the latest.
\<close>

theorem list_snapshots_newest_first:
  "set (list_snapshots db iid) =
     {s. \<exists>r \<in> set (j_snapshots db). s = snapshot_row_from r \<and> (iid = [] \<or> sr_instance_id s = iid)}
   \<and> sorted_wrt (\<lambda>a b. sr_created_at_ms b \<le> sr_created_at_ms a) (list_snapshots db iid)"
proof -
  have "sorted_wrt (\<lambda>a b. sr_created_at_ms b \<le> sr_created_at_ms a) (list_snapshots db iid)"
    unfolding list_snapshots_def sorted_wrt_map
    by (rule sorted_wrt_mono_rel [OF _ sorted_rev_sort_key])
      (auto simp: snapshot_row_from_def less_eq_prod_def)
  thus ?thesis by (auto simp: list_snapshots_def snapshot_row_from_def)
qed

theorem list_snapshots_newest_first_witness:
  "sample_snapshot \<in> set (list_snapshots (insert_snapshot sample_journal sample_snapshot 6) ''i1'')"
  using list_snapshots_newest_first [of "insert_snapshot sample_journal sample_snapshot 6" "''i1''"]
    snapshot_row_roundtrip [of sample_snapshot]
  by (auto simp: insert_snapshot_def sql_replace_def sample_snapshot_def machine_defs)

end
