(* ===== verification/Journal_Capsules.thy ===== *)
theory Journal_Capsules
  imports Journal_Snapshots
begin

text \<open>
  \<open>db.rs\<close>, capsules and their immutable objects: registration with one reference
  per named object, logical deletion with durable collection intents, the two
  halves of garbage collection, and the journal of capsule verbs.

  Reference counts are compared with the multiset of digests the live capsules
  name; a manifest that names a digest twice holds two references.
\<close>

section \<open>Rows\<close>

record CapsuleRow =
  cr_capsule_id :: string
  cr_manifest :: capsule_manifest
  cr_storage :: capsule_storage
  cr_total_size :: int
  cr_created_at_ms :: ms

record ObjectRef =
  of_digest :: string
  of_length :: int
  of_refcount :: int
  of_verified :: bool
  of_gc_pending :: bool

record CapsuleOpRow =
  pr_op_id :: op_id
  pr_kind :: string
  pr_capsule_id :: string
  pr_request :: string
  pr_state :: operation_state
  pr_error_reason :: error_reason
  pr_error_message :: string
  pr_created_at_ms :: ms
  pr_finished_at_ms :: "ms option"

datatype capsule_op_begin =
    Started CapsuleOpRow
  | CapsuleReplay CapsuleOpRow
  | Mismatch CapsuleOpRow

definition capsule_row_from :: "capsules_row \<Rightarrow> CapsuleRow" where
  "capsule_row_from r =
     \<lparr>cr_capsule_id = cc_capsule_id r, cr_manifest = cc_manifest r, cr_storage = cc_storage r,
      cr_total_size = as_u64 (cc_total_size r), cr_created_at_ms = cc_created_at_ms r\<rparr>"

definition capsule_op_row_from :: "capsule_operations_row \<Rightarrow> CapsuleOpRow" where
  "capsule_op_row_from r =
     \<lparr>pr_op_id = pc_op_id r, pr_kind = pc_kind r, pr_capsule_id = pc_capsule_id r,
      pr_request = pc_request r, pr_state = pc_state r, pr_error_reason = pc_error_reason r,
      pr_error_message = pc_error_message r, pr_created_at_ms = pc_created_at_ms r,
      pr_finished_at_ms = pc_finished_at_ms r\<rparr>"

section \<open>Registration and lookup\<close>

fun capsule_tier_rank :: "capsule_storage \<Rightarrow> nat" where
  "capsule_tier_rank CS_Unspecified = 0"
| "capsule_tier_rank CS_LocalDir = 1"
| "capsule_tier_rank CS_ObjectStore = 2"

text \<open>\<open>INSERT ... ON CONFLICT(digest) DO UPDATE\<close>: one reference taken.\<close>

definition take_reference :: "object_refs_row list \<Rightarrow> capsule_object \<Rightarrow> object_refs_row list" where
  "take_reference t obj =
     (if has_key rc_digest (ob_digest obj) t
      then sql_update (\<lambda>r. rc_digest r = ob_digest obj)
             (\<lambda>r. r\<lparr>rc_refcount := rc_refcount r + 1, rc_verified := True, rc_gc_pending := False\<rparr>) t
      else t @ [\<lparr>rc_digest = ob_digest obj, rc_length = as_i64 (ob_length obj), rc_refcount = 1,
                 rc_verified = True, rc_gc_pending = False\<rparr>])"

definition register_capsule :: "journal \<Rightarrow> CapsuleRow \<Rightarrow> CapsuleRow \<times> journal" where
  "register_capsule db row =
    (case row_with cc_capsule_id (cr_capsule_id row) (j_capsules db) of
       Some r \<Rightarrow>
         (let existing = capsule_row_from r
          in if capsule_tier_rank (cr_storage row) > capsule_tier_rank (cr_storage existing)
             then (existing\<lparr>cr_storage := cr_storage row\<rparr>,
                   j_capsules_update
                     (sql_update (\<lambda>c. cc_capsule_id c = cr_capsule_id row)
                        (\<lambda>c. c\<lparr>cc_storage := cr_storage row\<rparr>)) db)
             else (existing, db))
     | None \<Rightarrow>
         (row,
          j_object_refs_update (\<lambda>t. foldl take_reference t (mf_objects (cr_manifest row)))
            (j_capsules_update (\<lambda>t. t @
               [\<lparr>cc_capsule_id = cr_capsule_id row, cc_manifest = cr_manifest row,
                 cc_storage = cr_storage row, cc_lineage_id = mf_lineage_id (cr_manifest row),
                 cc_total_size = as_i64 (cr_total_size row),
                 cc_created_at_ms = cr_created_at_ms row\<rparr>]) db)))"

definition get_capsule :: "journal \<Rightarrow> string \<Rightarrow> CapsuleRow option" where
  "get_capsule db cid = map_option capsule_row_from (row_with cc_capsule_id cid (j_capsules db))"

definition list_capsules :: "journal \<Rightarrow> string \<Rightarrow> CapsuleRow list" where
  "list_capsules db lid =
     map capsule_row_from
       (rev (sort_key (\<lambda>r. (cc_created_at_ms r, cc_capsule_id r))
          (filter (\<lambda>r. lid = [] \<or> cc_lineage_id r = lid) (j_capsules db))))"

section \<open>Deletion and collection\<close>

definition drop_reference :: "object_refs_row list \<Rightarrow> capsule_object \<Rightarrow> object_refs_row list" where
  "drop_reference t obj =
     sql_update (\<lambda>r. rc_digest r = ob_digest obj)
       (\<lambda>r. r\<lparr>rc_refcount := max (rc_refcount r - 1) 0,
               rc_gc_pending := (if rc_refcount r - 1 \<le> 0 then True else rc_gc_pending r)\<rparr>) t"

definition delete_capsule :: "journal \<Rightarrow> string \<Rightarrow> journal" where
  "delete_capsule db cid =
    (case row_with cc_capsule_id cid (j_capsules db) of
       None \<Rightarrow> db
     | Some c \<Rightarrow>
         j_object_refs_update (\<lambda>t. foldl drop_reference t (mf_objects (cc_manifest c)))
           (j_snapshots_update (sql_delete (\<lambda>s. sc_snapshot_id s = ''capsule:'' @ cid))
             (j_capsules_update (sql_delete (\<lambda>r. cc_capsule_id r = cid)) db)))"

definition collectable_objects :: "journal \<Rightarrow> string list" where
  "collectable_objects db =
     map rc_digest (filter (\<lambda>r. rc_gc_pending r \<and> rc_refcount r \<le> 0) (j_object_refs db))"

definition finalize_object_gc :: "journal \<Rightarrow> string \<Rightarrow> journal" where
  "finalize_object_gc db digest =
     j_object_refs_update
       (sql_delete (\<lambda>r. rc_digest r = digest \<and> rc_refcount r \<le> 0 \<and> rc_gc_pending r)) db"

definition object_ref :: "journal \<Rightarrow> string \<Rightarrow> ObjectRef option" where
  "object_ref db digest =
     map_option (\<lambda>r. \<lparr>of_digest = rc_digest r, of_length = as_u64 (rc_length r),
                      of_refcount = rc_refcount r, of_verified = rc_verified r,
                      of_gc_pending = rc_gc_pending r\<rparr>)
       (row_with rc_digest digest (j_object_refs db))"

section \<open>The journal of capsule verbs\<close>

definition get_capsule_op :: "journal \<Rightarrow> op_id \<Rightarrow> CapsuleOpRow option" where
  "get_capsule_op db oid =
     map_option capsule_op_row_from (row_with pc_op_id oid (j_capsule_operations db))"

definition recover_capsule_ops :: "journal \<Rightarrow> ms \<Rightarrow> nat \<times> journal" where
  "recover_capsule_ops db now =
    (let p = (\<lambda>r. pc_state r = Op_Running)
     in (sql_changed p (j_capsule_operations db),
         j_capsule_operations_update
           (sql_update p (\<lambda>r. r\<lparr>pc_state := Op_Failed, pc_error_reason := ER_SubstrateUnavailable,
              pc_error_message := ''node restarted before the capsule operation completed'',
              pc_finished_at_ms := Some now\<rparr>)) db))"

text \<open>
  \<open>oid\<close> is the freshly generated id.  \<open>INSERT OR IGNORE\<close> inserts nothing when the id
  or the key is taken; the read that follows is by key.
\<close>

definition begin_capsule_op ::
  "journal \<Rightarrow> op_id \<Rightarrow> string \<Rightarrow> string \<Rightarrow> idempotency_key \<Rightarrow> ms
   \<Rightarrow> journal_error + (capsule_op_begin \<times> journal)" where
  "begin_capsule_op db oid kind request key now =
    (let row = \<lparr>pr_op_id = oid, pr_kind = kind, pr_capsule_id = '''', pr_request = request,
                pr_state = Op_Running, pr_error_reason = ER_Unspecified, pr_error_message = '''',
                pr_created_at_ms = now, pr_finished_at_ms = None\<rparr>
     in if \<not> has_key pc_op_id oid (j_capsule_operations db)
           \<and> \<not> has_key pc_idempotency_key key (j_capsule_operations db)
        then Inr (Started row,
               j_capsule_operations_update (\<lambda>t. t @
                 [\<lparr>pc_op_id = oid, pc_kind = kind, pc_capsule_id = '''', pc_idempotency_key = key,
                   pc_request = request, pc_state = Op_Running, pc_error_reason = ER_Unspecified,
                   pc_error_message = '''', pc_created_at_ms = now, pc_finished_at_ms = None\<rparr>]) db)
        else
          (case row_with pc_idempotency_key key (j_capsule_operations db) of
             None \<Rightarrow> Inl (CapsuleOpAbsent oid)
           | Some r \<Rightarrow>
               (let unbound = (pc_kind r = kind \<and> pc_request r = []);
                    db' = (if unbound
                           then j_capsule_operations_update
                                  (sql_update (\<lambda>x. pc_op_id x = pc_op_id r \<and> pc_request x = [])
                                     (\<lambda>x. x\<lparr>pc_request := request\<rparr>)) db
                           else db);
                    existing = (if unbound then (capsule_op_row_from r)\<lparr>pr_request := request\<rparr>
                                else capsule_op_row_from r)
                in if pr_kind existing = kind \<and> pr_request existing = request
                   then Inr (CapsuleReplay existing, db')
                   else Inr (Mismatch existing, db'))))"

definition finish_capsule_op ::
  "journal \<Rightarrow> op_id \<Rightarrow> string \<Rightarrow> operation_state \<Rightarrow> error_reason \<Rightarrow> string \<Rightarrow> ms
   \<Rightarrow> journal_error + (CapsuleOpRow \<times> journal)" where
  "finish_capsule_op db oid cid state reason message now =
    (let db' = j_capsule_operations_update
           (sql_update (\<lambda>r. pc_op_id r = oid \<and> pc_state r = Op_Running)
              (\<lambda>r. r\<lparr>pc_capsule_id := cid, pc_state := state, pc_error_reason := reason,
                     pc_error_message := message, pc_finished_at_ms := Some now\<rparr>)) db
     in case get_capsule_op db' oid of
          Some row \<Rightarrow> Inr (row, db')
        | None \<Rightarrow> Inl (CapsuleOpAbsent oid))"

section \<open>The invariant of the reference counts\<close>

definition digests_of :: "capsules_row list \<Rightarrow> string list" where
  "digests_of cs = concat (map (\<lambda>c. map ob_digest (mf_objects (cc_manifest c))) cs)"

definition gc_ok :: "object_refs_row list \<Rightarrow> bool" where
  "gc_ok t \<longleftrightarrow> (\<forall>r \<in> set t. 0 \<le> rc_refcount r \<and> rc_gc_pending r = (rc_refcount r = 0))"

definition counted :: "object_refs_row list \<Rightarrow> string \<Rightarrow> int" where
  "counted t d = (case row_with rc_digest d t of Some r \<Rightarrow> rc_refcount r | None \<Rightarrow> 0)"

text \<open>A capsule of two objects, one of them named twice.\<close>

definition sample_manifest :: capsule_manifest where
  "sample_manifest = \<lparr>mf_schema_version = ''1'', mf_cpu_class = ''cpu'', mf_template_hash = ''h'',
     mf_runtime_bundle_ref = ''b'', mf_kind = SK_MemoryAndDisk,
     mf_objects = [\<lparr>ob_digest = ''a'', ob_length = 1, ob_type = CT_Memory, ob_media_type = ''m''\<rparr>,
                   \<lparr>ob_digest = ''b'', ob_length = 2, ob_type = CT_Disk, ob_media_type = ''m''\<rparr>,
                   \<lparr>ob_digest = ''a'', ob_length = 1, ob_type = CT_Metadata, ob_media_type = ''m''\<rparr>],
     mf_lineage_id = ''l'', mf_architecture = ''aarch64'', mf_created_at = None,
     mf_required_restore_capabilities = []\<rparr>"

definition sample_capsule :: CapsuleRow where
  "sample_capsule = \<lparr>cr_capsule_id = ''c1'', cr_manifest = sample_manifest,
     cr_storage = CS_LocalDir, cr_total_size = 4, cr_created_at_ms = 7\<rparr>"

text \<open>
  The counts are the references the live capsules hold, none is negative, and an
  object is marked collectable exactly when nothing refers to it.
\<close>

definition refs_ok :: "journal \<Rightarrow> bool" where
  "refs_ok db \<longleftrightarrow>
     (\<forall>d. counted (j_object_refs db) d = int (count_list (digests_of (j_capsules db)) d))
   \<and> gc_ok (j_object_refs db)
   \<and> unique_keys rc_digest (j_object_refs db)
   \<and> unique_keys cc_capsule_id (j_capsules db)"

lemma counted_take_reference [simp]:
  "counted (take_reference t obj) d = counted t d + (if d = ob_digest obj then 1 else 0)"
proof -
  have hk: "has_key rc_digest (ob_digest obj) t \<longleftrightarrow> row_with rc_digest (ob_digest obj) t \<noteq> None"
    by (simp add: row_with_None_iff)
  show ?thesis
    by (cases "row_with rc_digest d t"; cases "d = ob_digest obj")
      (auto simp: counted_def take_reference_def hk row_with_sql_update row_with_append
        dest: row_with_Some_key)
qed

lemma gc_ok_take_reference: "gc_ok t \<Longrightarrow> gc_ok (take_reference t obj)"
  by (auto simp: gc_ok_def take_reference_def set_sql_update)

lemma unique_take_reference:
  "unique_keys rc_digest t \<Longrightarrow> unique_keys rc_digest (take_reference t obj)"
  by (auto simp: take_reference_def unique_keys_sql_update unique_keys_snoc)

lemma counted_foldl_take:
  "counted (foldl take_reference t objs) d = counted t d + int (count_list (map ob_digest objs) d)"
  by (induction objs arbitrary: t) auto

lemma foldl_take_ok:
  "gc_ok t \<and> unique_keys rc_digest t
   \<Longrightarrow> gc_ok (foldl take_reference t objs) \<and> unique_keys rc_digest (foldl take_reference t objs)"
  by (induction objs arbitrary: t) (auto simp: gc_ok_take_reference unique_take_reference)

lemma counted_nonneg: "gc_ok t \<Longrightarrow> 0 \<le> counted t d"
  by (auto simp: counted_def gc_ok_def split: option.splits dest: row_with_Some_in)

lemma counted_drop_reference:
  "gc_ok t \<Longrightarrow> counted (drop_reference t obj) d
   = (if d = ob_digest obj then max (counted t d - 1) 0 else counted t d)"
  by (cases "row_with rc_digest d t")
    (auto simp: counted_def drop_reference_def row_with_sql_update dest: row_with_Some_key)

lemma gc_ok_drop_reference: "gc_ok t \<Longrightarrow> gc_ok (drop_reference t obj)"
  by (auto simp: gc_ok_def drop_reference_def set_sql_update max_def split: if_splits)

lemma unique_drop_reference:
  "unique_keys rc_digest t \<Longrightarrow> unique_keys rc_digest (drop_reference t obj)"
  by (simp add: drop_reference_def unique_keys_sql_update)

lemma counted_foldl_drop:
  "gc_ok t \<Longrightarrow> counted (foldl drop_reference t objs) d
   = max (counted t d - int (count_list (map ob_digest objs) d)) 0"
proof (induction objs arbitrary: t)
  case Nil
  thus ?case by (simp add: counted_nonneg)
next
  case (Cons obj objs)
  thus ?case by (auto simp: gc_ok_drop_reference counted_drop_reference max_def)
qed

lemma foldl_drop_ok:
  "gc_ok t \<and> unique_keys rc_digest t
   \<Longrightarrow> gc_ok (foldl drop_reference t objs) \<and> unique_keys rc_digest (foldl drop_reference t objs)"
  by (induction objs arbitrary: t) (auto simp: gc_ok_drop_reference unique_drop_reference)

lemma count_digests_delete:
  "unique_keys cc_capsule_id cs \<Longrightarrow> row_with cc_capsule_id cid cs = Some c
   \<Longrightarrow> count_list (digests_of cs) d
       = count_list (map ob_digest (mf_objects (cc_manifest c))) d
         + count_list (digests_of (sql_delete (\<lambda>r. cc_capsule_id r = cid) cs)) d"
proof (induction cs)
  case (Cons a cs)
  show ?case
  proof (cases "cc_capsule_id a = cid")
    case True
    have "sql_delete (\<lambda>r. cc_capsule_id r = cid) cs = cs"
      using Cons.prems(1) True
      by (auto simp: sql_delete_def unique_keys_def image_iff intro!: filter_True)
    thus ?thesis using Cons.prems(2) True by (simp add: digests_of_def sql_delete_def)
  next
    case False
    thus ?thesis using Cons by (simp add: digests_of_def sql_delete_def unique_keys_def)
  qed
qed simp

lemma counted_finalize:
  assumes "gc_ok t" "unique_keys rc_digest t"
  shows "counted (sql_delete (\<lambda>r. rc_digest r = d \<and> rc_refcount r \<le> 0 \<and> rc_gc_pending r) t) k = counted t k"
  using assms
proof (induction t)
  case (Cons r t)
  have "row_with rc_digest (rc_digest r) t = None"
    using Cons.prems(2) by (auto simp: row_with_None_iff has_key_def unique_keys_def)
  moreover have "gc_ok t" "unique_keys rc_digest t"
    using Cons.prems by (simp_all add: gc_ok_def unique_keys_def)
  ultimately show ?case
    using Cons.IH Cons.prems(1) by (auto simp: counted_def sql_delete_def gc_ok_def)
qed (simp add: sql_delete_def)

lemma gc_ok_sql_delete: "gc_ok t \<Longrightarrow> gc_ok (sql_delete p t)"
  by (simp add: gc_ok_def sql_delete_def)

section \<open>Every capsule operation keeps the counts\<close>

lemma digests_of_simps [simp]:
  "digests_of [] = []"
  "digests_of (cs @ [c]) = digests_of cs @ map ob_digest (mf_objects (cc_manifest c))"
  by (simp_all add: digests_of_def)

lemma digests_of_sql_update:
  assumes "\<And>c. cc_manifest (f c) = cc_manifest c"
  shows "digests_of (sql_update p f cs) = digests_of cs"
  by (induction cs) (simp_all add: digests_of_def assms)

lemma refs_ok_register_capsule [journal_intros]:
  assumes "refs_ok db"
  shows "refs_ok (snd (register_capsule db row))"
proof (cases "row_with cc_capsule_id (cr_capsule_id row) (j_capsules db)")
  case None
  hence "\<not> has_key cc_capsule_id (cr_capsule_id row) (j_capsules db)" by (simp add: row_with_None_iff)
  thus ?thesis
    using None assms foldl_take_ok [of "j_object_refs db" "mf_objects (cr_manifest row)"]
    by (simp add: refs_ok_def register_capsule_def counted_foldl_take unique_keys_snoc)
next
  case (Some r)
  thus ?thesis using assms
    by (simp add: refs_ok_def register_capsule_def Let_def digests_of_sql_update
        unique_keys_sql_update)
qed

lemma refs_ok_delete_capsule [journal_intros]:
  assumes "refs_ok db"
  shows "refs_ok (delete_capsule db cid)"
proof (cases "row_with cc_capsule_id cid (j_capsules db)")
  case None
  thus ?thesis using assms by (simp add: delete_capsule_def)
next
  case (Some c)
  have "count_list (digests_of (j_capsules db)) d
        = count_list (map ob_digest (mf_objects (cc_manifest c))) d
          + count_list (digests_of (sql_delete (\<lambda>r. cc_capsule_id r = cid) (j_capsules db))) d" for d
    using assms Some by (intro count_digests_delete) (simp_all add: refs_ok_def)
  thus ?thesis
    using assms Some foldl_drop_ok [of "j_object_refs db" "mf_objects (cc_manifest c)"]
    by (simp add: refs_ok_def delete_capsule_def counted_foldl_drop unique_keys_sql_delete)
qed

lemma refs_ok_finalize_object_gc [journal_intros]:
  "refs_ok db \<Longrightarrow> refs_ok (finalize_object_gc db d)"
  by (simp add: refs_ok_def finalize_object_gc_def counted_finalize gc_ok_sql_delete
      unique_keys_sql_delete)

lemma schema_ok_capsule_tables:
  "schema_ok db \<Longrightarrow> unique_keys cc_capsule_id (j_capsules db) \<and> unique_keys rc_digest (j_object_refs db)"
  by (simp add: schema_ok_def)

lemma unique_foldl_take:
  "unique_keys rc_digest t \<Longrightarrow> unique_keys rc_digest (foldl take_reference t objs)"
  by (induction objs arbitrary: t) (auto simp: unique_take_reference)

lemma unique_foldl_drop:
  "unique_keys rc_digest t \<Longrightarrow> unique_keys rc_digest (foldl drop_reference t objs)"
  by (induction objs arbitrary: t) (auto simp: unique_drop_reference)

lemma schema_ok_register_capsule [journal_intros]:
  "schema_ok db \<Longrightarrow> schema_ok (snd (register_capsule db row))"
  by (auto simp: schema_ok_def register_capsule_def Let_def unique_keys_snoc unique_foldl_take
      unique_keys_sql_update row_with_None_iff split: option.splits)

lemma schema_ok_delete_capsule [journal_intros]:
  "schema_ok db \<Longrightarrow> schema_ok (delete_capsule db cid)"
  by (auto simp: schema_ok_def delete_capsule_def unique_foldl_drop unique_keys_sql_delete
      split: option.splits)

lemma schema_ok_finalize_object_gc [journal_intros]:
  "schema_ok db \<Longrightarrow> schema_ok (finalize_object_gc db d)"
  by (simp add: schema_ok_def finalize_object_gc_def unique_keys_sql_delete)

lemma schema_ok_recover_capsule_ops [journal_intros]:
  "schema_ok db \<Longrightarrow> schema_ok (snd (recover_capsule_ops db now))"
  by (simp add: schema_ok_def recover_capsule_ops_def Let_def unique_keys_sql_update)

lemma schema_ok_begin_capsule_op [journal_intros]:
  "schema_ok db \<Longrightarrow> begin_capsule_op db oid kind request key now = Inr (b, db') \<Longrightarrow> schema_ok db'"
  by (auto simp: schema_ok_def begin_capsule_op_def Let_def unique_keys_sql_update unique_keys_snoc
      split: option.splits if_splits)

lemma schema_ok_finish_capsule_op [journal_intros]:
  "schema_ok db \<Longrightarrow> finish_capsule_op db oid cid state reason message now = Inr (r, db') \<Longrightarrow> schema_ok db'"
  by (auto simp: schema_ok_def finish_capsule_op_def Let_def unique_keys_sql_update
      split: option.splits)

lemma capsule_frame [simp]:
  "j_operations (snd (register_capsule db row)) = j_operations db"
  "j_operations (delete_capsule db cid) = j_operations db"
  "j_operations (finalize_object_gc db d) = j_operations db"
  "j_operations (snd (recover_capsule_ops db now)) = j_operations db"
  "j_instances (snd (register_capsule db row)) = j_instances db"
  "j_instances (delete_capsule db cid) = j_instances db"
  by (auto simp: register_capsule_def delete_capsule_def finalize_object_gc_def
      recover_capsule_ops_def Let_def split: option.splits)

section \<open>Guarantees\<close>

lemma refs_ok_object_ref:
  assumes "refs_ok db"
  shows "object_ref db d = None \<Longrightarrow> d \<notin> set (digests_of (j_capsules db))"
    and "object_ref db d = Some f \<Longrightarrow> of_refcount f = int (count_list (digests_of (j_capsules db)) d)
         \<and> of_gc_pending f = (d \<notin> set (digests_of (j_capsules db)))"
proof -
  have c: "counted (j_object_refs db) d = int (count_list (digests_of (j_capsules db)) d)"
    using assms by (simp add: refs_ok_def)
  show "object_ref db d = None \<Longrightarrow> d \<notin> set (digests_of (j_capsules db))"
    using c by (simp add: object_ref_def counted_def count_list_0_iff)
  assume f: "object_ref db d = Some f"
  then obtain r where r: "row_with rc_digest d (j_object_refs db) = Some r"
    "of_refcount f = rc_refcount r" "of_gc_pending f = rc_gc_pending r"
    by (auto simp: object_ref_def)
  have "rc_gc_pending r = (rc_refcount r = 0)"
    using assms row_with_Some_in [OF r(1)] by (auto simp: refs_ok_def gc_ok_def)
  thus "of_refcount f = int (count_list (digests_of (j_capsules db)) d)
         \<and> of_gc_pending f = (d \<notin> set (digests_of (j_capsules db)))"
    using c r by (simp add: counted_def count_list_0_iff)
qed


lemma refs_ok_empty: "refs_ok empty_journal"
  by (simp add: refs_ok_def gc_ok_def counted_def empty_journal_def)


text \<open>
  Registering a capsule a second time takes no second reference and never
  lowers the storage tier recorded for it; deleting an absent capsule changes
  nothing, so a replayed delete cannot release a reference twice; and a deleted
  capsule is gone together with the snapshot row its import advertised.
\<close>

theorem capsule_replays_are_idempotent:
  "(cr_capsule_id row' = cr_capsule_id row \<longrightarrow>
      j_object_refs (snd (register_capsule (snd (register_capsule db row)) row'))
      = j_object_refs (snd (register_capsule db row)))
   \<and> (\<forall>c. get_capsule db (cr_capsule_id row) = Some c \<longrightarrow>
        capsule_tier_rank (cr_storage c) \<le> capsule_tier_rank (cr_storage (fst (register_capsule db row)))
      \<and> get_capsule (snd (register_capsule db row)) (cr_capsule_id row)
          = Some (fst (register_capsule db row)))
   \<and> delete_capsule (delete_capsule db cid) cid = delete_capsule db cid
   \<and> get_capsule (delete_capsule db cid) cid = None
   \<and> (get_capsule db cid \<noteq> None \<longrightarrow> get_snapshot (delete_capsule db cid) (''capsule:'' @ cid) = None)"
proof -
  have gone: "row_with cc_capsule_id cid (j_capsules (delete_capsule db cid)) = None"
    by (simp add: delete_capsule_def split: option.split)
  have present: "\<exists>r. row_with cc_capsule_id (cr_capsule_id row)
                   (j_capsules (snd (register_capsule db row))) = Some r"
    by (cases "row_with cc_capsule_id (cr_capsule_id row) (j_capsules db)")
      (auto simp: register_capsule_def Let_def row_with_append row_with_sql_update)
  have "j_object_refs (snd (register_capsule (snd (register_capsule db row)) row'))
          = j_object_refs (snd (register_capsule db row))"
    if "cr_capsule_id row' = cr_capsule_id row"
    using present that
    by (auto simp: register_capsule_def [of "snd (register_capsule db row)" row'] Let_def)
  moreover have "capsule_tier_rank (cr_storage c) \<le> capsule_tier_rank (cr_storage (fst (register_capsule db row)))
      \<and> get_capsule (snd (register_capsule db row)) (cr_capsule_id row) = Some (fst (register_capsule db row))"
    if c: "get_capsule db (cr_capsule_id row) = Some c" for c
  proof -
    obtain r where r: "row_with cc_capsule_id (cr_capsule_id row) (j_capsules db) = Some r"
      "c = capsule_row_from r" using c by (auto simp: get_capsule_def)
    thus ?thesis using row_with_Some_key [OF r(1)]
      by (simp add: register_capsule_def Let_def get_capsule_def row_with_sql_update capsule_row_from_def)
  qed
  moreover have "delete_capsule (delete_capsule db cid) cid = delete_capsule db cid"
    using gone by (simp add: delete_capsule_def [of "delete_capsule db cid"])
  moreover have "get_snapshot (delete_capsule db cid) (''capsule:'' @ cid) = None"
    if "get_capsule db cid \<noteq> None"
    using that by (auto simp: get_capsule_def get_snapshot_def delete_capsule_def)
  ultimately show ?thesis using gone by (simp add: get_capsule_def)
qed

theorem capsule_replays_are_idempotent_witness:
  "get_snapshot (delete_capsule (snd (register_capsule empty_journal sample_capsule)) ''c1'')
     (''capsule:'' @ ''c1'') = None"
proof -
  have "get_capsule (snd (register_capsule empty_journal sample_capsule)) ''c1'' \<noteq> None"
    by (simp add: register_capsule_def get_capsule_def sample_capsule_def empty_journal_def)
  thus ?thesis
    using capsule_replays_are_idempotent [where row = sample_capsule and row' = sample_capsule
        and db = "snd (register_capsule empty_journal sample_capsule)" and cid = "''c1''"] by blast
qed

text \<open>
  A capsule verb's idempotency key is bound once.  The first submission starts
  work under its own id; a later one under the same key never starts work: it
  replays the first exactly when the verb and the canonical request agree, and is a
  mismatch otherwise.  A settled verb keeps its outcome.
\<close>

theorem capsule_key_binds_once:
  assumes "schema_ok db" and "begin_capsule_op db oid kind request key now = Inr (Started row, db1)"
    and "request \<noteq> []"
  shows "begin_capsule_op db1 oid' kind' request' key now'
         = Inr (if kind' = kind \<and> request' = request then CapsuleReplay row else Mismatch row, db1)
       \<and> (\<forall>cid st er msg row2 db2. st \<noteq> Op_Running \<longrightarrow>
            finish_capsule_op db1 oid cid st er msg now' = Inr (row2, db2) \<longrightarrow>
            pr_state row2 = st \<and> finish_capsule_op db2 oid cid' st' er' msg' now'' = Inr (row2, db2))"
proof -
  define r where "r = \<lparr>pc_op_id = oid, pc_kind = kind, pc_capsule_id = '''',
    pc_idempotency_key = key, pc_request = request, pc_state = Op_Running,
    pc_error_reason = ER_Unspecified, pc_error_message = '''', pc_created_at_ms = now,
    pc_finished_at_ms = None\<rparr>"
  have fresh: "\<not> has_key pc_op_id oid (j_capsule_operations db)"
      "\<not> has_key pc_idempotency_key key (j_capsule_operations db)"
    and r: "pc_op_id r = oid" "pc_idempotency_key r = key" "pc_kind r = kind" "pc_request r = request"
      "pc_state r = Op_Running" "row = capsule_op_row_from r"
    and db1: "db1 = j_capsule_operations_update (\<lambda>t. t @ [r]) db"
    using assms(2) by (auto simp: begin_capsule_op_def Let_def capsule_op_row_from_def r_def
        split: if_splits option.splits)
  have "row_with pc_idempotency_key key (j_capsule_operations db) = None"
    and none: "row_with pc_op_id oid (j_capsule_operations db) = None"
    using fresh by (simp_all add: row_with_None_iff)
  hence row: "row_with pc_idempotency_key key (j_capsule_operations db1) = Some r"
    and orow: "row_with pc_op_id oid (j_capsule_operations db1) = Some r"
    using r by (simp_all add: db1 row_with_append)
  hence "has_key pc_idempotency_key key (j_capsule_operations db1)"
    by (metis option.distinct(1) row_with_None_iff)
  hence replay: "begin_capsule_op db1 oid' kind' request' key now'
         = Inr (if kind' = kind \<and> request' = request then CapsuleReplay row else Mismatch row, db1)"
    using row r assms(3)
    by (auto simp: begin_capsule_op_def Let_def capsule_op_row_from_def)
  have schema1: "schema_ok db1" using schema_ok_begin_capsule_op [OF assms(1,2)] .
  have "pr_state row2 = st \<and> finish_capsule_op db2 oid cid' st' er' msg' now'' = Inr (row2, db2)"
    if st: "st \<noteq> Op_Running" and fin: "finish_capsule_op db1 oid cid st er msg now' = Inr (row2, db2)"
    for cid st er msg row2 db2
  proof -
    let ?p = "\<lambda>r. pc_op_id r = oid \<and> pc_state r = Op_Running"
    obtain r2 where r2: "row_with pc_op_id oid (j_capsule_operations db2) = Some r2"
      "pc_state r2 = st" "row2 = capsule_op_row_from r2"
      using fin orow r
      by (auto simp: finish_capsule_op_def Let_def get_capsule_op_def row_with_sql_update)
    have "schema_ok db2" using schema_ok_finish_capsule_op [OF schema1 fin] .
    hence "sql_changed ?p (j_capsule_operations db2) = 0"
      using sql_changed_key_row [of pc_op_id "j_capsule_operations db2" oid] r2 st
      by (simp add: schema_ok_def)
    hence "j_capsule_operations_update (sql_update ?p f) db2 = db2" for f
      by (cases db2) (simp add: sql_update_none)
    thus ?thesis using r2 by (simp add: finish_capsule_op_def get_capsule_op_def capsule_op_row_from_def)
  qed
  with replay show ?thesis by blast
qed

theorem capsule_key_binds_once_witness:
  "\<exists>row db1. begin_capsule_op empty_journal ''o1'' ''export'' ''r'' ''k'' 1 = Inr (Started row, db1)
     \<and> begin_capsule_op db1 ''o2'' ''import'' ''r'' ''k'' 2 = Inr (Mismatch row, db1)"
proof -
  obtain row db1 where b: "begin_capsule_op empty_journal ''o1'' ''export'' ''r'' ''k'' 1
      = Inr (Started row, db1)"
    by (simp add: begin_capsule_op_def Let_def empty_journal_def has_key_def)
  from capsule_key_binds_once [OF schema_ok_empty b, of "''o2''" "''import''" "''r''" 2] b
  show ?thesis by auto
qed

end
