(* ===== verification/Journal_Events.thy ===== *)
theory Journal_Events
  imports Journal_Operations
begin

text \<open>
  \<open>db.rs\<close> and \<open>service.rs\<close>, the event journal: appending under an autoincrement
  cursor, reading pages after a cursor, retention with a persisted floor, and the
  paged replay of \<open>WatchEvents\<close>.

  The table is kept in cursor order, which is insertion order; \<open>sort_key\<close> stands
  for \<open>ORDER BY cursor\<close>.
\<close>

section \<open>Statements\<close>

text \<open>\<open>LIMIT n\<close>: a negative limit is no limit.\<close>

definition sql_limit :: "int \<Rightarrow> 'a list \<Rightarrow> 'a list" where
  "sql_limit n xs = (if n < 0 then xs else take (nat n) xs)"

definition insert_event :: "journal \<Rightarrow> pb_event \<Rightarrow> ms \<Rightarrow> int \<times> journal" where
  "insert_event db ev now =
    (let cursor = j_event_seq db + 1
     in (as_u64 cursor,
         j_event_seq_update (\<lambda>_. cursor)
          (j_events_update (\<lambda>t. t @
           [\<lparr>ec_cursor = cursor, ec_type = pe_type ev, ec_instance_id = pe_instance_id ev,
             ec_op_id = pe_op_id ev, ec_state = pe_state ev, ec_message = pe_message ev,
             ec_at_ms = now, ec_stop_requested = map_option rs_requested (pe_stop_reason ev),
             ec_stop_exit_code = Option.bind (pe_stop_reason ev) rs_exit_code,
             ec_stop_detail = map_option rs_detail (pe_stop_reason ev)\<rparr>]) db)))"

definition min_cursor :: "events_row list \<Rightarrow> int option" where
  "min_cursor t = (if t = [] then None else Some (Min (ec_cursor ` set t)))"

definition max_cursor :: "events_row list \<Rightarrow> int option" where
  "max_cursor t = (if t = [] then None else Some (Max (ec_cursor ` set t)))"

definition journal_floor :: "journal \<Rightarrow> int" where
  "journal_floor db =
     (case min_cursor (j_events db) of
        Some m \<Rightarrow> as_u64 (max (m - 1) 0)
      | None \<Rightarrow> as_u64 (j_last_pruned_cursor db))"

definition prune_events :: "journal \<Rightarrow> ms \<Rightarrow> int \<Rightarrow> nat \<times> journal" where
  "prune_events db older_than chunk =
    (case max_cursor (sql_limit (as_i64 chunk)
            (sort_key ec_cursor (filter (\<lambda>r. ec_at_ms r < older_than) (j_events db)))) of
       None \<Rightarrow> (0, db)
     | Some highest \<Rightarrow>
         (let p = (\<lambda>r. ec_at_ms r < older_than \<and> ec_cursor r \<le> highest)
          in (sql_changed p (j_events db),
              j_last_pruned_cursor_update (\<lambda>c. max c highest)
                (j_events_update (sql_delete p) db))))"

definition head_cursor :: "journal \<Rightarrow> int" where
  "head_cursor db = as_u64 (case max_cursor (j_events db) of Some m \<Rightarrow> m | None \<Rightarrow> 0)"

definition event_from :: "events_row \<Rightarrow> pb_event" where
  "event_from r =
     \<lparr>pe_cursor = as_u64 (ec_cursor r), pe_type = ec_type r, pe_instance_id = ec_instance_id r,
      pe_op_id = ec_op_id r, pe_state = ec_state r, pe_message = ec_message r,
      pe_at = Some (ts (ec_at_ms r)),
      pe_stop_reason =
        stop_reason_from (ec_stop_requested r) (ec_stop_exit_code r) (ec_stop_detail r)\<rparr>"

definition events_after :: "journal \<Rightarrow> int \<Rightarrow> instance_id \<Rightarrow> nat \<Rightarrow> pb_event list" where
  "events_after db cursor iid limit =
     map event_from
       (sql_limit (if limit = 0 then - 1 else as_i64 (int limit))
          (sort_key ec_cursor
             (filter (\<lambda>r. as_i64 cursor < ec_cursor r \<and> (iid = [] \<or> ec_instance_id r = iid))
                (j_events db))))"

section \<open>The paged replay of a subscription\<close>

definition EVENT_PAGE :: nat where
  "EVENT_PAGE = 256"

text \<open>
  One turn of \<open>replay_journal\<close> is one page.  \<open>fuel\<close> bounds the turns: with a fixed
  journal each full page moves the cursor past at least one event, so one turn more
  than there are events is enough, and that is what the lemmas below show.
\<close>

fun replay_journal :: "nat \<Rightarrow> journal \<Rightarrow> int \<Rightarrow> instance_id \<Rightarrow> (pb_event list \<times> int) option" where
  "replay_journal 0 db last_seen iid = None"
| "replay_journal (Suc fuel) db last_seen iid =
    (let page = events_after db last_seen iid EVENT_PAGE;
         last' = (if page = [] then last_seen else pe_cursor (last page))
     in if length page < EVENT_PAGE then Some (page, last')
        else (case replay_journal fuel db last' iid of
                None \<Rightarrow> None
              | Some (rest, l) \<Rightarrow> Some (page @ rest, l)))"

section \<open>Invariant\<close>

text \<open>
  Cursors ascend, stay within what was handed out and within the signed range, and
  whatever lies above the persisted floor has not been deleted unless it is counted.
\<close>

definition events_ok :: "journal \<Rightarrow> bool" where
  "events_ok db \<longleftrightarrow>
     sorted_wrt (<) (map ec_cursor (j_events db))
   \<and> (\<forall>r \<in> set (j_events db). 0 < ec_cursor r \<and> ec_cursor r \<le> j_event_seq db)
   \<and> 0 \<le> j_last_pruned_cursor db \<and> j_last_pruned_cursor db \<le> j_event_seq db
   \<and> j_event_seq db \<le> i64_max"

text \<open>The clock never stepped backwards between two recorded events.\<close>

definition clock_monotone :: "journal \<Rightarrow> bool" where
  "clock_monotone db \<longleftrightarrow> sorted (map ec_at_ms (j_events db))"

text \<open>Nothing is missing between the floor and the newest cursor.\<close>

definition no_hole_above_floor :: "journal \<Rightarrow> bool" where
  "no_hole_above_floor db \<longleftrightarrow>
     ec_cursor ` set (j_events db) = {journal_floor db + 1 .. j_event_seq db}"

text \<open>\<open>watch_events\<close>: where a subscription starts, or that its cursor is too old.\<close>

definition watch_anchor :: "journal \<Rightarrow> int \<Rightarrow> error_reason + int" where
  "watch_anchor db from_cursor =
     (if from_cursor = 0 then Inr (head_cursor db)
      else if from_cursor < journal_floor db then Inl ER_CursorTooOld
      else Inr from_cursor)"

text \<open>The rows a subscription still has to see.\<close>

definition pending :: "journal \<Rightarrow> int \<Rightarrow> instance_id \<Rightarrow> events_row list" where
  "pending db c iid =
     filter (\<lambda>r. c < ec_cursor r \<and> (iid = [] \<or> ec_instance_id r = iid)) (j_events db)"

section \<open>Reading\<close>

lemma events_ok_sorted: "events_ok db \<Longrightarrow> sorted (map ec_cursor (filter p (j_events db)))"
  by (auto simp: events_ok_def sorted_wrt_map intro!: sorted_wrt_filter
      elim: sorted_wrt_mono_rel [rotated])

lemma sort_events [simp]:
  "events_ok db \<Longrightarrow> sort_key ec_cursor (filter p (j_events db)) = filter p (j_events db)"
  by (simp add: events_ok_sorted sort_key_id_if_sorted)

lemma events_ok_range:
  assumes "events_ok db" "r \<in> set (j_events db)"
  shows "in_i64 (ec_cursor r)" "in_u64 (ec_cursor r)" "0 < ec_cursor r"
  using assms by (auto simp: events_ok_def machine_defs)

lemma events_after_unlimited:
  "events_ok db \<Longrightarrow> in_i64 c \<Longrightarrow> events_after db c iid 0 =
     map event_from (filter (\<lambda>r. c < ec_cursor r \<and> (iid = [] \<or> ec_instance_id r = iid)) (j_events db))"
  by (simp add: events_after_def sql_limit_def)

lemma events_after_page:
  "events_ok db \<Longrightarrow> in_i64 c \<Longrightarrow> 0 < n \<Longrightarrow> int n \<le> i64_max \<Longrightarrow>
     events_after db c iid n = take n (events_after db c iid 0)"
  by (simp add: events_after_def sql_limit_def take_map in_i64_def i64_min_def)

lemma pe_cursor_event_from:
  "events_ok db \<Longrightarrow> r \<in> set (j_events db) \<Longrightarrow> pe_cursor (event_from r) = ec_cursor r"
  by (simp add: event_from_def events_ok_range)

lemma filter_after_prefix:
  fixes f :: "'a \<Rightarrow> int"
  assumes "sorted_wrt (<) (map f (ys @ zs))" and "ys \<noteq> []"
  shows "filter (\<lambda>r. f (last ys) < f r) (ys @ zs) = zs"
proof -
  obtain us u where ys: "ys = us @ [u]" using assms(2) by (meson rev_exhaust)
  have "\<forall>r \<in> set ys. \<not> f u < f r" and "\<forall>r \<in> set zs. f u < f r"
    using assms(1) by (auto simp: ys sorted_wrt_append)
  thus ?thesis by (simp add: ys filter_empty_conv filter_id_conv)
qed

lemma pending_sorted: "events_ok db \<Longrightarrow> sorted_wrt (<) (map ec_cursor (pending db c iid))"
  by (auto simp: pending_def events_ok_def sorted_wrt_map intro!: sorted_wrt_filter)

lemma pending_subset: "set (pending db c iid) \<subseteq> set (j_events db)"
  by (auto simp: pending_def)

lemma pending_after:
  "c \<le> c' \<Longrightarrow> pending db c' iid = filter (\<lambda>r. c' < ec_cursor r) (pending db c iid)"
  by (auto simp: pending_def filter_filter intro!: filter_cong)

lemma events_after_pending:
  "events_ok db \<Longrightarrow> in_i64 c \<Longrightarrow> events_after db c iid 0 = map event_from (pending db c iid)"
  by (simp add: events_after_unlimited pending_def)

lemma last_take_nth:
  assumes "0 < n" "n \<le> length xs"
  shows "take n xs \<noteq> []" "last (take n xs) = xs ! (n - 1)"
proof -
  show "take n xs \<noteq> []" using assms by auto
  thus "last (take n xs) = xs ! (n - 1)" using assms by (simp add: last_conv_nth min_def)
qed

lemma pending_drop:
  assumes "events_ok db" and "0 < n" "n \<le> length (pending db c iid)"
  shows "pending db (ec_cursor (pending db c iid ! (n - 1))) iid = drop n (pending db c iid)"
proof -
  let ?xs = "pending db c iid"
  note t = last_take_nth [OF assms(2,3)]
  have "?xs ! (n - 1) \<in> set ?xs" using assms(2,3) by simp
  hence "c \<le> ec_cursor (?xs ! (n - 1))" by (auto simp: pending_def)
  hence "pending db (ec_cursor (?xs ! (n - 1))) iid
         = filter (\<lambda>r. ec_cursor (last (take n ?xs)) < ec_cursor r) (take n ?xs @ drop n ?xs)"
    by (simp add: pending_after t(2))
  also have "\<dots> = drop n ?xs"
    using pending_sorted [OF assms(1)] t(1) by (intro filter_after_prefix) simp_all
  finally show ?thesis .
qed

lemma replay_journal_complete:
  assumes "events_ok db"
  shows "in_i64 c \<Longrightarrow> length (pending db c iid) < fuel \<Longrightarrow>
    replay_journal fuel db c iid =
      Some (events_after db c iid 0,
            if pending db c iid = [] then c else ec_cursor (last (pending db c iid)))"
proof (induction fuel arbitrary: c)
  case (Suc fuel)
  let ?xs = "pending db c iid"
  have page: "events_after db c iid EVENT_PAGE = take EVENT_PAGE (map event_from ?xs)"
    using events_after_page [OF assms Suc.prems(1), of EVENT_PAGE iid]
    by (simp add: events_after_pending assms Suc.prems(1) EVENT_PAGE_def i64_max_def)
  have cur: "r \<in> set ?xs \<Longrightarrow> pe_cursor (event_from r) = ec_cursor r \<and> in_i64 (ec_cursor r)" for r
    using assms pending_subset events_ok_range(1) pe_cursor_event_from by blast
  show ?case
  proof (cases "length ?xs < EVENT_PAGE")
    case True
    hence "events_after db c iid EVENT_PAGE = map event_from ?xs" by (simp add: page)
    thus ?thesis using True cur by (simp add: events_after_pending assms Suc.prems(1) last_map)
  next
    case False
    let ?c = "ec_cursor (?xs ! (EVENT_PAGE - 1))"
    have n: "0 < EVENT_PAGE" "EVENT_PAGE \<le> length ?xs"
      using False by (simp_all add: EVENT_PAGE_def)
    have ne: "?xs \<noteq> []" using n by auto
    have mem: "?xs ! (EVENT_PAGE - 1) \<in> set ?xs" using n by simp
    have lastp: "pe_cursor (last (events_after db c iid EVENT_PAGE)) = ?c"
      using last_take_nth [OF n] cur [OF mem] by (simp add: page take_map last_map)
    have rest: "pending db ?c iid = drop EVENT_PAGE ?xs"
      by (rule pending_drop [OF assms n])
    have "length (pending db ?c iid) < fuel" unfolding rest using Suc.prems(2) n by simp
    hence "replay_journal fuel db ?c iid =
      Some (events_after db ?c iid 0,
            if pending db ?c iid = [] then ?c else ec_cursor (last (pending db ?c iid)))"
      using cur [OF mem] by (intro Suc.IH) simp_all
    moreover have "events_after db c iid 0 = events_after db c iid EVENT_PAGE @ events_after db ?c iid 0"
      using events_after_pending [OF assms, of ?c iid] cur [OF mem]
      by (simp only: rest page events_after_pending [OF assms Suc.prems(1)])
        (simp flip: take_map drop_map)
    moreover have "ec_cursor (last ?xs) = (if drop EVENT_PAGE ?xs = [] then ?c
                                            else ec_cursor (last (drop EVENT_PAGE ?xs)))"
      using n ne by (auto simp: last_conv_nth)
    moreover have "length (events_after db c iid EVENT_PAGE) = EVENT_PAGE" "?xs \<noteq> []"
      "events_after db c iid EVENT_PAGE \<noteq> []"
      using n by (auto simp: page)
    ultimately show ?thesis by (simp only: replay_journal.simps Let_def lastp rest if_False) simp
  qed
qed simp

section \<open>Retention\<close>

lemma sorted_prefix_select:
  fixes f :: "'a \<Rightarrow> int"
  assumes "sorted_wrt (<) (map f xs)" and "filter q xs = gone @ rest" and "gone \<noteq> []"
  shows "filter (\<lambda>r. q r \<and> f r \<le> f (last gone)) xs = gone"
    and "Max (f ` set gone) = f (last gone)"
    and "filter (\<lambda>r. \<not> (q r \<and> f r \<le> f (last gone))) xs = filter (\<lambda>r. r \<notin> set gone) xs"
proof -
  obtain us u where gone: "gone = us @ [u]" using assms(3) by (meson rev_exhaust)
  have "sorted_wrt (\<lambda>a b. f a < f b) xs" using assms(1) by (simp add: sorted_wrt_map)
  hence "sorted_wrt (\<lambda>a b. f a < f b) (filter q xs)" by (rule sorted_wrt_filter)
  hence asc: "\<forall>x \<in> set us. f x < f u" "\<forall>x \<in> set rest. f u < f x"
    by (auto simp: assms(2) gone sorted_wrt_append)
  have "filter (\<lambda>r. q r \<and> f r \<le> f (last gone)) xs = filter (\<lambda>r. f r \<le> f u) (filter q xs)"
    by (simp add: gone conj_commute)
  also have "\<dots> = gone"
    using asc by (auto simp: assms(2) gone filter_id_conv filter_empty_conv not_le intro: less_imp_le)
  finally show sel: "filter (\<lambda>r. q r \<and> f r \<le> f (last gone)) xs = gone" .
  show "Max (f ` set gone) = f (last gone)"
    using asc by (intro Max_eqI) (auto simp: gone intro: less_imp_le)
  have "set gone = {r \<in> set xs. q r \<and> f r \<le> f (last gone)}"
    using arg_cong [OF sel, of set] by simp
  thus "filter (\<lambda>r. \<not> (q r \<and> f r \<le> f (last gone))) xs = filter (\<lambda>r. r \<notin> set gone) xs"
    by (intro filter_cong [OF refl]) blast
qed

text \<open>The rows one pass of retention removes: the first \<open>chunk\<close> of those that are old enough.\<close>

lemma prune_events_eq:
  fixes db :: journal and t chunk :: int
  assumes "events_ok db" and "in_i64 chunk" "0 < chunk"
  defines "old \<equiv> filter (\<lambda>r. ec_at_ms r < t) (j_events db)"
  defines "gone \<equiv> take (nat chunk) old"
  shows "prune_events db t chunk =
     (if old = [] then (0, db)
      else (length gone,
            j_last_pruned_cursor_update (\<lambda>c. max c (ec_cursor (last gone)))
              (j_events_update (filter (\<lambda>r. r \<notin> set gone)) db)))"
proof (cases "old = []")
  case True
  thus ?thesis using assms(1-3)
    by (simp add: prune_events_def max_cursor_def sql_limit_def old_def)
next
  case False
  hence ne: "gone \<noteq> []" using assms(3) by (simp add: gone_def)
  have parts: "filter (\<lambda>r. ec_at_ms r < t) (j_events db) = gone @ drop (nat chunk) old"
    by (simp add: gone_def old_def)
  have asc: "sorted_wrt (<) (map ec_cursor (j_events db))" using assms(1) by (simp add: events_ok_def)
  note sel = sorted_prefix_select [OF asc parts ne]
  have "sql_limit (as_i64 chunk) (sort_key ec_cursor old) = gone"
    using assms(1-3) by (simp add: sql_limit_def gone_def old_def)
  hence "max_cursor (sql_limit (as_i64 chunk) (sort_key ec_cursor old)) = Some (ec_cursor (last gone))"
    using ne sel(2) by (simp add: max_cursor_def)
  hence "prune_events db t chunk =
     (let p = (\<lambda>r. ec_at_ms r < t \<and> ec_cursor r \<le> ec_cursor (last gone))
      in (sql_changed p (j_events db),
          j_last_pruned_cursor_update (\<lambda>c. max c (ec_cursor (last gone)))
            (j_events_update (sql_delete p) db)))"
    by (simp add: prune_events_def old_def)
  moreover have "j_events_update (filter (\<lambda>r. \<not> (ec_at_ms r < t \<and> ec_cursor r \<le> ec_cursor (last gone)))) db
                 = j_events_update (filter (\<lambda>r. r \<notin> set gone)) db"
    using sel(3) by (cases db) simp
  ultimately show ?thesis using False sel(1)
    by (simp add: sql_changed_def sql_delete_def [abs_def] Let_def)
qed

lemma events_ok_empty: "events_ok empty_journal"
  by (simp add: events_ok_def empty_journal_def i64_max_def)

lemma events_ok_insert_event [journal_intros]:
  assumes "events_ok db" and "j_event_seq db < i64_max"
  shows "events_ok (snd (insert_event db ev now))"
  using assms by (force simp: events_ok_def insert_event_def Let_def sorted_wrt_append)

lemma events_ok_prune_events [journal_intros]:
  assumes "events_ok db" and "in_i64 chunk" "0 < chunk"
  shows "events_ok (snd (prune_events db t chunk))"
proof -
  let ?old = "filter (\<lambda>r. ec_at_ms r < t) (j_events db)"
  let ?gone = "take (nat chunk) ?old"
  have "last ?gone \<in> set (j_events db)" if "?old \<noteq> []"
  proof -
    have "?gone \<noteq> []" using that assms(3) by simp
    hence "last ?gone \<in> set ?gone" by (rule last_in_set)
    thus ?thesis using set_take_subset [of "nat chunk" ?old] by auto
  qed
  thus ?thesis
    using assms(1) unfolding prune_events_eq [OF assms]
    by (auto simp: events_ok_def sorted_wrt_map intro: sorted_wrt_filter)
qed

lemma min_cursor_head:
  assumes "sorted_wrt (<) (map ec_cursor (r # t))"
  shows "min_cursor (r # t) = Some (ec_cursor r)"
  using assms by (auto simp: min_cursor_def intro!: Min_eqI intro: less_imp_le)

lemma journal_floor_Cons:
  assumes "events_ok db" and "j_events db = r # t"
  shows "journal_floor db = ec_cursor r - 1"
  using assms min_cursor_head [of r t]
  by (simp add: journal_floor_def events_ok_def machine_defs)

lemma journal_floor_Nil:
  "events_ok db \<Longrightarrow> j_events db = [] \<Longrightarrow> journal_floor db = j_last_pruned_cursor db"
  by (simp add: journal_floor_def min_cursor_def events_ok_def machine_defs)

text \<open>A table with no hole is a run of consecutive cursors, and conversely.\<close>

lemma consecutive_cursors:
  assumes "sorted_wrt (<) (map ec_cursor t)" and "ec_cursor ` set t = {a + 1 .. b}" and "a \<le> b"
  shows "map ec_cursor t = [a + 1 .. b]"
  using assms by (intro sorted_distinct_set_unique) (auto simp: strict_sorted_iff)

lemma old_is_prefix:
  assumes "clock_monotone db"
  shows "filter (\<lambda>r. ec_at_ms r < t) (j_events db) = takeWhile (\<lambda>r. ec_at_ms r < t) (j_events db)"
proof -
  have "sorted (map ec_at_ms xs) \<Longrightarrow> filter (\<lambda>r. ec_at_ms r < t) xs = takeWhile (\<lambda>r. ec_at_ms r < t) xs" for xs
  proof (induction xs)
    case (Cons a xs)
    show ?case
    proof (cases "ec_at_ms a < t")
      case False
      hence "\<forall>x \<in> set xs. \<not> ec_at_ms x < t" using Cons.prems by fastforce
      thus ?thesis using False by (simp add: filter_empty_conv)
    qed (use Cons in simp)
  qed simp
  thus ?thesis using assms by (simp add: clock_monotone_def)
qed

lemma prune_drops_prefix:
  fixes t :: ms
  assumes "events_ok db" "in_i64 chunk" "0 < chunk" "clock_monotone db"
  defines "k \<equiv> fst (prune_events db t chunk)"
  shows "j_events (snd (prune_events db t chunk)) = drop k (j_events db)"
    and "k \<le> length (j_events db)"
    and "0 < k \<Longrightarrow> j_last_pruned_cursor (snd (prune_events db t chunk))
           = max (j_last_pruned_cursor db) (ec_cursor (j_events db ! (k - 1)))"
    and "k = 0 \<Longrightarrow> snd (prune_events db t chunk) = db"
proof -
  let ?ev = "j_events db"
  let ?old = "filter (\<lambda>r. ec_at_ms r < t) ?ev"
  let ?gone = "take (nat chunk) ?old"
  note eq = prune_events_eq [OF assms(1-3), of t]
  obtain rest where ev: "?ev = ?gone @ rest"
    using old_is_prefix [OF assms(4), of t] takeWhile_dropWhile_id append_take_drop_id
    by (metis append.assoc)
  have k: "k = length ?gone" unfolding k_def by (simp only: eq) simp
  have dist: "distinct ?ev"
    using assms(1) by (simp add: events_ok_def strict_sorted_iff distinct_map)
  have keep: "filter (\<lambda>r. r \<notin> set ?gone) ?ev = rest"
  proof -
    have "distinct (?gone @ rest)" using dist ev by metis
    hence "filter (\<lambda>r. r \<notin> set ?gone) (?gone @ rest) = rest"
      by (simp add: filter_empty_conv filter_id_conv) blast
    thus ?thesis using ev by metis
  qed
  have dropk: "drop k ?ev = rest" unfolding k using ev by (metis append_eq_conv_conj)
  show "k \<le> length ?ev" unfolding k by (simp add: min.coboundedI1)
  show "j_events (snd (prune_events db t chunk)) = drop k ?ev"
  proof (cases "?old = []")
    case True thus ?thesis by (simp add: eq k)
  next
    case False thus ?thesis using keep dropk by (simp add: eq)
  qed
  show "snd (prune_events db t chunk) = db" if "k = 0"
  proof -
    have "?old = []" using that assms(3) unfolding k by (simp add: min_def split: if_splits)
    thus ?thesis by (simp add: eq)
  qed
  show "j_last_pruned_cursor (snd (prune_events db t chunk))
           = max (j_last_pruned_cursor db) (ec_cursor (?ev ! (k - 1)))" if "0 < k"
  proof -
    have ne: "?gone \<noteq> []" using that k by auto
    have "last ?gone = ?ev ! (k - 1)"
      using ev ne that unfolding k by (metis last_conv_nth nth_append length_greater_0_conv diff_less zero_less_one)
    thus ?thesis using ne by (auto simp: eq)
  qed
qed

section \<open>The life of the event journal\<close>

text \<open>
  Every write the event tables see: an event recorded at a time no earlier than the
  last one, and a retention sweep.
\<close>

inductive event_history :: "journal \<Rightarrow> bool" where
  history_empty: "event_history empty_journal"
| history_insert: "event_history db \<Longrightarrow> j_event_seq db < i64_max \<Longrightarrow>
     \<forall>r \<in> set (j_events db). ec_at_ms r \<le> now \<Longrightarrow> event_history (snd (insert_event db ev now))"
| history_prune: "event_history db \<Longrightarrow> in_i64 chunk \<Longrightarrow> 0 < chunk \<Longrightarrow>
     event_history (snd (prune_events db t chunk))"

text \<open>The table as the run of cursors from the floor to the newest.\<close>

definition cursors_from :: "int \<Rightarrow> journal \<Rightarrow> bool" where
  "cursors_from f db \<longleftrightarrow> map ec_cursor (j_events db) = [f + 1 .. j_event_seq db] \<and> f \<le> j_event_seq db"

lemma upto_drop: "drop k [a + 1 .. b] = [a + int k + 1 .. b]"
proof (induction k arbitrary: a)
  case (Suc k)
  show ?case
  proof (cases "a + 1 \<le> b")
    case True
    hence "drop (Suc k) [a + 1 .. b] = drop k [(a + 1) + 1 .. b]"
      by (subst upto.simps) simp
    also have "\<dots> = [(a + 1) + int k + 1 .. b]" by (rule Suc)
    finally show ?thesis by (simp add: add_ac)
  qed simp
qed simp

lemma cursors_from_floor:
  assumes "events_ok db" "cursors_from f db" "j_events db = [] \<longrightarrow> j_last_pruned_cursor db = f"
  shows "journal_floor db = f"
proof (cases "j_events db")
  case Nil
  thus ?thesis using assms journal_floor_Nil by simp
next
  case (Cons r t)
  hence "ec_cursor r = f + 1"
    using assms(2) by (auto simp: cursors_from_def upto.simps [of "f + 1"] split: if_splits)
  thus ?thesis using journal_floor_Cons [OF assms(1) Cons] by simp
qed

lemma cursors_from_prune:
  fixes t :: ms
  assumes "events_ok db" "in_i64 chunk" "0 < chunk" "clock_monotone db"
    and "cursors_from f db" "j_last_pruned_cursor db = f"
  defines "k \<equiv> int (fst (prune_events db t chunk))"
  shows "cursors_from (f + k) (snd (prune_events db t chunk))
       \<and> j_last_pruned_cursor (snd (prune_events db t chunk)) = f + k"
proof -
  note dr = prune_drops_prefix [OF assms(1-4), of t]
  have seq: "j_event_seq (snd (prune_events db t chunk)) = j_event_seq db"
    by (simp add: prune_events_def Let_def split: option.splits)
  have len: "int (length (j_events db)) = j_event_seq db - f"
  proof -
    have "length (j_events db) = length [f + 1 .. j_event_seq db]"
      using assms(5) length_map [of ec_cursor "j_events db"] unfolding cursors_from_def by metis
    thus ?thesis using assms(5) unfolding cursors_from_def by simp
  qed
  have cur: "map ec_cursor (j_events (snd (prune_events db t chunk))) = [f + k + 1 .. j_event_seq db]"
    using assms(5) upto_drop [of _ f] unfolding dr(1) k_def cursors_from_def by (metis drop_map)
  have "j_last_pruned_cursor (snd (prune_events db t chunk)) = f + k"
  proof (cases "fst (prune_events db t chunk) = 0")
    case True thus ?thesis using dr(4) assms(6) by (simp add: k_def)
  next
    case False
    let ?n = "fst (prune_events db t chunk)"
    have lt: "?n - 1 < length (j_events db)" using False dr(2) by linarith
    hence "ec_cursor (j_events db ! (?n - 1)) = [f + 1 .. j_event_seq db] ! (?n - 1)"
      using assms(5) nth_map [OF lt, of ec_cursor] unfolding cursors_from_def by (metis (no_types))
    also have "\<dots> = f + 1 + int (?n - 1)" using lt len by (intro nth_upto) linarith
    finally show ?thesis using False dr(3) assms(6) by (simp add: k_def)
  qed
  thus ?thesis using cur seq len dr(2) unfolding cursors_from_def k_def by simp
qed

lemma event_history_ok:
  assumes "event_history db"
  shows "events_ok db \<and> clock_monotone db \<and> cursors_from (j_last_pruned_cursor db) db"
  using assms
proof (induction rule: event_history.induct)
  case history_empty
  show ?case
    using events_ok_empty by (simp add: clock_monotone_def cursors_from_def empty_journal_def)
next
  case (history_insert db now ev)
  have "clock_monotone (snd (insert_event db ev now))"
    using history_insert by (auto simp: clock_monotone_def insert_event_def Let_def sorted_append)
  moreover have "cursors_from (j_last_pruned_cursor db) (snd (insert_event db ev now))"
    using history_insert by (auto simp: cursors_from_def insert_event_def Let_def upto_rec2)
  ultimately show ?case
    using history_insert events_ok_insert_event by (simp add: insert_event_def Let_def)
next
  case (history_prune db chunk t)
  have "clock_monotone (snd (prune_events db t chunk))"
    using history_prune prune_drops_prefix(1) [of db chunk t]
    by (simp add: clock_monotone_def sorted_wrt_drop flip: drop_map)
  thus ?case
    using history_prune events_ok_prune_events cursors_from_prune [of db chunk _ t] by metis
qed

lemma pending_all: "events_ok db \<Longrightarrow> in_i64 c \<Longrightarrow> events_after db c [] 0 = map event_from (pending db c [])"
  by (simp add: events_after_unlimited pending_def)

lemma pending_cursors:
  assumes "cursors_from f db" "f \<le> c" "c \<le> j_event_seq db"
  shows "map ec_cursor (pending db c []) = [c + 1 .. j_event_seq db]"
proof -
  have "map ec_cursor (pending db c []) = filter (\<lambda>x. c < x) (map ec_cursor (j_events db))"
    by (simp add: pending_def filter_map comp_def)
  also have "\<dots> = filter (\<lambda>x. c < x) ([f + 1 .. c] @ [c + 1 .. j_event_seq db])"
    using assms upto_split2 [of "f + 1" c "j_event_seq db"]
    by (cases "f = c") (simp_all only: cursors_from_def, simp_all)
  also have "\<dots> = [c + 1 .. j_event_seq db]"
    by (simp add: filter_empty_conv filter_id_conv)
  finally show ?thesis .
qed

section \<open>Properties\<close>

text \<open>
  A retention sweep deletes exactly the oldest events that are past their age,
  at most \<open>chunk\<close> of them, in cursor order, keeps every other event as it was, and
  raises the persisted floor to the newest cursor it deleted.
\<close>

theorem prune_events_exact:
  fixes t :: ms
  assumes "events_ok db" and "in_i64 chunk" "0 < chunk"
  defines "old \<equiv> filter (\<lambda>r. ec_at_ms r < t) (j_events db)"
  defines "gone \<equiv> take (nat chunk) old"
  shows "(case prune_events db t chunk of (n, db') \<Rightarrow>
     int n = min (int (length old)) chunk
   \<and> j_events db' = filter (\<lambda>r. r \<notin> set gone) (j_events db)
   \<and> (\<forall>r \<in> set gone. ec_cursor r \<le> j_last_pruned_cursor db')
   \<and> db' = db\<lparr>j_events := j_events db', j_last_pruned_cursor := j_last_pruned_cursor db'\<rparr>
   \<and> events_ok db')"
proof -
  have srt: "sorted (map ec_cursor gone)"
    using events_ok_sorted [OF assms(1)] sorted_wrt_take [of "(\<le>)"]
    unfolding gone_def old_def by (metis take_map)
  have top: "\<forall>r \<in> set gone. ec_cursor r \<le> ec_cursor (last gone)" if "gone \<noteq> []"
  proof -
    have "gone = butlast gone @ [last gone]" using that by simp
    hence "sorted (map ec_cursor (butlast gone @ [last gone]))" using srt by metis
    hence "\<forall>r \<in> set (butlast gone @ [last gone]). ec_cursor r \<le> ec_cursor (last gone)"
      by (auto simp: sorted_append)
    thus ?thesis using that by simp
  qed
  have ok: "events_ok (snd (prune_events db t chunk))"
    using assms(1-3) by (rule events_ok_prune_events)
  have eq: "prune_events db t chunk =
     (if old = [] then (0, db)
      else (length gone,
            j_last_pruned_cursor_update (\<lambda>c. max c (ec_cursor (last gone)))
              (j_events_update (filter (\<lambda>r. r \<notin> set gone)) db)))"
    unfolding gone_def old_def using assms(1-3) by (rule prune_events_eq)
  show ?thesis
  proof (cases "old = []")
    case True
    thus ?thesis using eq ok assms(3) by (simp add: gone_def)
  next
    case False
    hence "gone \<noteq> []" using assms(3) by (simp add: gone_def)
    moreover have "int (length gone) = min (int (length old)) chunk"
      using assms(3) by (simp add: gone_def)
    ultimately show ?thesis using False eq ok top by (auto simp: max.coboundedI2)
  qed
qed

theorem prune_events_exact_witness:
  "case prune_events (snd (insert_event empty_journal default_event 5)) 9 1000 of
     (n, db') \<Rightarrow> n = 1 \<and> j_events db' = [] \<and> events_ok db'"
proof -
  have "events_ok (snd (insert_event empty_journal default_event 5))"
    by (rule events_ok_insert_event [OF events_ok_empty]) (simp add: empty_journal_def i64_max_def)
  from prune_events_exact [OF this, of 1000 9] show ?thesis
    by (simp add: insert_event_def Let_def empty_journal_def machine_defs split: prod.splits)
qed



text \<open>
  Without a monotone clock the floor is not honest.  The second of three events
  is stamped by a clock that stepped back, the sweep deletes it alone, and a watcher
  resuming after cursor 1 is accepted and replayed cursor 3 only.
\<close>

theorem clock_step_hides_a_hole:
  "let db1 = snd (insert_event empty_journal default_event 100);
       db2 = snd (insert_event db1 default_event 50);
       db3 = snd (insert_event db2 default_event 100);
       db = snd (prune_events db3 60 1000)
   in watch_anchor db 1 = Inr 1
      \<and> map_option (\<lambda>(evs, l). (map pe_cursor evs, l)) (replay_journal 1 db 1 []) = Some ([3], 3)"
  by code_simp

end
