(* ===== verification/Journal_Leases.thy ===== *)
theory Journal_Leases
  imports Journal_Operations
begin

text \<open>
  \<open>db.rs\<close>, the table \<open>fleet_leases\<close>: the names this node holds, as its journal
  remembers them across a restart.
\<close>

section \<open>Statements\<close>

record HeldLeaseRow =
  hl_name :: string
  hl_epoch :: int
  hl_instance_id :: string
  hl_fencing :: bool

definition hold_lease :: "journal \<Rightarrow> string \<Rightarrow> int \<Rightarrow> string \<Rightarrow> ms \<Rightarrow> journal" where
  "hold_lease db name epoch iid now =
     j_fleet_leases_update (\<lambda>t.
       if has_key fl_name name t
       then sql_update (\<lambda>r. fl_name r = name)
              (\<lambda>r. r\<lparr>fl_epoch := as_i64 epoch, fl_instance_id := iid\<rparr>) t
       else t @ [\<lparr>fl_name = name, fl_epoch = as_i64 epoch, fl_instance_id = iid,
                  fl_fencing = False, fl_acquired_at_ms = now\<rparr>]) db"

definition set_lease_instance :: "journal \<Rightarrow> string \<Rightarrow> string \<Rightarrow> journal" where
  "set_lease_instance db name iid =
     j_fleet_leases_update
       (sql_update (\<lambda>r. fl_name r = name) (\<lambda>r. r\<lparr>fl_instance_id := iid\<rparr>)) db"

definition mark_lease_fencing :: "journal \<Rightarrow> string \<Rightarrow> journal" where
  "mark_lease_fencing db name =
     j_fleet_leases_update
       (sql_update (\<lambda>r. fl_name r = name) (\<lambda>r. r\<lparr>fl_fencing := True\<rparr>)) db"

definition release_lease :: "journal \<Rightarrow> string \<Rightarrow> journal" where
  "release_lease db name =
     j_fleet_leases_update (sql_delete (\<lambda>r. fl_name r = name)) db"

definition held_lease_from :: "fleet_leases_row \<Rightarrow> HeldLeaseRow" where
  "held_lease_from r = \<lparr>hl_name = fl_name r, hl_epoch = as_u64 (fl_epoch r),
     hl_instance_id = fl_instance_id r, hl_fencing = fl_fencing r\<rparr>"

definition held_leases :: "journal \<Rightarrow> HeldLeaseRow list" where
  "held_leases db = map held_lease_from (sort_key fl_name (j_fleet_leases db))"

text \<open>The row of one name, as recovery would find it.\<close>

definition held_lease :: "journal \<Rightarrow> string \<Rightarrow> HeldLeaseRow option" where
  "held_lease db name = map_option held_lease_from (row_with fl_name name (j_fleet_leases db))"

lemmas lease_defs = hold_lease_def set_lease_instance_def mark_lease_fencing_def release_lease_def

section \<open>Invariant\<close>

lemma schema_ok_leases [journal_intros]:
  assumes "schema_ok db"
  shows "schema_ok (hold_lease db name epoch iid now)"
    and "schema_ok (set_lease_instance db name iid)"
    and "schema_ok (mark_lease_fencing db name)"
    and "schema_ok (release_lease db name)"
  using assms
  by (simp_all add: schema_ok_def lease_defs unique_keys_sql_update unique_keys_sql_delete unique_keys_snoc)

lemma leases_frame:
  "j_fleet_leases_update (\<lambda>_. []) (hold_lease db name epoch iid now) = j_fleet_leases_update (\<lambda>_. []) db"
  "j_fleet_leases_update (\<lambda>_. []) (set_lease_instance db name iid) = j_fleet_leases_update (\<lambda>_. []) db"
  "j_fleet_leases_update (\<lambda>_. []) (mark_lease_fencing db name) = j_fleet_leases_update (\<lambda>_. []) db"
  "j_fleet_leases_update (\<lambda>_. []) (release_lease db name) = j_fleet_leases_update (\<lambda>_. []) db"
  by (simp_all add: lease_defs)

section \<open>Properties\<close>

lemma row_with_set: "unique_keys key t \<Longrightarrow> row_with key k t = Some r \<longleftrightarrow> r \<in> set t \<and> key r = k"
  using row_with_Some_in row_with_Some_key row_with_unique by metis

lemma held_leases_set:
  assumes "schema_ok db"
  shows "h \<in> set (held_leases db) \<longleftrightarrow> held_lease db (hl_name h) = Some h"
proof -
  have u: "unique_keys fl_name (j_fleet_leases db)" using assms by (simp add: schema_ok_def)
  have "hl_name (held_lease_from r) = fl_name r" for r by (simp add: held_lease_from_def)
  thus ?thesis
    unfolding held_leases_def held_lease_def by (auto simp: row_with_set [OF u])
qed

lemma held_leases_names:
  assumes "unique_keys fl_name (j_fleet_leases db)"
  shows "sorted_wrt (<) (map hl_name (held_leases db))"
proof -
  let ?s = "sort_key fl_name (j_fleet_leases db)"
  have "map hl_name (held_leases db) = map fl_name ?s"
    by (simp add: held_leases_def held_lease_from_def comp_def)
  moreover have "distinct (map fl_name ?s)"
    using assms by (simp add: unique_keys_def distinct_map)
  ultimately show ?thesis by (simp add: strict_sorted_iff)
qed

text \<open>
  What the journal remembers of a held name after each of the four writes.
  Acquiring again replaces epoch and instance but not a pending fence; marking a
  fence keeps the row; only a release forgets the name; no write touches another
  name; and \<open>held_leases\<close> lists each remembered name once, in order.
\<close>

theorem held_names_remembered:
  assumes "schema_ok db" and "in_u64 epoch"
  shows "held_lease (hold_lease db n epoch iid now) m =
      (if m = n then Some \<lparr>hl_name = n, hl_epoch = epoch, hl_instance_id = iid,
         hl_fencing = (case held_lease db n of None \<Rightarrow> False | Some h \<Rightarrow> hl_fencing h)\<rparr>
       else held_lease db m)
    \<and> held_lease (set_lease_instance db n iid) m =
        map_option (\<lambda>h. if m = n then h\<lparr>hl_instance_id := iid\<rparr> else h) (held_lease db m)
    \<and> held_lease (mark_lease_fencing db n) m =
        map_option (\<lambda>h. if m = n then h\<lparr>hl_fencing := True\<rparr> else h) (held_lease db m)
    \<and> held_lease (release_lease db n) m = (if m = n then None else held_lease db m)
    \<and> sorted_wrt (<) (map hl_name (held_leases db))
    \<and> (h \<in> set (held_leases db) \<longleftrightarrow> held_lease db (hl_name h) = Some h)"
proof (intro conjI)
  note d = lease_defs held_lease_def held_lease_from_def
  let ?t = "j_fleet_leases db"
  have key: "\<forall>r. row_with fl_name m ?t = Some r \<longrightarrow> fl_name r = m"
    by (intro allI impI) (rule row_with_Some_key)
  show "held_lease (set_lease_instance db n iid) m =
          map_option (\<lambda>h. if m = n then h\<lparr>hl_instance_id := iid\<rparr> else h) (held_lease db m)"
    and "held_lease (mark_lease_fencing db n) m =
          map_option (\<lambda>h. if m = n then h\<lparr>hl_fencing := True\<rparr> else h) (held_lease db m)"
    using key by (cases "row_with fl_name m ?t"; simp add: d row_with_sql_update)+
  show "held_lease (release_lease db n) m = (if m = n then None else held_lease db m)"
    by (simp add: d row_with_sql_delete_other)
  show "held_lease (hold_lease db n epoch iid now) m =
      (if m = n then Some \<lparr>hl_name = n, hl_epoch = epoch, hl_instance_id = iid,
         hl_fencing = (case held_lease db n of None \<Rightarrow> False | Some h \<Rightarrow> hl_fencing h)\<rparr>
       else held_lease db m)"
  proof (cases "row_with fl_name n ?t")
    case None
    thus ?thesis using assms(2) row_with_None_iff [of fl_name n ?t]
      by (cases "m = n"; cases "row_with fl_name m ?t") (simp_all add: d row_with_append)
  next
    case (Some r)
    hence "has_key fl_name n ?t" using row_with_None_iff [of fl_name n ?t] by auto
    thus ?thesis using assms(2) Some row_with_Some_key [OF Some] key
      by (cases "m = n"; cases "row_with fl_name m ?t") (simp_all add: d row_with_sql_update)
  qed
  show "sorted_wrt (<) (map hl_name (held_leases db))"
    using assms(1) by (simp add: held_leases_names schema_ok_def unique_keys_def)
  show "h \<in> set (held_leases db) \<longleftrightarrow> held_lease db (hl_name h) = Some h"
    using assms(1) by (rule held_leases_set)
qed

theorem held_names_remembered_witness:
  "held_lease (hold_lease (mark_lease_fencing (hold_lease empty_journal ''web'' 1 ''i1'' 5) ''web'') ''web'' 2 ''i2'' 9) ''web''
   = Some \<lparr>hl_name = ''web'', hl_epoch = 2, hl_instance_id = ''i2'', hl_fencing = True\<rparr>"
proof -
  let ?db = "mark_lease_fencing (hold_lease empty_journal ''web'' 1 ''i1'' 5) ''web''"
  have "schema_ok ?db" by (intro schema_ok_leases schema_ok_empty)
  moreover have "held_lease ?db ''web'' = Some \<lparr>hl_name = ''web'', hl_epoch = 1, hl_instance_id = ''i1'', hl_fencing = True\<rparr>"
    by (simp add: lease_defs held_lease_def held_lease_from_def empty_journal_def has_key_def sql_update_def machine_defs)
  ultimately show ?thesis
    using held_names_remembered [of ?db 2 "''web''" "''i2''" 9 "''web''"] by (simp add: machine_defs)
qed

end
