(* ===== verification/Event_Bus.thy ===== *)
theory Event_Bus
  imports Journal_Events
begin

text \<open>
  \<open>events.rs\<close> and \<open>watch_events\<close> of \<open>service.rs\<close>: persisting and broadcasting an
  event under one lock, and the task that serves a subscription by replaying the
  journal and then following the live channel, deduplicating on the cursor.

  The broadcast channel is the bounded channel the code creates: a receiver that
  falls 1024 events behind loses the oldest and is told so once.  A subscription is
  a small state machine whose steps are the awaits of the task, so the interleaving
  with emitters and with the retention sweep is explicit.
\<close>

section \<open>Events the bus builds\<close>

definition state_changed ::
  "instance_id \<Rightarrow> op_id \<Rightarrow> instance_state \<Rightarrow> stop_reason option \<Rightarrow> pb_event" where
  "state_changed iid op st reason =
     default_event\<lparr>pe_type := ET_StateChanged, pe_instance_id := iid, pe_op_id := op,
       pe_state := st, pe_stop_reason := reason\<rparr>"

text \<open>The shape the message-carrying events share.\<close>

definition told :: "event_type \<Rightarrow> instance_id \<Rightarrow> op_id \<Rightarrow> string \<Rightarrow> pb_event" where
  "told ty iid op msg =
     default_event\<lparr>pe_type := ty, pe_instance_id := iid, pe_op_id := op, pe_message := msg\<rparr>"

definition wake_fired :: "instance_id \<Rightarrow> op_id \<Rightarrow> string \<Rightarrow> pb_event" where
  "wake_fired = told ET_WakeFired"

definition idle_fired :: "instance_id \<Rightarrow> op_id \<Rightarrow> string \<Rightarrow> pb_event" where
  "idle_fired = told ET_IdleFired"

definition ready_changed :: "instance_id \<Rightarrow> bool \<Rightarrow> pb_event" where
  "ready_changed iid ready =
     told ET_ReadyChanged iid [] (if ready then ''ready'' else ''not ready'')"

definition degradation :: "instance_id \<Rightarrow> op_id \<Rightarrow> string \<Rightarrow> pb_event" where
  "degradation = told ET_Degradation"

definition lineage_recorded :: "instance_id \<Rightarrow> op_id \<Rightarrow> string \<Rightarrow> pb_event" where
  "lineage_recorded = told ET_LineageRecorded"

definition capsule_exported :: "instance_id \<Rightarrow> op_id \<Rightarrow> string \<Rightarrow> pb_event" where
  "capsule_exported = told ET_CapsuleExported"

definition capsule_imported :: "instance_id \<Rightarrow> op_id \<Rightarrow> string \<Rightarrow> pb_event" where
  "capsule_imported = told ET_CapsuleImported"

definition epoch_rotated :: "instance_id \<Rightarrow> op_id \<Rightarrow> string \<Rightarrow> pb_event" where
  "epoch_rotated = told ET_EpochRotated"

definition fenced :: "instance_id \<Rightarrow> string \<Rightarrow> pb_event" where
  "fenced iid msg = told ET_Fenced iid [] msg"

definition op_progress :: "instance_id \<Rightarrow> op_id \<Rightarrow> string \<Rightarrow> pb_event" where
  "op_progress = told ET_OperationProgress"

definition restored :: "instance_id \<Rightarrow> op_id \<Rightarrow> string \<Rightarrow> pb_event" where
  "restored = told ET_Restored"

section \<open>The live channel\<close>

record receiver =
  rx_queue :: "pb_event list"
  rx_lagged :: bool

definition CHANNEL :: nat where
  "CHANNEL = 1024"

definition tx_send :: "pb_event \<Rightarrow> receiver \<Rightarrow> receiver" where
  "tx_send ev rx =
     (if length (rx_queue rx) < CHANNEL then rx\<lparr>rx_queue := rx_queue rx @ [ev]\<rparr>
      else rx\<lparr>rx_queue := tl (rx_queue rx) @ [ev], rx_lagged := True\<rparr>)"

datatype recv = Recv_Ok pb_event | Recv_Lagged | Recv_Pending

definition rx_recv :: "receiver \<Rightarrow> recv \<times> receiver" where
  "rx_recv rx =
     (if rx_lagged rx then (Recv_Lagged, rx\<lparr>rx_lagged := False\<rparr>)
      else case rx_queue rx of
        [] \<Rightarrow> (Recv_Pending, rx)
      | ev # q \<Rightarrow> (Recv_Ok ev, rx\<lparr>rx_queue := q\<rparr>))"

text \<open>
  \<open>emit\<close>: the event as broadcast carries the cursor just assigned and the clock as
  read after the insert.  The two halves run under \<open>emit_lock\<close>, so they are one step.
\<close>

definition stamped :: "pb_event \<Rightarrow> int \<Rightarrow> ms \<Rightarrow> pb_event" where
  "stamped ev cursor now = ev\<lparr>pe_cursor := cursor, pe_at := Some (ts now)\<rparr>"

definition emit :: "journal \<Rightarrow> receiver \<Rightarrow> pb_event \<Rightarrow> ms \<Rightarrow> ms \<Rightarrow> int \<times> journal \<times> receiver" where
  "emit db rx ev now now' =
    (let (cursor, db') = insert_event db ev now
     in (cursor, db', tx_send (stamped ev cursor now') rx))"

section \<open>One subscription\<close>

datatype watch_mode = W_Subscribed | W_Replaying | W_Live | W_CursorTooOld

record watcher =
  w_rx :: receiver
  w_from :: int
  w_filter :: instance_id
  w_mode :: watch_mode
  w_last :: int
  w_sent :: "pb_event list"

definition watch_subscribe :: "int \<Rightarrow> instance_id \<Rightarrow> watcher" where
  "watch_subscribe from_cursor iid =
     \<lparr>w_rx = \<lparr>rx_queue = [], rx_lagged = False\<rparr>, w_from = from_cursor, w_filter = iid,
      w_mode = W_Subscribed, w_last = 0, w_sent = []\<rparr>"

text \<open>The handler's second half: read the anchor, after subscribing.\<close>

definition watch_anchored :: "journal \<Rightarrow> watcher \<Rightarrow> watcher" where
  "watch_anchored db w =
     (case watch_anchor db (w_from w) of
        Inl _ \<Rightarrow> w\<lparr>w_mode := W_CursorTooOld\<rparr>
      | Inr a \<Rightarrow> w\<lparr>w_mode := (if w_from w = 0 then W_Live else W_Replaying), w_last := a\<rparr>)"

text \<open>One turn of the loop in \<open>replay_journal\<close>: a page is read, sent, and may be the last.\<close>

definition watch_page :: "journal \<Rightarrow> watcher \<Rightarrow> watcher" where
  "watch_page db w =
    (let page = events_after db (w_last w) (w_filter w) EVENT_PAGE
     in w\<lparr>w_sent := w_sent w @ page,
          w_last := (if page = [] then w_last w else pe_cursor (last page)),
          w_mode := (if length page < EVENT_PAGE then W_Live else W_Replaying)\<rparr>)"

text \<open>One turn of the live loop.\<close>

definition watch_recv :: "journal \<Rightarrow> watcher \<Rightarrow> watcher" where
  "watch_recv db w =
    (case rx_recv (w_rx w) of
       (Recv_Pending, rx) \<Rightarrow> w
     | (Recv_Ok ev, rx) \<Rightarrow>
         (if pe_cursor ev \<le> w_last w \<or> w_filter w \<noteq> [] \<and> pe_instance_id ev \<noteq> w_filter w
          then w\<lparr>w_rx := rx\<rparr>
          else w\<lparr>w_rx := rx, w_last := pe_cursor ev, w_sent := w_sent w @ [ev]\<rparr>)
     | (Recv_Lagged, rx) \<Rightarrow>
         (if w_last w < journal_floor db then w\<lparr>w_rx := rx, w_mode := W_CursorTooOld\<rparr>
          else w\<lparr>w_rx := rx, w_mode := W_Replaying\<rparr>))"

section \<open>The subscription among emitters and sweeps\<close>

text \<open>
  \<open>owner\<close> and \<open>start\<close> are bookkeeping: whose event each cursor is, and the cursor after
  which the subscription promises everything.  A sweep may run at any time except
  that it does not overtake a replay in progress.
\<close>

definition stream_start :: "journal \<Rightarrow> watcher \<Rightarrow> int" where
  "stream_start db w =
     (if w_from w \<noteq> 0 then w_from w
      else if j_events db = [] then j_event_seq db - int (length (rx_queue (w_rx w)))
      else j_event_seq db)"

inductive stream :: "int \<Rightarrow> instance_id \<Rightarrow> journal \<Rightarrow> (int \<Rightarrow> instance_id) \<Rightarrow> int \<Rightarrow> watcher \<Rightarrow> bool"
  for from_cursor :: int and iid :: instance_id where
  stream_open: "event_history db \<Longrightarrow> \<forall>r \<in> set (j_events db). owner (ec_cursor r) = ec_instance_id r \<Longrightarrow>
     stream from_cursor iid db owner start (watch_subscribe from_cursor iid)"
| stream_emit: "stream from_cursor iid db owner start w \<Longrightarrow> j_event_seq db < i64_max \<Longrightarrow>
     \<forall>r \<in> set (j_events db). ec_at_ms r \<le> now \<Longrightarrow> emit db (w_rx w) ev now now' = (c, db', rx) \<Longrightarrow>
     stream from_cursor iid db' (owner(c := pe_instance_id ev)) start (w\<lparr>w_rx := rx\<rparr>)"
| stream_sweep: "stream from_cursor iid db owner start w \<Longrightarrow> in_i64 chunk \<Longrightarrow> 0 < chunk \<Longrightarrow>
     prune_events db t chunk = (n, db') \<Longrightarrow> w_mode w = W_Replaying \<longrightarrow> journal_floor db' \<le> w_last w \<Longrightarrow>
     stream from_cursor iid db' owner start w"
| stream_anchored: "stream from_cursor iid db owner start w \<Longrightarrow> w_mode w = W_Subscribed \<Longrightarrow>
     stream from_cursor iid db owner (stream_start db w) (watch_anchored db w)"
| stream_page: "stream from_cursor iid db owner start w \<Longrightarrow> w_mode w = W_Replaying \<Longrightarrow>
     stream from_cursor iid db owner start (watch_page db w)"
| stream_recv: "stream from_cursor iid db owner start w \<Longrightarrow> w_mode w = W_Live \<Longrightarrow>
     stream from_cursor iid db owner start (watch_recv db w)"

text \<open>The cursors in a range that a subscription to \<open>iid\<close> is owed.\<close>

definition wanted :: "instance_id \<Rightarrow> (int \<Rightarrow> instance_id) \<Rightarrow> int \<Rightarrow> int \<Rightarrow> int list" where
  "wanted iid owner a b = filter (\<lambda>c. iid = [] \<or> owner c = iid) [a + 1 .. b]"

text \<open>What every reachable state of a subscription satisfies.\<close>

definition queued_from :: "journal \<Rightarrow> receiver \<Rightarrow> int" where
  "queued_from db rx = j_event_seq db - int (length (rx_queue rx))"

definition channel_ok :: "journal \<Rightarrow> (int \<Rightarrow> instance_id) \<Rightarrow> receiver \<Rightarrow> bool" where
  "channel_ok db owner rx \<longleftrightarrow>
     event_history db
   \<and> (\<forall>r \<in> set (j_events db). owner (ec_cursor r) = ec_instance_id r)
   \<and> 0 \<le> queued_from db rx
   \<and> map pe_cursor (rx_queue rx) = [queued_from db rx + 1 .. j_event_seq db]
   \<and> (\<forall>ev \<in> set (rx_queue rx). owner (pe_cursor ev) = pe_instance_id ev)"

definition position_ok :: "instance_id \<Rightarrow> journal \<Rightarrow> (int \<Rightarrow> instance_id) \<Rightarrow> int \<Rightarrow> watcher \<Rightarrow> bool" where
  "position_ok iid db owner start w \<longleftrightarrow>
     0 \<le> w_last w \<and> in_i64 (w_last w)
   \<and> (case w_mode w of
        W_Subscribed \<Rightarrow> w_last w = 0 \<and> w_sent w = []
      | _ \<Rightarrow> map pe_cursor (w_sent w) = wanted iid owner start (max start (w_last w))
            \<and> (w_last w \<le> start \<or> w_last w \<le> j_event_seq db))
   \<and> (w_mode w = W_Live \<longrightarrow> w_last w < start \<longrightarrow>
        w_last w < journal_floor db \<and> start \<le> queued_from db (w_rx w))
   \<and> (w_mode w = W_Live \<longrightarrow> \<not> rx_lagged (w_rx w) \<longrightarrow>
        wanted iid owner (max start (w_last w)) (queued_from db (w_rx w)) = [])
   \<and> (w_mode w = W_Replaying \<longrightarrow> journal_floor db \<le> w_last w \<and> start \<le> w_last w)"

definition stream_ok ::
  "int \<Rightarrow> instance_id \<Rightarrow> journal \<Rightarrow> (int \<Rightarrow> instance_id) \<Rightarrow> int \<Rightarrow> watcher \<Rightarrow> bool" where
  "stream_ok from_cursor iid db owner start w \<longleftrightarrow>
     w_from w = from_cursor \<and> w_filter w = iid
   \<and> (w_mode w \<noteq> W_Subscribed \<longrightarrow> from_cursor \<noteq> 0 \<longrightarrow> start = from_cursor)
   \<and> channel_ok db owner (w_rx w) \<and> position_ok iid db owner start w"

section \<open>Ranges of owed cursors\<close>

lemma wanted_empty [simp]: "b \<le> a \<Longrightarrow> wanted iid owner a b = []"
  by (simp add: wanted_def)

lemma wanted_split:
  "a \<le> b \<Longrightarrow> b \<le> c \<Longrightarrow> wanted iid owner a c = wanted iid owner a b @ wanted iid owner b c"
  using upto_split2 [of "a + 1" b c] by (cases "a = b") (auto simp: wanted_def)

lemma wanted_fresh: "b < c \<Longrightarrow> wanted iid (owner(c := x)) a b = wanted iid owner a b"
  by (auto simp: wanted_def intro!: filter_cong)

lemma wanted_next:
  "a \<le> b \<Longrightarrow> wanted iid owner a (b + 1) =
     wanted iid owner a b @ (if iid = [] \<or> owner (b + 1) = iid then [b + 1] else [])"
  by (simp add: wanted_def upto_rec2)

lemma wanted_sorted: "sorted_wrt (<) (wanted iid owner a b)"
  unfolding wanted_def by (rule sorted_wrt_filter) simp

lemma wanted_upto: "l \<le> b \<Longrightarrow> wanted iid owner a l = filter (\<lambda>c. c \<le> l) (wanted iid owner a b)"
proof (cases "a \<le> l")
  case True
  assume "l \<le> b"
  with True have "wanted iid owner a b = wanted iid owner a l @ wanted iid owner l b"
    by (rule wanted_split)
  moreover have "filter (\<lambda>c. c \<le> l) (wanted iid owner a l) = wanted iid owner a l"
    and "filter (\<lambda>c. c \<le> l) (wanted iid owner l b) = []"
    by (auto simp: wanted_def filter_empty_conv intro!: filter_cong)
  ultimately show ?thesis by simp
next
  case False
  thus ?thesis by (auto simp: wanted_def filter_empty_conv)
qed

lemma sorted_prefix_last: "sorted_wrt (<) (xs :: int list) \<Longrightarrow> x \<in> set xs \<Longrightarrow> x \<le> last xs"
  by (induction xs rule: rev_induct) (auto simp: sorted_wrt_append)

lemma wanted_take:
  assumes "take k (wanted iid owner a b) = xs" and "xs \<noteq> []"
  shows "xs = wanted iid owner a (last xs)" and "a < last xs" and "last xs \<le> b"
proof -
  let ?w = "wanted iid owner a b"
  obtain ys where w: "?w = xs @ ys" using assms(1) append_take_drop_id [of k ?w] by metis
  have in_w: "last xs \<in> set ?w" unfolding w using assms(2) by simp
  thus "a < last xs" and le: "last xs \<le> b" by (auto simp: wanted_def)
  have "sorted_wrt (<) (xs @ ys)" using wanted_sorted w by metis
  hence "\<forall>x \<in> set xs. x \<le> last xs" and "\<forall>y \<in> set ys. last xs < y"
    using assms(2) sorted_prefix_last [of xs] by (auto simp: sorted_wrt_append)
  hence "filter (\<lambda>c. c \<le> last xs) (xs @ ys) = xs"
    by (auto simp: filter_id_conv filter_empty_conv)
  thus "xs = wanted iid owner a (last xs)"
    using wanted_upto [OF le, of iid owner a] w by simp
qed

section \<open>Every step keeps the invariant\<close>

lemma history_floor: "event_history db \<Longrightarrow> journal_floor db = j_last_pruned_cursor db"
  using event_history_ok cursors_from_floor by metis

lemma pending_wanted:
  assumes "event_history db" and "journal_floor db \<le> l"
    and "\<forall>r \<in> set (j_events db). owner (ec_cursor r) = ec_instance_id r"
  shows "map ec_cursor (pending db l iid) = wanted iid owner l (j_event_seq db)"
proof -
  let ?f = "journal_floor db" and ?s = "j_event_seq db"
  have run: "map ec_cursor (j_events db) = [?f + 1 .. ?s]"
    using event_history_ok [OF assms(1)] history_floor [OF assms(1)] by (simp add: cursors_from_def)
  have "map ec_cursor (pending db l iid) =
    map ec_cursor (filter (\<lambda>r. l < ec_cursor r \<and> (iid = [] \<or> owner (ec_cursor r) = iid)) (j_events db))"
    unfolding pending_def
    by (rule arg_cong [of _ _ "map ec_cursor"], rule filter_cong) (use assms(3) in auto)
  also have "\<dots> = filter (\<lambda>c. l < c \<and> (iid = [] \<or> owner c = iid)) [?f + 1 .. ?s]"
    unfolding run [symmetric] by (simp add: filter_map comp_def)
  also have "\<dots> = wanted iid owner l ?s"
  proof (cases "l \<le> ?s")
    case True
    have "[?f + 1 .. ?s] = [?f + 1 .. l] @ [l + 1 .. ?s]"
      using upto_split2 [of "?f + 1" l ?s] assms(2) True by (cases "?f = l") auto
    thus ?thesis by (auto simp: wanted_def filter_empty_conv intro!: filter_cong)
  next
    case False
    thus ?thesis by (auto simp: filter_empty_conv)
  qed
  finally show ?thesis .
qed

lemma page_wanted:
  assumes "event_history db" and "journal_floor db \<le> l" "in_i64 l"
    and "\<forall>r \<in> set (j_events db). owner (ec_cursor r) = ec_instance_id r"
  shows "map pe_cursor (events_after db l iid EVENT_PAGE)
         = take EVENT_PAGE (wanted iid owner l (j_event_seq db))"
proof -
  have ok: "events_ok db" using event_history_ok [OF assms(1)] by simp
  have "events_after db l iid EVENT_PAGE = take EVENT_PAGE (map event_from (pending db l iid))"
    using events_after_page [OF ok assms(3), of EVENT_PAGE iid]
    by (simp add: events_after_pending ok assms(3) EVENT_PAGE_def i64_max_def)
  moreover have "map pe_cursor (map event_from (pending db l iid)) = map ec_cursor (pending db l iid)"
    using pe_cursor_event_from [OF ok] by (auto simp: pending_def)
  ultimately show ?thesis using pending_wanted [OF assms(1,2,4), of iid] by (metis take_map)
qed

lemma position_ok_page:
  assumes "channel_ok db owner (w_rx w)" and "position_ok (w_filter w) db owner start w"
    and "w_mode w = W_Replaying"
  shows "position_ok (w_filter w) db owner start (watch_page db w)"
proof -
  let ?l = "w_last w" and ?s = "j_event_seq db" and ?w = "wanted (w_filter w) owner"
  let ?page = "events_after db ?l (w_filter w) EVENT_PAGE"
  have his: "event_history db" and own: "\<forall>r \<in> set (j_events db). owner (ec_cursor r) = ec_instance_id r"
    using assms(1) by (auto simp: channel_ok_def)
  have pos: "0 \<le> ?l" "in_i64 ?l" "journal_floor db \<le> ?l" "start \<le> ?l"
    and sent: "map pe_cursor (w_sent w) = ?w start ?l"
    using assms(2,3) by (auto simp: position_ok_def max_def)
  have pg: "map pe_cursor ?page = take EVENT_PAGE (?w ?l ?s)"
    using his pos(3,2) own by (rule page_wanted)
  have ok: "events_ok db" using his event_history_ok by blast
  define l' where "l' = (if ?page = [] then ?l else pe_cursor (last ?page))"
  have l': "?l \<le> l'" "l' = ?l \<or> l' \<le> ?s" "map pe_cursor ?page = ?w ?l l'"
  proof -
    have "?l \<le> l' \<and> (l' = ?l \<or> l' \<le> ?s) \<and> map pe_cursor ?page = ?w ?l l'"
    proof (cases "?page = []")
      case False
      hence "l' = last (map pe_cursor ?page)" by (simp add: l'_def last_map)
      thus ?thesis using wanted_take [OF pg [symmetric]] False by simp
    qed (simp add: l'_def)
    thus "?l \<le> l'" "l' = ?l \<or> l' \<le> ?s" "map pe_cursor ?page = ?w ?l l'" by blast+
  qed
  have i64: "in_i64 l'" using l'(1,2) pos(1,2) ok by (auto simp: events_ok_def machine_defs)
  have sent': "map pe_cursor (w_sent w @ ?page) = ?w start l'"
    using sent l'(3) wanted_split [OF pos(4) l'(1), of "w_filter w" owner] by simp
  have drained: "?w l' ?s = []" if "length ?page < EVENT_PAGE"
  proof (cases "l' \<le> ?s")
    case True
    have "length (take EVENT_PAGE (?w ?l ?s)) < EVENT_PAGE" using that pg by (metis length_map)
    hence "take EVENT_PAGE (?w ?l ?s) = ?w ?l ?s" by simp
    hence "?w ?l l' = ?w ?l ?s" using l'(3) pg by simp
    thus ?thesis using wanted_split [OF l'(1) True, of "w_filter w" owner] by simp
  qed simp
  have drained': "?w l' (queued_from db (w_rx w)) = []" if "length ?page < EVENT_PAGE"
    using drained [OF that] wanted_upto [of "queued_from db (w_rx w)" ?s "w_filter w" owner l']
    by (simp add: queued_from_def)
  have upd: "watch_page db w = w\<lparr>w_sent := w_sent w @ ?page, w_last := l',
      w_mode := (if length ?page < EVENT_PAGE then W_Live else W_Replaying)\<rparr>"
    by (simp add: watch_page_def l'_def Let_def)
  have m: "max start l' = l'" using pos(4) l'(1) by simp
  have "l' \<le> start \<or> l' \<le> ?s" using l'(1,2) assms(2,3) by (auto simp: position_ok_def)
  thus ?thesis
    unfolding position_ok_def upd using sent' drained' i64 l'(1) pos
    by (simp add: m split: watch_mode.splits)
qed

lemma channel_ok_recv:
  assumes "channel_ok db owner rx"
  shows "channel_ok db owner (snd (rx_recv rx))"
    and "rx_recv rx = (Recv_Ok ev, rx') \<Longrightarrow> \<not> rx_lagged rx \<and> rx_lagged rx' = rx_lagged rx
       \<and> pe_cursor ev = queued_from db rx + 1
       \<and> queued_from db rx' = queued_from db rx + 1 \<and> queued_from db rx' \<le> j_event_seq db
       \<and> owner (queued_from db rx + 1) = pe_instance_id ev"
proof -
  have step: "pe_cursor e = queued_from db rx + 1 \<and> map pe_cursor q = [queued_from db rx + 1 + 1 .. j_event_seq db]"
    if "rx_queue rx = e # q" for e q
    using assms that upto_rec1 [of "queued_from db rx + 1" "j_event_seq db"]
    by (auto simp: channel_ok_def queued_from_def)
  show "channel_ok db owner (snd (rx_recv rx))"
    using assms step by (auto simp: rx_recv_def channel_ok_def queued_from_def split: list.splits)
  show "\<not> rx_lagged rx \<and> rx_lagged rx' = rx_lagged rx
       \<and> pe_cursor ev = queued_from db rx + 1
       \<and> queued_from db rx' = queued_from db rx + 1 \<and> queued_from db rx' \<le> j_event_seq db
       \<and> owner (queued_from db rx + 1) = pe_instance_id ev"
    if "rx_recv rx = (Recv_Ok ev, rx')"
    using that assms step
    by (auto simp: rx_recv_def channel_ok_def queued_from_def split: if_splits list.splits)
qed

lemma position_ok_recv:
  assumes "channel_ok db owner (w_rx w)" and "position_ok (w_filter w) db owner start w"
    and "w_mode w = W_Live"
  shows "position_ok (w_filter w) db owner start (watch_recv db w)"
proof -
  let ?w = "wanted (w_filter w) owner" and ?q = "queued_from db (w_rx w)"
  let ?m = "max start (w_last w)"
  have pos: "0 \<le> w_last w" "in_i64 (w_last w)" "map pe_cursor (w_sent w) = ?w start ?m"
      "w_last w \<le> start \<or> w_last w \<le> j_event_seq db" "w_last w < start \<longrightarrow> w_last w < journal_floor db \<and> start \<le> ?q"
      "\<not> rx_lagged (w_rx w) \<longrightarrow> ?w ?m ?q = []"
    using assms(2,3) by (simp_all add: position_ok_def)
  have i64: "events_ok db" using assms(1) event_history_ok by (auto simp: channel_ok_def)
  obtain r rx where rr: "rx_recv (w_rx w) = (r, rx)" by fastforce
  show ?thesis
  proof (cases r)
    case Recv_Pending
    thus ?thesis using assms(2) rr by (simp add: watch_recv_def)
  next
    case Recv_Lagged
    hence "rx_queue rx = rx_queue (w_rx w)"
      using rr by (auto simp: rx_recv_def split: if_splits list.splits)
    thus ?thesis using Recv_Lagged rr pos by (auto simp: watch_recv_def position_ok_def)
  next
    case (Recv_Ok ev)
    note got = channel_ok_recv(2) [OF assms(1) rr [unfolded Recv_Ok]]
    have q0: "0 \<le> ?q" using assms(1) by (simp add: channel_ok_def)
    have empty: "?w ?m ?q = []" using pos(6) got by blast
    have skip: "?w ?m (?q + 1) = []"
      if "pe_cursor ev \<le> w_last w \<or> w_filter w \<noteq> [] \<and> pe_instance_id ev \<noteq> w_filter w"
    proof (cases "?m \<le> ?q")
      case True
      hence "\<not> pe_cursor ev \<le> w_last w" using got by simp
      thus ?thesis using wanted_next [OF True, of "w_filter w" owner] empty that got by simp
    next
      case False
      thus ?thesis by (intro wanted_empty) linarith
    qed
    show ?thesis
    proof (cases "pe_cursor ev \<le> w_last w \<or> w_filter w \<noteq> [] \<and> pe_instance_id ev \<noteq> w_filter w")
      case True
      thus ?thesis using skip [OF True] pos got assms(3) Recv_Ok rr
        by (auto simp: watch_recv_def position_ok_def)
    next
      case False
      hence new: "w_last w < ?q + 1" "w_filter w = [] \<or> owner (?q + 1) = w_filter w" using got by auto
      have m: "?m \<le> ?q" "start \<le> ?m" "max start (?q + 1) = ?q + 1" using new(1) pos(5) by linarith+
      have "?w start ?q = ?w start ?m" using wanted_split [OF m(2,1), of "w_filter w" owner] empty by simp
      hence "?w start (?q + 1) = ?w start ?m @ [?q + 1]"
        using wanted_next [of start ?q "w_filter w" owner] m new(2) by auto
      thus ?thesis using False pos got assms(3) Recv_Ok rr i64 m q0
        by (auto simp: watch_recv_def position_ok_def events_ok_def machine_defs)
    qed
  qed
qed

lemma history_head:
  assumes "event_history db"
  shows "head_cursor db = (if j_events db = [] then 0 else j_event_seq db)"
proof (cases "j_events db = []")
  case False
  have run: "map ec_cursor (j_events db) = [j_last_pruned_cursor db + 1 .. j_event_seq db]"
    and ok: "events_ok db" using event_history_ok [OF assms] by (auto simp: cursors_from_def)
  hence s: "ec_cursor ` set (j_events db) = {j_last_pruned_cursor db + 1 .. j_event_seq db}"
    by (metis set_map set_upto)
  hence "{j_last_pruned_cursor db + 1 .. j_event_seq db} \<noteq> {}" using False by (metis image_is_empty set_empty)
  hence "Max (ec_cursor ` set (j_events db)) = j_event_seq db" unfolding s by (intro Max_eqI) auto
  thus ?thesis using False ok by (auto simp: head_cursor_def max_cursor_def events_ok_def machine_defs)
qed (simp add: head_cursor_def max_cursor_def machine_defs)

lemma position_ok_anchored:
  assumes "channel_ok db owner (w_rx w)" and "position_ok (w_filter w) db owner s w"
    and "w_mode w = W_Subscribed" and "0 \<le> w_from w" "w_from w \<le> i64_max"
  shows "position_ok (w_filter w) db owner (stream_start db w) (watch_anchored db w)"
proof -
  have his: "event_history db" and q: "0 \<le> queued_from db (w_rx w)" "queued_from db (w_rx w) \<le> j_event_seq db"
    using assms(1) by (auto simp: channel_ok_def queued_from_def)
  have ok: "events_ok db" and run: "cursors_from (j_last_pruned_cursor db) db"
    using event_history_ok [OF his] by auto
  have seq: "0 \<le> j_event_seq db" "j_event_seq db \<le> i64_max" using ok by (auto simp: events_ok_def)
  have base: "w_last w = 0" "w_sent w = []" using assms(2,3) by (auto simp: position_ok_def)
  have floor: "journal_floor db = j_event_seq db" if "j_events db = []"
    using run history_floor [OF his] that by (auto simp: cursors_from_def)
  show ?thesis
    using assms(4,5) base q seq floor
    by (auto simp: watch_anchored_def watch_anchor_def position_ok_def stream_start_def history_head [OF his]
        machine_defs simp flip: queued_from_def)
qed

lemma emit_parts:
  assumes "emit db rx ev now now' = (c, db', rx')" and "events_ok db" "j_event_seq db < i64_max"
  shows "c = j_event_seq db + 1" "j_event_seq db' = c" "db' = snd (insert_event db ev now)"
    "rx' = tx_send (stamped ev c now') rx" "j_last_pruned_cursor db' = j_last_pruned_cursor db"
    "\<forall>r \<in> set (j_events db'). r \<in> set (j_events db) \<or> ec_cursor r = c \<and> ec_instance_id r = pe_instance_id ev"
proof -
  have "as_u64 (j_event_seq db + 1) = j_event_seq db + 1"
    using assms(2,3) by (auto simp: events_ok_def machine_defs)
  thus "c = j_event_seq db + 1" "j_event_seq db' = c" "db' = snd (insert_event db ev now)"
    "rx' = tx_send (stamped ev c now') rx" "j_last_pruned_cursor db' = j_last_pruned_cursor db"
    "\<forall>r \<in> set (j_events db'). r \<in> set (j_events db) \<or> ec_cursor r = c \<and> ec_instance_id r = pe_instance_id ev"
    using assms(1) by (auto simp: emit_def insert_event_def Let_def)
qed

lemma upto_tl: "tl [a + 1 .. b] = [a + 1 + 1 .. b]"
  using upto_drop [of 1 a b] by (simp add: drop_Suc)

lemma channel_ok_emit:
  assumes "channel_ok db owner rx" and "j_event_seq db < i64_max"
    and "\<forall>r \<in> set (j_events db). ec_at_ms r \<le> now" and "emit db rx ev now now' = (c, db', rx')"
  shows "channel_ok db' (owner(c := pe_instance_id ev)) rx'"
    and "queued_from db rx \<le> queued_from db' rx'"
    and "\<not> rx_lagged rx' \<Longrightarrow> \<not> rx_lagged rx \<and> queued_from db' rx' = queued_from db rx"
proof -
  let ?s = "j_event_seq db" and ?q = "queued_from db rx"
  have his: "event_history db" using assms(1) by (simp add: channel_ok_def)
  have ok: "events_ok db" using event_history_ok [OF his] by simp
  note e = emit_parts [OF assms(4) ok assms(2)]
  have his': "event_history db'" unfolding e(3) using his assms(2,3) by (rule history_insert)
  have old: "ec_cursor r \<noteq> c" if "r \<in> set (j_events db)" for r
    using ok that e(1) by (auto simp: events_ok_def)
  have qs: "0 \<le> ?q" "?q \<le> ?s" "map pe_cursor (rx_queue rx) = [?q + 1 .. ?s]"
    using assms(1) by (auto simp: channel_ok_def queued_from_def)
  have inq: "pe_cursor v \<noteq> c" if "v \<in> set (rx_queue rx)" for v
  proof -
    have "pe_cursor v \<in> set (map pe_cursor (rx_queue rx))" using that by simp
    thus ?thesis unfolding qs(3) using e(1) by simp
  qed
  have intl: "v \<in> set (rx_queue rx)" if "v \<in> set (tl (rx_queue rx))" for v
    using that by (cases "rx_queue rx") auto
  have tlq: "map pe_cursor (tl (rx_queue rx)) = [?q + 1 + 1 .. ?s]"
    using qs(3) upto_tl by (metis map_tl)
  have full: "rx_queue rx \<noteq> [] \<and> ?q < ?s" if "\<not> length (rx_queue rx) < CHANNEL"
    using that by (auto simp: CHANNEL_def queued_from_def)
  have len: "queued_from db' rx' = (if length (rx_queue rx) < CHANNEL then ?q else ?q + 1)"
    using full e(1,2,4) by (auto simp: tx_send_def queued_from_def)
  have "map pe_cursor (rx_queue rx') = [queued_from db' rx' + 1 .. c]"
    using qs tlq e(1,4) len full by (auto simp: tx_send_def stamped_def upto_rec2)
  moreover have "\<forall>v \<in> set (rx_queue rx'). (owner(c := pe_instance_id ev)) (pe_cursor v) = pe_instance_id v"
    using assms(1) inq intl e(4) by (auto simp: tx_send_def stamped_def channel_ok_def split: if_splits)
  ultimately show "channel_ok db' (owner(c := pe_instance_id ev)) rx'"
    using his' assms(1) old e(2,6) qs len unfolding channel_ok_def by (auto split: if_splits)
  show "?q \<le> queued_from db' rx'" using len by simp
  show "\<not> rx_lagged rx \<and> queued_from db' rx' = ?q" if "\<not> rx_lagged rx'"
    using that e(4) len by (auto simp: tx_send_def split: if_splits)
qed

lemma position_ok_emit:
  assumes "channel_ok db owner (w_rx w)" and "j_event_seq db < i64_max"
    and "\<forall>r \<in> set (j_events db). ec_at_ms r \<le> now" and "emit db (w_rx w) ev now now' = (c, db', rx')"
    and "position_ok iid db owner start w"
  shows "position_ok iid db' (owner(c := pe_instance_id ev)) start (w\<lparr>w_rx := rx'\<rparr>)"
proof -
  note ch = channel_ok_emit [OF assms(1-4)]
  have his: "event_history db" "event_history db'" and q: "queued_from db (w_rx w) \<le> j_event_seq db"
    using assms(1) ch(1) by (auto simp: channel_ok_def queued_from_def)
  have ok: "events_ok db" using event_history_ok [OF his(1)] by simp
  note e = emit_parts [OF assms(4) ok assms(2)]
  have fl: "journal_floor db' = journal_floor db" using his e(5) by (simp add: history_floor)
  have w1: "wanted iid (owner(c := pe_instance_id ev)) start (max start (w_last w)) =
      wanted iid owner start (max start (w_last w))" if "w_last w \<le> start \<or> w_last w \<le> j_event_seq db"
    using that e(1) by (cases "w_last w \<le> start") (auto simp: max_def intro!: wanted_fresh)
  have w2: "wanted iid (owner(c := pe_instance_id ev)) (max start (w_last w)) (queued_from db (w_rx w)) =
      wanted iid owner (max start (w_last w)) (queued_from db (w_rx w))"
    using q e(1) by (intro wanted_fresh) simp
  show ?thesis
    using assms(5) ch(2,3) w1 w2 e(1,2) fl
    by (cases "w_mode w") (auto simp: position_ok_def)
qed

lemma sweep_parts:
  assumes "event_history db" and "in_i64 chunk" "0 < chunk" and "prune_events db t chunk = (n, db')"
  shows "event_history db'" "j_event_seq db' = j_event_seq db" "journal_floor db \<le> journal_floor db'"
    "set (j_events db') \<subseteq> set (j_events db)"
proof -
  have db': "db' = snd (prune_events db t chunk)" using assms(4) by simp
  show his': "event_history db'" unfolding db' using assms(1-3) by (rule history_prune)
  show "j_event_seq db' = j_event_seq db" and "set (j_events db') \<subseteq> set (j_events db)"
    unfolding db' by (auto simp: prune_events_def sql_delete_def Let_def split: option.splits)
  have "j_last_pruned_cursor db \<le> j_last_pruned_cursor db'"
    unfolding db' by (simp add: prune_events_def Let_def split: option.splits)
  thus "journal_floor db \<le> journal_floor db'"
    using history_floor [OF assms(1)] history_floor [OF his'] by simp
qed

lemma stream_invariant:
  assumes "stream fc iid db owner start w" and "0 \<le> fc" "fc \<le> i64_max"
  shows "stream_ok fc iid db owner start w"
  using assms(1)
proof (induction rule: stream.induct)
  case (stream_open db owner start)
  have "0 \<le> j_event_seq db" using event_history_ok [OF stream_open(1)] by (simp add: events_ok_def)
  thus ?case using stream_open
    by (simp add: stream_ok_def watch_subscribe_def channel_ok_def queued_from_def position_ok_def machine_defs)
next
  case (stream_emit db owner start w now ev now' c db' rx)
  hence ch: "channel_ok db owner (w_rx w)" and pos: "position_ok iid db owner start w"
    by (auto simp: stream_ok_def)
  show ?case
    using channel_ok_emit(1) [OF ch stream_emit(2-4)] position_ok_emit [OF ch stream_emit(2-4) pos]
      stream_emit.IH
    by (simp add: stream_ok_def del: fun_upd_apply)
next
  case (stream_sweep db owner start w chunk t n db')
  hence ch: "channel_ok db owner (w_rx w)" and pos: "position_ok iid db owner start w"
    by (auto simp: stream_ok_def)
  have "event_history db" using ch by (simp add: channel_ok_def)
  note s = sweep_parts [OF this stream_sweep(2-4)]
  have q: "queued_from db' rx = queued_from db rx" for rx using s(2) by (simp add: queued_from_def)
  have "channel_ok db' owner (w_rx w)" using ch s by (auto simp: channel_ok_def q)
  moreover have "position_ok iid db' owner start w"
    using pos s(2,3) stream_sweep(5) by (cases "w_mode w") (auto simp: position_ok_def q)
  ultimately show ?case using stream_sweep.IH by (simp add: stream_ok_def)
next
  case (stream_anchored db owner start w)
  have "w_rx (watch_anchored db w) = w_rx w" "w_from (watch_anchored db w) = w_from w"
    "w_filter (watch_anchored db w) = w_filter w"
    by (auto simp: watch_anchored_def split: sum.splits)
  thus ?case using stream_anchored position_ok_anchored [of db owner w start] assms(2,3)
    by (auto simp: stream_ok_def stream_start_def)
next
  case (stream_page db owner start w)
  have "w_rx (watch_page db w) = w_rx w" "w_from (watch_page db w) = w_from w"
    "w_filter (watch_page db w) = w_filter w" by (simp_all add: watch_page_def Let_def)
  thus ?case using stream_page position_ok_page [of db owner w start] by (auto simp: stream_ok_def)
next
  case (stream_recv db owner start w)
  have "w_rx (watch_recv db w) = snd (rx_recv (w_rx w)) \<or> w_rx (watch_recv db w) = w_rx w"
    "w_from (watch_recv db w) = w_from w" "w_filter (watch_recv db w) = w_filter w"
    by (auto simp: watch_recv_def split: recv.splits prod.splits)
  thus ?case
    using stream_recv position_ok_recv [of db owner w start] channel_ok_recv(1) [of db owner "w_rx w"]
    by (auto simp: stream_ok_def)
qed

section \<open>Properties\<close>


text \<open>One event recorded before the subscription, one after it, and every step taken.\<close>

definition sample_stream :: "journal \<times> watcher" where
  "sample_stream =
    (let db1 = snd (insert_event empty_journal (ready_changed ''i1'' True) 5);
         w = watch_anchored db1 (watch_subscribe 1 []);
         w = watch_page db1 w;
         (c, db2, rx) = emit db1 (w_rx w) (ready_changed ''i1'' False) 6 6
     in (db2, watch_recv db2 (w\<lparr>w_rx := rx\<rparr>)))"


text \<open>
  The lock in \<open>emit\<close> is what that rests on.  Two emitters that insert in one order
  and broadcast in the other lose an event outright: the subscriber takes cursor 2,
  drops cursor 1 as already seen, and its channel never reports a lag.
\<close>

theorem unlocked_emit_loses_an_event:
  "let w = watch_anchored empty_journal (watch_subscribe 0 []);
       (c1, db1) = insert_event empty_journal (ready_changed ''i1'' True) 5;
       (c2, db2) = insert_event db1 (ready_changed ''i2'' True) 5;
       rx = tx_send (stamped (ready_changed ''i2'' True) c2 5) (w_rx w);
       rx = tx_send (stamped (ready_changed ''i1'' True) c1 5) rx;
       w' = watch_recv db2 (watch_recv db2 (w\<lparr>w_rx := rx\<rparr>))
   in map pe_cursor (w_sent w') = [2] \<and> w_mode w' = W_Live \<and> fst (rx_recv (w_rx w')) = Recv_Pending"
  by code_simp


end
