(* ===== verification/Fleet_Lease.thy ===== *)
theory Fleet_Lease
  imports Rust_Text
begin

text \<open>
  \<open>barista-fleet/src/lease.rs\<close>: ownership of a session name as one conditional write
  per attempt.

  The object store is a crate the sources call: it is the argument \<open>B\<close> of every
  operation, together with the encoding of a lease record.  The locale
  \<open>conditional_store\<close> states what its documentation promises of a conditional put.
  A put that fails for another reason may or may not have landed.  A version
  is never returned for two different bodies of one key, which holds both of a
  content hash and of a counter.
\<close>

section \<open>Records\<close>

text \<open>A \<open>Duration\<close>, in nanoseconds.\<close>

type_synonym duration = nat

record Timing =
  tm_ttl :: duration
  tm_renew_every :: duration

definition default_timing :: Timing where
  "default_timing = \<lparr>tm_ttl = 15 * 1000000000, tm_renew_every = 5 * 1000000000\<rparr>"

datatype fleet_error = FE_Backend | FE_Corrupt string | FE_Encode string | FE_Config string

fun is_unavailable :: "fleet_error \<Rightarrow> bool" where
  "is_unavailable FE_Backend = True"
| "is_unavailable _ = False"

definition validate :: "Timing \<Rightarrow> fleet_error + unit" where
  "validate t =
     (if tm_renew_every t = 0 \<or> tm_ttl t \<le> tm_renew_every t
      then Inl (FE_Config ''lease ttl must be greater than the renewal interval'') else Inr ())"

definition ttl_ms :: "Timing \<Rightarrow> int" where
  "ttl_ms t = as_i64 (int (tm_ttl t div 1000000))"

record Lease =
  ls_owner :: string
  ls_epoch :: int
  ls_expires_ms :: ms
  ls_endpoint :: string
  ls_instance_id :: string
  ls_state :: "string option"

definition is_expired_at :: "Lease \<Rightarrow> ms \<Rightarrow> bool" where
  "is_expired_at l now \<longleftrightarrow> ls_expires_ms l \<le> now"

record 'v Held =
  held_lease_of :: Lease
  held_version :: 'v

datatype 'v Acquired = Acq_Held "'v Held" | Acq_HeldByOther string ms | Acq_Contended

datatype 'v Renewed = Ren_Held "'v Held" | Ren_Fenced

section \<open>The backend\<close>

datatype 'v put_mode = PutCreate | PutUpdate 'v

datatype put_error = PE_AlreadyExists | PE_Precondition | PE_Other

text \<open>
  The calls the code makes: \<open>get\<close> (absent, or body and version, or an error),
  \<open>put_opts\<close>, and the JSON encoding and decoding of a lease.
\<close>

record ('st, 'b, 'v) backend =
  be_get :: "'st \<Rightarrow> string \<Rightarrow> unit + ('b \<times> 'v) option"
  be_put :: "'st \<Rightarrow> string \<Rightarrow> 'b \<Rightarrow> 'v put_mode \<Rightarrow> (put_error + 'v) \<times> 'st"
  be_encode :: "Lease \<Rightarrow> 'b option"
  be_decode :: "'b \<Rightarrow> Lease option"

section \<open>Operations\<close>

definition session_key :: "string \<Rightarrow> string" where
  "session_key name = ''sessions/'' @ name"

definition read_lease ::
  "('st, 'b, 'v) backend \<Rightarrow> 'st \<Rightarrow> string \<Rightarrow> fleet_error + (Lease \<times> 'v) option" where
  "read_lease B st name =
     (case be_get B st (session_key name) of
        Inl _ \<Rightarrow> Inl FE_Backend
      | Inr None \<Rightarrow> Inr None
      | Inr (Some (body, v)) \<Rightarrow>
          (case be_decode B body of
             None \<Rightarrow> Inl (FE_Corrupt (session_key name))
           | Some lease \<Rightarrow> Inr (Some (lease, v))))"

definition resolve :: "('st, 'b, 'v) backend \<Rightarrow> 'st \<Rightarrow> string \<Rightarrow> fleet_error + Lease option" where
  "resolve B st name = map_sum id (map_option fst) (read_lease B st name)"

definition put ::
  "('st, 'b, 'v) backend \<Rightarrow> 'st \<Rightarrow> string \<Rightarrow> Lease \<Rightarrow> 'v put_mode \<Rightarrow> (fleet_error + 'v option) \<times> 'st" where
  "put B st path lease mode =
     (case be_encode B lease of
        None \<Rightarrow> (Inl (FE_Encode path), st)
      | Some body \<Rightarrow>
          (case be_put B st path body mode of
             (Inr v, st') \<Rightarrow> (Inr (Some v), st')
           | (Inl PE_AlreadyExists, st') \<Rightarrow> (Inr None, st')
           | (Inl PE_Precondition, st') \<Rightarrow> (Inr None, st')
           | (Inl PE_Other, st') \<Rightarrow> (Inl FE_Backend, st')))"

text \<open>
  The decision of \<open>acquire\<close>, between its read and its write: the name has a live
  owner, or this is the record to write and the condition to write it under.
\<close>

definition acquire_attempt ::
  "string \<Rightarrow> string \<Rightarrow> Timing \<Rightarrow> ms \<Rightarrow> (Lease \<times> 'v) option \<Rightarrow> (string \<times> ms) + (Lease \<times> 'v put_mode)" where
  "acquire_attempt me endpoint timing now seen =
     (case seen of
        None \<Rightarrow>
          Inr (\<lparr>ls_owner = me, ls_epoch = 1, ls_expires_ms = as_i64 (now + ttl_ms timing),
                ls_endpoint = endpoint, ls_instance_id = [], ls_state = None\<rparr>, PutCreate)
      | Some (prev, version) \<Rightarrow>
          (let expired = is_expired_at prev now; mine = (ls_owner prev = me)
           in if \<not> expired \<and> \<not> mine then Inl (ls_owner prev, ls_expires_ms prev)
              else Inr (\<lparr>ls_owner = me,
                         ls_epoch = (if mine \<and> \<not> expired then ls_epoch prev else as_u64 (ls_epoch prev + 1)),
                         ls_expires_ms = as_i64 (now + ttl_ms timing),
                         ls_endpoint = endpoint, ls_instance_id = ls_instance_id prev,
                         ls_state = None\<rparr>, PutUpdate version)))"

definition acquire ::
  "('st, 'b, 'v) backend \<Rightarrow> 'st \<Rightarrow> string \<Rightarrow> string \<Rightarrow> string \<Rightarrow> Timing \<Rightarrow> ms
   \<Rightarrow> (fleet_error + 'v Acquired) \<times> 'st" where
  "acquire B st name me endpoint timing now =
     (case validate timing of
        Inl e \<Rightarrow> (Inl e, st)
      | Inr _ \<Rightarrow>
          (case read_lease B st name of
             Inl e \<Rightarrow> (Inl e, st)
           | Inr seen \<Rightarrow>
               (case acquire_attempt me endpoint timing now seen of
                  Inl (owner, expires) \<Rightarrow> (Inr (Acq_HeldByOther owner expires), st)
                | Inr (lease, mode) \<Rightarrow>
                    (case put B st (session_key name) lease mode of
                       (Inl e, st') \<Rightarrow> (Inl e, st')
                     | (Inr (Some v), st') \<Rightarrow>
                         (Inr (Acq_Held \<lparr>held_lease_of = lease, held_version = v\<rparr>), st')
                     | (Inr None, st') \<Rightarrow> (Inr Acq_Contended, st')))))"

text \<open>
  \<open>attempts_left\<close> attempts; \<open>between i\<close> is what the rest of the fleet did to the store
  while attempt \<open>i\<close> slept, and \<open>nows i\<close> the clock it then reads.
\<close>

fun acquire_loop ::
  "('st, 'b, 'v) backend \<Rightarrow> string \<Rightarrow> string \<Rightarrow> string \<Rightarrow> Timing \<Rightarrow> (nat \<Rightarrow> ms) \<Rightarrow> (nat \<Rightarrow> 'st \<Rightarrow> 'st)
   \<Rightarrow> nat \<Rightarrow> nat \<Rightarrow> 'st \<Rightarrow> (fleet_error + 'v Acquired) \<times> 'st" where
  "acquire_loop B name me endpoint timing nows between i 0 st = (Inr Acq_Contended, st)"
| "acquire_loop B name me endpoint timing nows between i (Suc k) st =
     (case acquire B st name me endpoint timing (nows i) of
        (Inr Acq_Contended, st') \<Rightarrow>
          acquire_loop B name me endpoint timing nows between (Suc i) k (between i st')
      | r \<Rightarrow> r)"

definition acquire_with_retry ::
  "('st, 'b, 'v) backend \<Rightarrow> 'st \<Rightarrow> string \<Rightarrow> string \<Rightarrow> string \<Rightarrow> Timing \<Rightarrow> nat \<Rightarrow> (nat \<Rightarrow> ms)
   \<Rightarrow> (nat \<Rightarrow> 'st \<Rightarrow> 'st) \<Rightarrow> (fleet_error + 'v Acquired) \<times> 'st" where
  "acquire_with_retry B st name me endpoint timing attempts nows between =
     acquire_loop B name me endpoint timing nows between 0 (max attempts 1) st"

text \<open>The write every holder's operation ends in.\<close>

definition fenced_put ::
  "('st, 'b, 'v) backend \<Rightarrow> 'st \<Rightarrow> string \<Rightarrow> Lease \<Rightarrow> 'v \<Rightarrow> (fleet_error + 'v Renewed) \<times> 'st" where
  "fenced_put B st name lease version =
     (case put B st (session_key name) lease (PutUpdate version) of
        (Inl e, st') \<Rightarrow> (Inl e, st')
      | (Inr (Some v), st') \<Rightarrow> (Inr (Ren_Held \<lparr>held_lease_of = lease, held_version = v\<rparr>), st')
      | (Inr None, st') \<Rightarrow> (Inr Ren_Fenced, st'))"

definition renew ::
  "('st, 'b, 'v) backend \<Rightarrow> 'st \<Rightarrow> string \<Rightarrow> 'v Held \<Rightarrow> Timing \<Rightarrow> ms \<Rightarrow> string option
   \<Rightarrow> (fleet_error + 'v Renewed) \<times> 'st" where
  "renew B st name held timing now state =
     fenced_put B st name
       ((held_lease_of held)\<lparr>ls_expires_ms := as_i64 (now + ttl_ms timing), ls_state := state\<rparr>)
       (held_version held)"

definition stamp_state ::
  "('st, 'b, 'v) backend \<Rightarrow> 'st \<Rightarrow> string \<Rightarrow> 'v Held \<Rightarrow> string option \<Rightarrow> (fleet_error + 'v Renewed) \<times> 'st" where
  "stamp_state B st name held state =
     fenced_put B st name ((held_lease_of held)\<lparr>ls_state := state\<rparr>) (held_version held)"

definition set_instance ::
  "('st, 'b, 'v) backend \<Rightarrow> 'st \<Rightarrow> string \<Rightarrow> 'v Held \<Rightarrow> string \<Rightarrow> (fleet_error + 'v Renewed) \<times> 'st" where
  "set_instance B st name held iid =
     fenced_put B st name ((held_lease_of held)\<lparr>ls_instance_id := iid\<rparr>) (held_version held)"

definition release :: "('st, 'b, 'v) backend \<Rightarrow> 'st \<Rightarrow> string \<Rightarrow> 'v Held \<Rightarrow> (fleet_error + unit) \<times> 'st" where
  "release B st name held =
     map_prod (map_sum id (\<lambda>_. ()))  id
       (put B st (session_key name) ((held_lease_of held)\<lparr>ls_expires_ms := 0\<rparr>) (PutUpdate (held_version held)))"

section \<open>Many nodes, one name\<close>

text \<open>
  The store, what each node last read and has not acted on, the evidence of
  ownership each node holds, and every record that ever stood under the name.
  \<open>contents\<close> is what the store really holds, which a node only sees through \<open>get\<close>.
\<close>

record ('st, 'v) contest =
  ct_store :: 'st
  ct_seen :: "string \<Rightarrow> (Lease \<times> 'v) option option"
  ct_held :: "string \<Rightarrow> 'v Held option"
  ct_log :: "Lease list"

definition landed :: "('c \<Rightarrow> string \<Rightarrow> 'b option) \<Rightarrow> string \<Rightarrow> 'c \<Rightarrow> 'c \<Rightarrow> Lease \<Rightarrow> Lease list \<Rightarrow> Lease list" where
  "landed contents name st st' lease log =
     (if contents st' (session_key name) = contents st (session_key name) then log else log @ [lease])"

text \<open>What a node keeps of its evidence after a fenced write.\<close>

definition after_write :: "'v Held \<Rightarrow> fleet_error + 'v Renewed \<Rightarrow> 'v Held option" where
  "after_write h res = (case res of Inl _ \<Rightarrow> Some h | Inr (Ren_Held h') \<Rightarrow> Some h' | Inr Ren_Fenced \<Rightarrow> None)"

text \<open>
  Reads and writes of different nodes interleave freely, each node's clock is
  arbitrary at every step, and a node may crash and forget.
\<close>

inductive contest_run ::
  "('st, 'b, 'v) backend \<Rightarrow> ('st \<Rightarrow> string \<Rightarrow> ('b \<times> 'v) option) \<Rightarrow> string \<Rightarrow> ('st, 'v) contest \<Rightarrow> bool"
  for B :: "('st, 'b, 'v) backend" and contents :: "'st \<Rightarrow> string \<Rightarrow> ('b \<times> 'v) option" and name :: string where
  run_start: "contents st (session_key name) = None \<Longrightarrow>
     contest_run B contents name \<lparr>ct_store = st, ct_seen = (\<lambda>_. None), ct_held = (\<lambda>_. None), ct_log = []\<rparr>"
| run_read: "contest_run B contents name c \<Longrightarrow> read_lease B (ct_store c) name = Inr r \<Longrightarrow>
     contest_run B contents name (c\<lparr>ct_seen := (ct_seen c)(n := Some r)\<rparr>)"
| run_take: "contest_run B contents name c \<Longrightarrow> ct_seen c n = Some r \<Longrightarrow>
     acquire_attempt n ep timing now r = Inr (lease, mode) \<Longrightarrow>
     (case r of None \<Rightarrow> True | Some (prev, v) \<Rightarrow> ls_epoch prev < u64_max) \<Longrightarrow>
     put B (ct_store c) (session_key name) lease mode = (res, st') \<Longrightarrow>
     contest_run B contents name (c\<lparr>ct_store := st', ct_seen := (ct_seen c)(n := None),
       ct_held := (case res of Inr (Some v) \<Rightarrow> (ct_held c)(n \<mapsto> \<lparr>held_lease_of = lease, held_version = v\<rparr>)
                             | _ \<Rightarrow> ct_held c),
       ct_log := landed contents name (ct_store c) st' lease (ct_log c)\<rparr>)"
| run_renew: "contest_run B contents name c \<Longrightarrow> ct_held c n = Some h \<Longrightarrow>
     renew B (ct_store c) name h timing now s = (res, st') \<Longrightarrow>
     contest_run B contents name (c\<lparr>ct_store := st', ct_held := (ct_held c)(n := after_write h res),
       ct_log := landed contents name (ct_store c) st'
         ((held_lease_of h)\<lparr>ls_expires_ms := as_i64 (now + ttl_ms timing), ls_state := s\<rparr>) (ct_log c)\<rparr>)"
| run_stamp: "contest_run B contents name c \<Longrightarrow> ct_held c n = Some h \<Longrightarrow>
     stamp_state B (ct_store c) name h s = (res, st') \<Longrightarrow>
     contest_run B contents name (c\<lparr>ct_store := st', ct_held := (ct_held c)(n := after_write h res),
       ct_log := landed contents name (ct_store c) st' ((held_lease_of h)\<lparr>ls_state := s\<rparr>) (ct_log c)\<rparr>)"
| run_instance: "contest_run B contents name c \<Longrightarrow> ct_held c n = Some h \<Longrightarrow>
     set_instance B (ct_store c) name h iid = (res, st') \<Longrightarrow>
     contest_run B contents name (c\<lparr>ct_store := st', ct_held := (ct_held c)(n := after_write h res),
       ct_log := landed contents name (ct_store c) st' ((held_lease_of h)\<lparr>ls_instance_id := iid\<rparr>) (ct_log c)\<rparr>)"
| run_release: "contest_run B contents name c \<Longrightarrow> ct_held c n = Some h \<Longrightarrow>
     release B (ct_store c) name h = (res, st') \<Longrightarrow>
     contest_run B contents name (c\<lparr>ct_store := st', ct_held := (ct_held c)(n := None),
       ct_log := landed contents name (ct_store c) st' ((held_lease_of h)\<lparr>ls_expires_ms := 0\<rparr>) (ct_log c)\<rparr>)"
| run_crash: "contest_run B contents name c \<Longrightarrow>
     contest_run B contents name (c\<lparr>ct_seen := (ct_seen c)(n := None), ct_held := (ct_held c)(n := None)\<rparr>)"

text \<open>One record may follow another: a later epoch, or the same owner at the same epoch.\<close>

definition follows :: "Lease \<Rightarrow> Lease \<Rightarrow> bool" where
  "follows l l' \<longleftrightarrow> ls_epoch l < ls_epoch l' \<or> ls_epoch l = ls_epoch l' \<and> ls_owner l = ls_owner l'"

lemma sorted_snoc_follows:
  assumes "sorted_wrt follows xs" and "xs = [] \<or> follows (last xs) y"
  shows "sorted_wrt follows (xs @ [y])"
proof -
  have trans: "follows a c" if "follows a b" "follows b c" for a b c
    using that by (auto simp: follows_def)
  have "follows x y" if "x \<in> set xs" for x
  proof -
    have ne: "xs = butlast xs @ [last xs]" using that by (metis append_butlast_last_id empty_iff empty_set)
    have "sorted_wrt follows (butlast xs @ [last xs])" using assms(1) ne by metis
    moreover have "x \<in> set (butlast xs @ [last xs])" using that ne by metis
    ultimately have "x = last xs \<or> follows x (last xs)" by (auto simp: sorted_wrt_append)
    thus ?thesis using assms(2) trans that by fastforce
  qed
  thus ?thesis using assms(1) by (simp add: sorted_wrt_append)
qed

section \<open>The contract of a conditional store\<close>

definition admits :: "('st \<Rightarrow> string \<Rightarrow> ('b \<times> 'v) option) \<Rightarrow> 'st \<Rightarrow> string \<Rightarrow> 'v put_mode \<Rightarrow> bool" where
  "admits contents st k mode =
     (case mode of PutCreate \<Rightarrow> contents st k = None
      | PutUpdate u \<Rightarrow> (case contents st k of None \<Rightarrow> False | Some (b, v) \<Rightarrow> v = u))"

text \<open>The version was issued for this record.\<close>

definition evidence ::
  "('st, 'b, 'v) backend \<Rightarrow> ('st \<Rightarrow> string \<Rightarrow> 'v \<Rightarrow> 'b option) \<Rightarrow> 'st \<Rightarrow> string \<Rightarrow> 'v \<Rightarrow> Lease \<Rightarrow> bool" where
  "evidence B issued st name v l \<longleftrightarrow> Option.bind (issued st (session_key name) v) (be_decode B) = Some l"

definition contest_ok ::
  "('st, 'b, 'v) backend \<Rightarrow> ('st \<Rightarrow> string \<Rightarrow> ('b \<times> 'v) option) \<Rightarrow> ('st \<Rightarrow> string \<Rightarrow> 'v \<Rightarrow> 'b option) \<Rightarrow> string
   \<Rightarrow> ('st, 'v) contest \<Rightarrow> bool" where
  "contest_ok B contents issued name c \<longleftrightarrow>
     (case contents (ct_store c) (session_key name) of
        None \<Rightarrow> ct_log c = []
      | Some (b, v) \<Rightarrow> ct_log c \<noteq> [] \<and> be_decode B b = Some (last (ct_log c)))
   \<and> sorted_wrt follows (ct_log c)
   \<and> (\<forall>l \<in> set (ct_log c). 0 < ls_epoch l \<and> ls_epoch l \<le> u64_max)
   \<and> (\<forall>n l v. ct_seen c n = Some (Some (l, v)) \<longrightarrow> evidence B issued (ct_store c) name v l \<and> l \<in> set (ct_log c))
   \<and> (\<forall>n h. ct_held c n = Some h \<longrightarrow> evidence B issued (ct_store c) name (held_version h) (held_lease_of h)
          \<and> held_lease_of h \<in> set (ct_log c) \<and> ls_owner (held_lease_of h) = n)"

locale conditional_store =
  fixes B :: "('st, 'b, 'v) backend"
    and contents :: "'st \<Rightarrow> string \<Rightarrow> ('b \<times> 'v) option"
    and issued :: "'st \<Rightarrow> string \<Rightarrow> 'v \<Rightarrow> 'b option"
  assumes get_sees: "be_get B st k = Inr r \<Longrightarrow> r = contents st k"
    and contents_issued: "contents st k = Some (b, v) \<Longrightarrow> issued st k v = Some b"
    and issued_kept: "be_put B st k b mode = (res, st') \<Longrightarrow> issued st j v = Some b' \<Longrightarrow> issued st' j v = Some b'"
    and put_done: "be_put B st k b mode = (Inr v, st') \<Longrightarrow>
          admits contents st k mode \<and> contents st' = (contents st)(k \<mapsto> (b, v))"
    and put_refused: "be_put B st k b mode = (Inl e, st') \<Longrightarrow> e \<noteq> PE_Other \<Longrightarrow> contents st' = contents st"
    and put_unknown: "be_put B st k b mode = (Inl PE_Other, st') \<Longrightarrow>
          contents st' = contents st \<or>
          admits contents st k mode \<and> (\<exists>v. contents st' = (contents st)(k \<mapsto> (b, v)))"
    and decode_encode: "be_encode B l = Some b \<Longrightarrow> be_decode B b = Some l"
begin

lemma put_effect:
  assumes "put B st k lease mode = (res, st')"
  shows "contents st' = contents st \<and> (\<forall>v. res \<noteq> Inr (Some v))
     \<or> res \<noteq> Inr None \<and> admits contents st k mode \<and> (\<exists>b v. be_encode B lease = Some b
          \<and> contents st' = (contents st)(k \<mapsto> (b, v)) \<and> (\<forall>v'. res = Inr (Some v') \<longrightarrow> v' = v))"
proof (cases "be_encode B lease")
  case None
  thus ?thesis using assms by (auto simp: put_def)
next
  case (Some b)
  obtain r st1 where p: "be_put B st k b mode = (r, st1)" by fastforce
  show ?thesis
  proof (cases r)
    case (Inl e)
    show ?thesis
    proof (cases e)
      case PE_Other
      thus ?thesis using put_unknown [of st k b mode st1] Inl Some p assms by (auto simp: put_def)
    qed (use put_refused [of st k b mode e st1] Inl Some p assms in \<open>auto simp: put_def\<close>)
  next
    case (Inr v)
    thus ?thesis using put_done [of st k b mode v st1] Some p assms by (auto simp: put_def)
  qed
qed

lemma evidence_put:
  assumes "put B st (session_key name) lease mode = (res, st')" and "evidence B issued st name v l"
  shows "evidence B issued st' name v l"
proof (cases "be_encode B lease")
  case None
  thus ?thesis using assms by (simp add: put_def)
next
  case (Some b)
  obtain r where "be_put B st (session_key name) b mode = (r, st')"
    using assms(1) Some by (auto simp: put_def split: prod.splits sum.splits put_error.splits)
  thus ?thesis using assms(2) issued_kept by (auto simp: evidence_def bind_eq_Some_conv)
qed

lemma held_version_current:
  assumes "contest_ok B contents issued name c" and "evidence B issued (ct_store c) name v l"
    and "admits contents (ct_store c) (session_key name) (PutUpdate v)"
  shows "ct_log c \<noteq> [] \<and> last (ct_log c) = l"
proof -
  obtain b where b: "contents (ct_store c) (session_key name) = Some (b, v)"
    using assms(3) by (auto simp: admits_def split: option.splits)
  have "be_decode B b = Some l" using assms(2) contents_issued [OF b] by (simp add: evidence_def)
  thus ?thesis using assms(1) b by (auto simp: contest_ok_def)
qed

text \<open>The step every write takes: a record that may follow the current one lands, or nothing does.\<close>

lemma contest_ok_write:
  assumes "contest_ok B contents issued name c"
    and "put B (ct_store c) (session_key name) lease mode = (res, st')"
    and "admits contents (ct_store c) (session_key name) mode \<Longrightarrow>
           ct_log c = [] \<or> follows (last (ct_log c)) lease"
    and "0 < ls_epoch lease" "ls_epoch lease \<le> u64_max"
  defines "log' \<equiv> landed contents name (ct_store c) st' lease (ct_log c)"
  shows "contest_ok B contents issued name (c\<lparr>ct_store := st', ct_log := log'\<rparr>)"
    and "\<And>v. res = Inr (Some v) \<Longrightarrow> evidence B issued st' name v lease \<and> lease \<in> set log'"
proof -
  let ?k = "session_key name" and ?st = "ct_store c"
  note keep = evidence_put [OF assms(2)]
  have sub: "set (ct_log c) \<subseteq> set log'" by (auto simp: log'_def landed_def)
  have nodes: "(\<forall>n l v. ct_seen c n = Some (Some (l, v)) \<longrightarrow> evidence B issued st' name v l \<and> l \<in> set log')
      \<and> (\<forall>n h. ct_held c n = Some h \<longrightarrow> evidence B issued st' name (held_version h) (held_lease_of h)
          \<and> held_lease_of h \<in> set log' \<and> ls_owner (held_lease_of h) = n)"
    using assms(1) keep sub by (auto simp: contest_ok_def)
  have "contest_ok B contents issued name (c\<lparr>ct_store := st', ct_log := log'\<rparr>)
      \<and> (\<forall>v. res = Inr (Some v) \<longrightarrow> evidence B issued st' name v lease \<and> lease \<in> set log')"
  proof (cases "contents st' = contents ?st \<and> (\<forall>v. res \<noteq> Inr (Some v))")
    case True
    hence "log' = ct_log c" by (simp add: log'_def landed_def)
    thus ?thesis using assms(1) True nodes by (auto simp: contest_ok_def split: option.splits)
  next
    case False
    with put_effect [OF assms(2)] obtain b v where ad: "admits contents ?st ?k mode"
      and enc: "be_encode B lease = Some b" and st': "contents st' = (contents ?st)(?k \<mapsto> (b, v))"
      and res: "\<forall>v'. res = Inr (Some v') \<longrightarrow> v' = v" by blast
    have dec: "be_decode B b = Some lease" using enc by (rule decode_encode)
    have ev: "evidence B issued st' name v lease"
      using contents_issued [of st' ?k b v] st' dec by (simp add: evidence_def)
    have srt: "sorted_wrt follows (ct_log c @ [lease])"
      using assms(1,3) ad sorted_snoc_follows by (auto simp: contest_ok_def)
    have same: "ct_log c \<noteq> [] \<and> last (ct_log c) = lease" if "contents ?st ?k = Some (b, v)"
      using assms(1) that dec by (simp add: contest_ok_def)
    have mem: "lease \<in> set log'" and lst: "log' \<noteq> [] \<and> last log' = lease"
      and srt': "sorted_wrt follows log'"
      and eps: "\<forall>l \<in> set log'. 0 < ls_epoch l \<and> ls_epoch l \<le> u64_max"
      using same last_in_set [of "ct_log c"] srt assms(1,4,5) st'
      by (auto simp: log'_def landed_def contest_ok_def)
    show ?thesis
      using nodes dec ev res st' mem lst srt' eps unfolding contest_ok_def by auto
  qed
  thus "contest_ok B contents issued name (c\<lparr>ct_store := st', ct_log := log'\<rparr>)"
    and "\<And>v. res = Inr (Some v) \<Longrightarrow> evidence B issued st' name v lease \<and> lease \<in> set log'" by blast+
qed

lemma contest_ok_nodes:
  assumes "contest_ok B contents issued name c"
    and "\<And>n l v. seen' n = Some (Some (l, v)) \<Longrightarrow> evidence B issued (ct_store c) name v l \<and> l \<in> set (ct_log c)"
    and "\<And>n h. held' n = Some h \<Longrightarrow> evidence B issued (ct_store c) name (held_version h) (held_lease_of h)
          \<and> held_lease_of h \<in> set (ct_log c) \<and> ls_owner (held_lease_of h) = n"
  shows "contest_ok B contents issued name (c\<lparr>ct_seen := seen', ct_held := held'\<rparr>)"
  using assms by (auto simp: contest_ok_def split: option.splits)

text \<open>A holder's write keeps owner and epoch, so it may follow the record it holds.\<close>

lemma contest_ok_holder:
  assumes "contest_ok B contents issued name c" and "ct_held c n = Some h"
    and "put B (ct_store c) (session_key name) lease (PutUpdate (held_version h)) = (res, st')"
    and "ls_owner lease = ls_owner (held_lease_of h)" "ls_epoch lease = ls_epoch (held_lease_of h)"
    and "keep = None \<or> keep = Some h \<or> (\<exists>v. res = Inr (Some v) \<and> keep = Some \<lparr>held_lease_of = lease, held_version = v\<rparr>)"
  shows "contest_ok B contents issued name (c\<lparr>ct_store := st', ct_held := (ct_held c)(n := keep),
           ct_log := landed contents name (ct_store c) st' lease (ct_log c)\<rparr>)"
proof -
  have h: "evidence B issued (ct_store c) name (held_version h) (held_lease_of h)"
      "held_lease_of h \<in> set (ct_log c)" "ls_owner (held_lease_of h) = n"
    using assms(1,2) by (auto simp: contest_ok_def)
  have fol: "ct_log c = [] \<or> follows (last (ct_log c)) lease"
    if "admits contents (ct_store c) (session_key name) (PutUpdate (held_version h))"
    using held_version_current [OF assms(1) h(1) that] assms(4,5) by (auto simp: follows_def)
  have ep: "0 < ls_epoch lease" "ls_epoch lease \<le> u64_max"
    using assms(1,5) h(2) by (auto simp: contest_ok_def)
  let ?log = "landed contents name (ct_store c) st' lease (ct_log c)"
  let ?c = "c\<lparr>ct_store := st', ct_log := ?log\<rparr>"
  note w = contest_ok_write [OF assms(1,3) fol ep]
  have mono: "set (ct_log c) \<subseteq> set ?log" by (auto simp: landed_def)
  note keep = evidence_put [OF assms(3)]
  have "contest_ok B contents issued name (?c\<lparr>ct_seen := ct_seen c, ct_held := (ct_held c)(n := keep)\<rparr>)"
  proof (rule contest_ok_nodes [OF w(1)])
    show "evidence B issued (ct_store ?c) name (held_version h') (held_lease_of h')
          \<and> held_lease_of h' \<in> set (ct_log ?c) \<and> ls_owner (held_lease_of h') = m"
      if "((ct_held c)(n := keep)) m = Some h'" for m h'
      using that assms(1,4,6) h w(2) mono keep by (auto simp: contest_ok_def split: if_splits)
  qed (use assms(1) mono keep in \<open>auto simp: contest_ok_def\<close>)
  thus ?thesis by (cases c) simp
qed

lemma contest_ok_fenced:
  assumes "contest_ok B contents issued name c" and "ct_held c n = Some h"
    and "fenced_put B (ct_store c) name lease (held_version h) = (res, st')"
    and "ls_owner lease = ls_owner (held_lease_of h)" "ls_epoch lease = ls_epoch (held_lease_of h)"
  shows "contest_ok B contents issued name (c\<lparr>ct_store := st', ct_held := (ct_held c)(n := after_write h res),
           ct_log := landed contents name (ct_store c) st' lease (ct_log c)\<rparr>)"
proof -
  obtain r where r: "put B (ct_store c) (session_key name) lease (PutUpdate (held_version h)) = (r, st')"
    and "after_write h res = None \<or> after_write h res = Some h \<or>
         (\<exists>v. r = Inr (Some v) \<and> after_write h res = Some \<lparr>held_lease_of = lease, held_version = v\<rparr>)"
    using assms(3)
    by (auto simp: fenced_put_def after_write_def split: prod.splits sum.splits option.splits)
  thus ?thesis by (intro contest_ok_holder [OF assms(1,2) r assms(4,5)])
qed

lemma contest_ok_take:
  assumes "contest_ok B contents issued name c" and "ct_seen c n = Some r"
    and "acquire_attempt n ep timing now r = Inr (lease, mode)"
    and "case r of None \<Rightarrow> True | Some (prev, v) \<Rightarrow> ls_epoch prev < u64_max"
    and "put B (ct_store c) (session_key name) lease mode = (res, st')"
  shows "contest_ok B contents issued name (c\<lparr>ct_store := st', ct_seen := (ct_seen c)(n := None),
       ct_held := (case res of Inr (Some v) \<Rightarrow> (ct_held c)(n \<mapsto> \<lparr>held_lease_of = lease, held_version = v\<rparr>)
                             | _ \<Rightarrow> ct_held c),
       ct_log := landed contents name (ct_store c) st' lease (ct_log c)\<rparr>)"
proof -
  have own: "ls_owner lease = n"
    using assms(3) by (auto simp: acquire_attempt_def Let_def split: option.splits if_splits)
  have "(admits contents (ct_store c) (session_key name) mode \<longrightarrow>
           ct_log c = [] \<or> follows (last (ct_log c)) lease) \<and> 0 < ls_epoch lease \<and> ls_epoch lease \<le> u64_max"
  proof (cases r)
    case None
    thus ?thesis using assms(1,3)
      by (auto simp: acquire_attempt_def admits_def contest_ok_def u64_max_def split: option.splits)
  next
    case (Some pv)
    obtain prev v where pv: "pv = (prev, v)" by fastforce
    have seen: "evidence B issued (ct_store c) name v prev" "prev \<in> set (ct_log c)"
      using assms(1,2) Some pv by (auto simp: contest_ok_def)
    have ep: "0 < ls_epoch prev" "ls_epoch prev < u64_max"
      using assms(1,4) seen(2) Some pv by (auto simp: contest_ok_def)
    hence "as_u64 (ls_epoch prev + 1) = ls_epoch prev + 1" by (simp add: machine_defs)
    thus ?thesis
      using held_version_current [OF assms(1) seen(1)] assms(3) Some pv ep
      by (auto simp: acquire_attempt_def Let_def follows_def split: if_splits)
  qed
  hence fol: "admits contents (ct_store c) (session_key name) mode \<Longrightarrow>
      ct_log c = [] \<or> follows (last (ct_log c)) lease" and ep: "0 < ls_epoch lease" "ls_epoch lease \<le> u64_max"
    by auto
  let ?log = "landed contents name (ct_store c) st' lease (ct_log c)"
  let ?c = "c\<lparr>ct_store := st', ct_log := ?log\<rparr>"
  let ?held = "case res of Inr (Some v) \<Rightarrow> (ct_held c)(n \<mapsto> \<lparr>held_lease_of = lease, held_version = v\<rparr>) | _ \<Rightarrow> ct_held c"
  note w = contest_ok_write [OF assms(1,5) fol ep]
  have mono: "set (ct_log c) \<subseteq> set ?log" by (auto simp: landed_def)
  note keep = evidence_put [OF assms(5)]
  have "contest_ok B contents issued name (?c\<lparr>ct_seen := (ct_seen c)(n := None), ct_held := ?held\<rparr>)"
  proof (rule contest_ok_nodes [OF w(1)])
    show "evidence B issued (ct_store ?c) name (held_version h') (held_lease_of h')
          \<and> held_lease_of h' \<in> set (ct_log ?c) \<and> ls_owner (held_lease_of h') = m"
      if "?held m = Some h'" for m h'
      using that assms(1) own w(2) mono keep
      by (auto simp: contest_ok_def split: if_splits sum.splits option.splits)
  qed (use assms(1) mono keep in \<open>auto simp: contest_ok_def split: if_splits\<close>)
  thus ?thesis by (cases c) simp
qed

lemma contest_run_ok: "contest_run B contents name c \<Longrightarrow> contest_ok B contents issued name c"
proof (induction rule: contest_run.induct)
  case (run_start st)
  thus ?case by (simp add: contest_ok_def)
next
  case (run_read c r n)
  have "evidence B issued (ct_store c) name v l \<and> l \<in> set (ct_log c)" if eq: "r = Some (l, v)" for l v
  proof -
    obtain b where g: "be_get B (ct_store c) (session_key name) = Inr (Some (b, v))" and d: "be_decode B b = Some l"
      using run_read.hyps(2) eq by (auto simp: read_lease_def split: sum.splits option.splits)
    have k: "contents (ct_store c) (session_key name) = Some (b, v)" using get_sees [OF g] by simp
    thus ?thesis using run_read.IH contents_issued [OF k] d by (auto simp: contest_ok_def evidence_def)
  qed
  hence "contest_ok B contents issued name
      (c\<lparr>ct_seen := (ct_seen c)(n := Some r), ct_held := ct_held c\<rparr>)"
    using run_read.IH by (intro contest_ok_nodes) (auto simp: contest_ok_def split: if_splits)
  thus ?case by simp
next
  case (run_take c n r ep timing now lease mode res st')
  show ?case by (rule contest_ok_take [OF run_take.IH run_take.hyps(2-5)])
next
  case (run_renew c n h timing now s res st')
  thus ?case by (intro contest_ok_fenced) (simp_all add: renew_def)
next
  case (run_stamp c n h s res st')
  thus ?case by (intro contest_ok_fenced) (simp_all add: stamp_state_def)
next
  case (run_instance c n h iid res st')
  thus ?case by (intro contest_ok_fenced) (simp_all add: set_instance_def)
next
  case (run_release c n h res st')
  obtain r s where r: "put B (ct_store c) (session_key name) ((held_lease_of h)\<lparr>ls_expires_ms := 0\<rparr>)
      (PutUpdate (held_version h)) = (r, s)" by fastforce
  moreover have "s = st'" using run_release.hyps(3) r by (simp add: release_def)
  ultimately show ?case by (intro contest_ok_holder [OF run_release.IH run_release.hyps(2)]) simp_all
next
  case (run_crash c n)
  have "contest_ok B contents issued name
      (c\<lparr>ct_seen := (ct_seen c)(n := None), ct_held := (ct_held c)(n := None)\<rparr>)"
    using run_crash.IH by (intro contest_ok_nodes) (auto simp: contest_ok_def split: if_splits)
  thus ?case .
qed

text \<open>A holder whose epoch is no longer the current one cannot write: its condition fails.\<close>

lemma superseded_put:
  assumes "contest_ok B contents issued name c" and "ct_held c n = Some h"
    and "ls_epoch (held_lease_of h) \<noteq> ls_epoch (last (ct_log c))"
    and "put B (ct_store c) (session_key name) lease (PutUpdate (held_version h)) = (res, st')"
  shows "contents st' = contents (ct_store c) \<and> (\<forall>v. res \<noteq> Inr (Some v))"
proof -
  have "evidence B issued (ct_store c) name (held_version h) (held_lease_of h)"
    using assms(1,2) by (auto simp: contest_ok_def)
  hence "\<not> admits contents (ct_store c) (session_key name) (PutUpdate (held_version h))"
    using held_version_current [OF assms(1)] assms(3) by fastforce
  thus ?thesis using put_effect [OF assms(4)] by blast
qed

lemma superseded_write:
  assumes "contest_ok B contents issued name c" and "ct_held c n = Some h"
    and "ls_epoch (held_lease_of h) \<noteq> ls_epoch (last (ct_log c))"
    and "fenced_put B (ct_store c) name lease (held_version h) = (res, st')"
  shows "contents st' = contents (ct_store c) \<and> (\<forall>h'. res \<noteq> Inr (Ren_Held h'))"
proof -
  obtain r s where r: "put B (ct_store c) (session_key name) lease (PutUpdate (held_version h)) = (r, s)" by fastforce
  from superseded_put [OF assms(1-3) r] show ?thesis
    using assms(4) r by (auto simp: fenced_put_def split: sum.splits option.splits)
qed

end

section \<open>Two stores that keep the contract\<close>

text \<open>
  Bodies are the leases themselves.  In the first a version is the content; in the
  second the store is the log of all writes and a version is a position in it.
\<close>

definition hashed_bucket :: "(string \<rightharpoonup> Lease, Lease, Lease) backend" where
  "hashed_bucket =
     \<lparr>be_get = (\<lambda>st k. Inr (map_option (\<lambda>b. (b, b)) (st k))),
      be_put = (\<lambda>st k b mode.
        case mode of
          PutCreate \<Rightarrow> (if st k = None then (Inr b, st(k \<mapsto> b)) else (Inl PE_AlreadyExists, st))
        | PutUpdate v \<Rightarrow> (if st k = Some v then (Inr b, st(k \<mapsto> b)) else (Inl PE_Precondition, st))),
      be_encode = Some, be_decode = Some\<rparr>"

definition hashed_contents :: "(string \<rightharpoonup> Lease) \<Rightarrow> string \<Rightarrow> (Lease \<times> Lease) option" where
  "hashed_contents st k = map_option (\<lambda>b. (b, b)) (st k)"

interpretation hashed: conditional_store hashed_bucket hashed_contents "\<lambda>st k v. Some v"
  by unfold_locales
    (auto simp: hashed_bucket_def hashed_contents_def admits_def fun_eq_iff split: put_mode.splits if_splits)

text \<open>The newest write of a key, with its position.\<close>

primrec newest :: "(string \<times> Lease) list \<Rightarrow> string \<Rightarrow> (Lease \<times> nat) option" where
  "newest [] k = None"
| "newest (w # older) k = (if fst w = k then Some (snd w, length older) else newest older k)"

primrec written_at :: "(string \<times> Lease) list \<Rightarrow> string \<Rightarrow> nat \<Rightarrow> Lease option" where
  "written_at [] k i = None"
| "written_at (w # older) k i =
     (if i = length older \<and> fst w = k then Some (snd w) else written_at older k i)"

definition versioned_bucket :: "((string \<times> Lease) list, Lease, nat) backend" where
  "versioned_bucket =
     \<lparr>be_get = (\<lambda>st k. Inr (newest st k)),
      be_put = (\<lambda>st k b mode.
        case mode of
          PutCreate \<Rightarrow> (if newest st k = None then (Inr (length st), (k, b) # st) else (Inl PE_AlreadyExists, st))
        | PutUpdate v \<Rightarrow> (if map_option snd (newest st k) = Some v then (Inr (length st), (k, b) # st)
                          else (Inl PE_Precondition, st))),
      be_encode = Some, be_decode = Some\<rparr>"

lemma written_at_bound: "written_at st k i = Some b \<Longrightarrow> i < length st"
  by (induction st) (auto split: if_splits)

lemma newest_written: "newest st k = Some (b, i) \<Longrightarrow> written_at st k i = Some b"
  by (induction st) (auto split: if_splits dest: written_at_bound)

interpretation versioned: conditional_store versioned_bucket newest written_at
  by unfold_locales
    (auto simp: versioned_bucket_def admits_def fun_eq_iff newest_written
      split: put_mode.splits if_splits option.splits dest: written_at_bound)

section \<open>A sample contest\<close>

text \<open>Node a takes the name; b, whose clock is ahead, finds the lease expired and takes it over.\<close>

definition sample_lease :: "string \<Rightarrow> int \<Rightarrow> ms \<Rightarrow> Lease" where
  "sample_lease n e t = \<lparr>ls_owner = n, ls_epoch = e, ls_expires_ms = t, ls_endpoint = [],
     ls_instance_id = [], ls_state = None\<rparr>"

definition sample_contest :: "((string \<times> Lease) list, nat) contest" where
  "sample_contest =
     \<lparr>ct_store = [(''sessions/web'', sample_lease ''b'' 2 35000), (''sessions/web'', sample_lease ''a'' 1 15000)],
      ct_seen = (\<lambda>_. None),
      ct_held = [''a'' \<mapsto> \<lparr>held_lease_of = sample_lease ''a'' 1 15000, held_version = 0\<rparr>,
                 ''b'' \<mapsto> \<lparr>held_lease_of = sample_lease ''b'' 2 35000, held_version = 1\<rparr>],
      ct_log = [sample_lease ''a'' 1 15000, sample_lease ''b'' 2 35000]\<rparr>"

lemma sample_contest_run: "contest_run versioned_bucket newest ''web'' sample_contest"
proof -
  let ?run = "contest_run versioned_bucket newest ''web''"
  let ?la = "sample_lease ''a'' 1 15000" and ?lb = "sample_lease ''b'' 2 35000"
  note d = read_lease_def versioned_bucket_def session_key_def put_def acquire_attempt_def ttl_ms_def
    default_timing_def sample_lease_def is_expired_at_def landed_def machine_defs
  let ?c0 = "\<lparr>ct_store = [], ct_seen = (\<lambda>_. None), ct_held = (\<lambda>_. None), ct_log = []\<rparr> :: ((string \<times> Lease) list, nat) contest"
  let ?c1 = "?c0\<lparr>ct_seen := [''a'' \<mapsto> None]\<rparr>"
  let ?c2 = "\<lparr>ct_store = [(''sessions/web'', ?la)], ct_seen = (\<lambda>_. None),
     ct_held = [''a'' \<mapsto> \<lparr>held_lease_of = ?la, held_version = 0\<rparr>], ct_log = [?la]\<rparr> :: ((string \<times> Lease) list, nat) contest"
  let ?c3 = "?c2\<lparr>ct_seen := [''b'' \<mapsto> Some (?la, 0)]\<rparr>"
  have r1: "read_lease versioned_bucket (ct_store ?c0) ''web'' = Inr None"
    and r2: "read_lease versioned_bucket (ct_store ?c2) ''web'' = Inr (Some (?la, 0))"
    by (simp_all add: d)
  have a1: "acquire_attempt ''a'' [] default_timing 0 (None :: (Lease \<times> nat) option) = Inr (?la, PutCreate)"
    and a2: "acquire_attempt ''b'' [] default_timing 20000 (Some (?la, 0 :: nat)) = Inr (?lb, PutUpdate 0)"
    by (simp_all add: d)
  have p1: "put versioned_bucket (ct_store ?c1) (session_key ''web'') ?la PutCreate
      = (Inr (Some 0), [(''sessions/web'', ?la)])"
    and p2: "put versioned_bucket (ct_store ?c3) (session_key ''web'') ?lb (PutUpdate 0)
      = (Inr (Some 1), [(''sessions/web'', ?lb), (''sessions/web'', ?la)])"
    by (simp_all add: d)
  have l1: "landed newest ''web'' [] [(''sessions/web'', ?la)] ?la [] = [?la]"
    and l2: "landed newest ''web'' [(''sessions/web'', ?la)] [(''sessions/web'', ?lb), (''sessions/web'', ?la)] ?lb [?la]
      = [?la, ?lb]"
    and e: "ls_epoch ?la < u64_max"
    by (simp_all add: d)
  have "?run ?c0" by (rule run_start) simp
  from run_read [OF this r1, of "''a''"] have "?run ?c1" by simp
  from run_take [OF this _ a1 _ p1] have "?run ?c2" by (simp add: l1)
  from run_read [OF this r2, of "''b''"] have "?run ?c3" by simp
  from run_take [OF this _ a2 _ p2] show ?thesis using e by (simp add: l2 sample_contest_def)
qed

section \<open>Properties\<close>

lemma follows_epoch_owner:
  assumes "sorted_wrt follows log" and "l \<in> set log" "l' \<in> set log" and "ls_epoch l = ls_epoch l'"
  shows "ls_owner l = ls_owner l'"
proof -
  from assms(2,3) obtain i j where ij: "i < length log" "j < length log" "l = log ! i" "l' = log ! j"
    by (metis in_set_conv_nth)
  show ?thesis
    using ij assms(1,4) sorted_wrt_nth_less [of follows log i j] sorted_wrt_nth_less [of follows log j i]
    by (cases i j rule: linorder_cases) (auto simp: follows_def)
qed

text \<open>
  C4: one owner per epoch, on any store that keeps its conditional-write contract and
  with clocks that may lie arbitrarily.  Over every interleaving of reads, takeovers,
  renewals, stamps, releases and crashes, the records of a name carry epochs that
  never go back, two records of one epoch have one owner, and two nodes never hold
  evidence of the same epoch.
\<close>

theorem one_owner_per_epoch:
  assumes "conditional_store B contents issued" and "contest_run B contents name c"
  shows "sorted (map ls_epoch (ct_log c))
    \<and> (\<forall>l \<in> set (ct_log c). \<forall>l' \<in> set (ct_log c). ls_epoch l = ls_epoch l' \<longrightarrow> ls_owner l = ls_owner l')
    \<and> (\<forall>n m h h'. ct_held c n = Some h \<longrightarrow> ct_held c m = Some h' \<longrightarrow>
         ls_epoch (held_lease_of h) = ls_epoch (held_lease_of h') \<longrightarrow> n = m)"
proof -
  have ok: "contest_ok B contents issued name c"
    using conditional_store.contest_run_ok [OF assms] .
  hence srt: "sorted_wrt follows (ct_log c)" by (simp add: contest_ok_def)
  have "sorted (map ls_epoch (ct_log c))"
    using srt unfolding sorted_wrt_map by (rule sorted_wrt_mono_rel [rotated]) (auto simp: follows_def)
  moreover have "n = m" if "ct_held c n = Some h" "ct_held c m = Some h'"
    "ls_epoch (held_lease_of h) = ls_epoch (held_lease_of h')" for n m h h'
  proof -
    have "held_lease_of h \<in> set (ct_log c) \<and> ls_owner (held_lease_of h) = n"
      "held_lease_of h' \<in> set (ct_log c) \<and> ls_owner (held_lease_of h') = m"
      using ok that(1,2) unfolding contest_ok_def by blast+
    thus ?thesis using follows_epoch_owner [OF srt] that(3) by metis
  qed
  ultimately show ?thesis using follows_epoch_owner [OF srt] by blast
qed

theorem one_owner_per_epoch_witness:
  "sorted (map ls_epoch (ct_log sample_contest)) \<and> length (ct_log sample_contest) = 2"
  using one_owner_per_epoch [OF versioned.conditional_store_axioms sample_contest_run]
  by (simp add: sample_contest_def)

text \<open>
  C5: a superseded owner is fenced by the store and not by a clock.  Once the name has
  moved past its epoch, none of its writes reaches the record, whatever it tries and
  whatever time it believes it is.
\<close>

theorem superseded_owner_is_fenced:
  assumes "conditional_store B contents issued" and "contest_run B contents name c"
    and "ct_held c n = Some h" and "ls_epoch (held_lease_of h) \<noteq> ls_epoch (last (ct_log c))"
  shows "contents (snd (renew B (ct_store c) name h timing now s)) = contents (ct_store c)
    \<and> fst (renew B (ct_store c) name h timing now s) \<noteq> Inr (Ren_Held h')
    \<and> contents (snd (stamp_state B (ct_store c) name h s)) = contents (ct_store c)
    \<and> fst (stamp_state B (ct_store c) name h s) \<noteq> Inr (Ren_Held h')
    \<and> contents (snd (set_instance B (ct_store c) name h iid)) = contents (ct_store c)
    \<and> fst (set_instance B (ct_store c) name h iid) \<noteq> Inr (Ren_Held h')
    \<and> contents (snd (release B (ct_store c) name h)) = contents (ct_store c)"
proof -
  have ok: "contest_ok B contents issued name c"
    using conditional_store.contest_run_ok [OF assms(1,2)] .
  note put = conditional_store.superseded_put [OF assms(1) ok assms(3,4)]
  note fput = conditional_store.superseded_write [OF assms(1) ok assms(3,4)]
  have "contents (snd (fenced_put B (ct_store c) name l (held_version h))) = contents (ct_store c)
      \<and> fst (fenced_put B (ct_store c) name l (held_version h)) \<noteq> Inr (Ren_Held h')" for l
    using fput [of l] by (metis prod.collapse)
  moreover have "contents (snd (release B (ct_store c) name h)) = contents (ct_store c)"
    using put [of "(held_lease_of h)\<lparr>ls_expires_ms := 0\<rparr>"] by (simp add: release_def) (metis prod.collapse)
  ultimately show ?thesis by (simp add: renew_def stamp_state_def set_instance_def)
qed

theorem superseded_owner_is_fenced_witness:
  "newest (snd (renew versioned_bucket (ct_store sample_contest) ''web''
      \<lparr>held_lease_of = sample_lease ''a'' 1 15000, held_version = 0\<rparr> default_timing 1 None))
   = newest (ct_store sample_contest)"
  using superseded_owner_is_fenced [OF versioned.conditional_store_axioms sample_contest_run, of "''a''"]
  by (simp add: sample_contest_def sample_lease_def)

text \<open>
  Every outcome of one undisturbed attempt.  A held result names this node, is
  what the store now holds, and carries epoch 1 for a new name, the same epoch for an
  unexpired lease of its own and the next epoch otherwise; a refusal for a live owner
  changes nothing and names exactly that owner; a contended attempt changes nothing.
\<close>

theorem acquire_outcome:
  assumes "conditional_store B contents issued"
    and "acquire B st name me ep timing now = (Inr out, st')"
    and "read_lease B st name = Inr seen"
  shows "case out of
      Acq_Held h \<Rightarrow> ls_owner (held_lease_of h) = me \<and> ls_state (held_lease_of h) = None
        \<and> ls_epoch (held_lease_of h) =
            (case seen of None \<Rightarrow> 1
             | Some (prev, _) \<Rightarrow> if ls_owner prev = me \<and> \<not> is_expired_at prev now then ls_epoch prev
                             else as_u64 (ls_epoch prev + 1))
        \<and> (\<exists>b. be_decode B b = Some (held_lease_of h)
              \<and> contents st' = (contents st)(session_key name \<mapsto> (b, held_version h)))
    | Acq_HeldByOther owner expires \<Rightarrow> st' = st \<and> owner \<noteq> me \<and> now < expires
        \<and> (\<exists>prev v. seen = Some (prev, v) \<and> ls_owner prev = owner \<and> ls_expires_ms prev = expires)
    | Acq_Contended \<Rightarrow> \<forall>k. contents st' k = contents st k"
proof -
  note eff = conditional_store.put_effect [OF assms(1)]
  note dec = conditional_store.decode_encode [OF assms(1)]
  have valid: "validate timing = Inr ()"
    using assms(2) by (auto simp: acquire_def split: sum.splits)
  show ?thesis
  proof (cases "acquire_attempt me ep timing now seen")
    case (Inl oe)
    thus ?thesis using assms(2,3) valid
      by (auto simp: acquire_def acquire_attempt_def Let_def is_expired_at_def split: option.splits if_splits)
  next
    case (Inr lm)
    obtain lease mode where lm: "lm = (lease, mode)" by fastforce
    obtain r s where p: "put B st (session_key name) lease mode = (r, s)" by fastforce
    have out: "(Inr out, st') = (case r of Inl e \<Rightarrow> (Inl e, s)
        | Inr None \<Rightarrow> (Inr Acq_Contended, s)
        | Inr (Some v) \<Rightarrow> (Inr (Acq_Held \<lparr>held_lease_of = lease, held_version = v\<rparr>), s))"
      using assms(2,3) valid Inr lm p by (auto simp: acquire_def split: sum.splits option.splits)
    have lease: "ls_owner lease = me \<and> ls_state lease = None \<and> ls_epoch lease =
            (case seen of None \<Rightarrow> 1
             | Some (prev, _) \<Rightarrow> if ls_owner prev = me \<and> \<not> is_expired_at prev now then ls_epoch prev
                             else as_u64 (ls_epoch prev + 1))"
      using Inr lm by (auto simp: acquire_attempt_def Let_def split: option.splits if_splits)
    show ?thesis
      using out lease eff [OF p] dec
      by (auto split: sum.splits option.splits)
  qed
qed

theorem acquire_outcome_witness:
  "\<exists>h st'. acquire versioned_bucket [] ''web'' ''a'' [] default_timing 0 = (Inr (Acq_Held h), st')
     \<and> ls_epoch (held_lease_of h) = 1 \<and> ls_owner (held_lease_of h) = ''a''"
proof -
  have read: "read_lease versioned_bucket [] ''web'' = Inr None"
    by (simp add: read_lease_def versioned_bucket_def)
  obtain h st' where acq: "acquire versioned_bucket [] ''web'' ''a'' [] default_timing 0 = (Inr (Acq_Held h), st')"
    by (simp add: acquire_def read_lease_def acquire_attempt_def put_def versioned_bucket_def validate_def default_timing_def)
  from acquire_outcome [OF versioned.conditional_store_axioms acq read] acq show ?thesis by simp
qed

text \<open>
  An epoch can change without the owner changing: a node that lets its own lease
  expire and acquires it again is at the next epoch of a name it never lost.
\<close>

theorem epoch_moves_without_takeover:
  "let st0 = []; (r1, st1) = acquire versioned_bucket st0 ''web'' ''a'' [] default_timing 0;
       (r2, st2) = acquire versioned_bucket st1 ''web'' ''a'' [] default_timing 20000
   in map_sum id (map_option (\<lambda>l. (ls_owner l, ls_epoch l))) (resolve versioned_bucket st1 ''web'') = Inr (Some (''a'', 1))
      \<and> map_sum id (map_option (\<lambda>l. (ls_owner l, ls_epoch l))) (resolve versioned_bucket st2 ''web'') = Inr (Some (''a'', 2))"
  by (simp add: acquire_def read_lease_def resolve_def acquire_attempt_def put_def versioned_bucket_def
      validate_def default_timing_def is_expired_at_def session_key_def ttl_ms_def machine_defs)

end
