(* ===== verification/Fleet_Desired.thy ===== *)
theory Fleet_Desired
  imports Fleet_Lease Contract "HOL-Library.Word"
begin

text \<open>
  \<open>barista-fleet/src/desired.rs\<close>: the record at \<open>desired/<name>\<close> and the base64 its
  spec bytes are kept in.  Bytes are 8-bit words and the accumulators are 32-bit
  words, as in the source.  The protobuf encoding of a spec is generated code and an
  argument.
\<close>

unbundle bit_operations_syntax

section \<open>base64\<close>

definition ALPHABET :: string where
  "ALPHABET = ''ABCDEFGHIJKLMNOPQRSTUVWXYZabcdefghijklmnopqrstuvwxyz0123456789+/''"

type_synonym octets = "8 word list"

text \<open>The 24 bits of a chunk of at most three bytes, missing bytes being zero.\<close>

definition chunk_bits :: "octets \<Rightarrow> 32 word" where
  "chunk_bits chunk =
    (let b = (\<lambda>i. if i < length chunk then ucast (chunk ! i) else 0 :: 32 word)
     in push_bit 16 (b 0) OR push_bit 8 (b 1) OR b 2)"

definition digit :: "32 word \<Rightarrow> nat \<Rightarrow> char" where
  "digit n i = ALPHABET ! unat (drop_bit (18 - 6 * i) n AND 0x3F)"

definition encode_chunk :: "octets \<Rightarrow> string" where
  "encode_chunk chunk =
     map (\<lambda>i. if i \<le> length chunk then digit (chunk_bits chunk) i else CHR ''='') [0, 1, 2, 3]"

fun encode :: "octets \<Rightarrow> string" where
  "encode (b0 # b1 # b2 # rest) = encode_chunk [b0, b1, b2] @ encode rest"
| "encode [b0, b1] = encode_chunk [b0, b1]"
| "encode [b0] = encode_chunk [b0]"
| "encode [] = []"

fun position :: "'a list \<Rightarrow> 'a \<Rightarrow> nat option" where
  "position [] c = None"
| "position (a # as) c = (if a = c then Some 0 else map_option Suc (position as c))"

text \<open>One turn of the loop in \<open>decode\<close>: the accumulator, the bits it holds, the output.\<close>

definition decode_step :: "32 word \<times> nat \<times> octets \<Rightarrow> nat \<Rightarrow> 32 word \<times> nat \<times> octets" where
  "decode_step s v =
    (case s of (acc, bits, out) \<Rightarrow>
      let acc = push_bit 6 acc OR of_nat v; bits = bits + 6
      in if bits \<ge> 8 then (acc, bits - 8, out @ [ucast (drop_bit (bits - 8) acc)])
         else (acc, bits, out))"

fun decode_loop :: "string \<Rightarrow> 32 word \<times> nat \<times> octets \<Rightarrow> string + octets" where
  "decode_loop [] s = Inr (snd (snd s))"
| "decode_loop (c # cs) s =
     (if c = CHR ''='' then decode_loop cs s
      else case position ALPHABET c of
        None \<Rightarrow> Inl ''not base64''
      | Some v \<Rightarrow> decode_loop cs (decode_step s v))"

definition decode :: "string \<Rightarrow> string + octets" where
  "decode text = decode_loop text (0, 0, [])"

section \<open>The record\<close>

datatype OnOwnerLoss = Coldboot | Hold

definition SCHEMA_VERSION :: int where
  "SCHEMA_VERSION = 1"

record Desired =
  ds_schema_version :: int
  ds_name :: string
  ds_spec :: octets
  ds_on_owner_loss :: OnOwnerLoss

definition new_desired :: "(instance_spec \<Rightarrow> octets) \<Rightarrow> string \<Rightarrow> instance_spec \<Rightarrow> Desired" where
  "new_desired encode_to_vec name sp =
     \<lparr>ds_schema_version = SCHEMA_VERSION, ds_name = name, ds_spec = encode_to_vec sp,
      ds_on_owner_loss = Coldboot\<rparr>"

definition spec_of :: "(octets \<Rightarrow> instance_spec option) \<Rightarrow> Desired \<Rightarrow> fleet_error + instance_spec" where
  "spec_of decode_spec d =
     (if ds_schema_version d > SCHEMA_VERSION
      then Inl (FE_Config (''desired/'' @ ds_name d @ '' is a newer schema version''))
      else case decode_spec (ds_spec d) of
        None \<Rightarrow> Inl (FE_Encode (''desired/'' @ ds_name d))
      | Some sp \<Rightarrow> Inr sp)"

section \<open>The round trip\<close>

lemma distinct_ALPHABET: "distinct ALPHABET" and length_ALPHABET: "length ALPHABET = 64"
  and pad_not_in_ALPHABET: "CHR ''='' \<notin> set ALPHABET"
  by (simp_all add: ALPHABET_def)

lemma position_nth: "distinct xs \<Longrightarrow> i < length xs \<Longrightarrow> position xs (xs ! i) = Some i"
  by (induction xs arbitrary: i) (auto simp: nth_Cons split: nat.splits)

lemma six_bits: "unat ((w :: 32 word) AND 0x3F) < 64"
proof -
  have "w AND 0x3F \<le> 0x3F" by (simp add: word_and_le1)
  hence "unat (w AND 0x3F) \<le> unat (0x3F :: 32 word)" by (simp add: word_le_nat_alt)
  thus ?thesis by simp
qed

lemma decode_digit:
  "decode_loop (digit n i # cs) s = decode_loop cs (decode_step s (unat (drop_bit (18 - 6 * i) n AND 0x3F)))"
proof -
  let ?v = "unat (drop_bit (18 - 6 * i) n AND 0x3F)"
  have v: "?v < length ALPHABET" using six_bits by (simp add: length_ALPHABET)
  have "digit n i \<noteq> CHR ''=''" unfolding digit_def using nth_mem [OF v] pad_not_in_ALPHABET by metis
  moreover have "position ALPHABET (digit n i) = Some ?v"
    unfolding digit_def by (rule position_nth [OF distinct_ALPHABET v])
  ultimately show ?thesis by simp
qed

lemma decode_pad: "decode_loop (CHR ''='' # cs) s = decode_loop cs s"
  by simp

lemma byte_eqI:
  fixes a b :: "8 word"
  assumes "\<And>k. k \<in> {0, 1, 2, 3, 4, 5, 6, 7} \<Longrightarrow> bit a k \<longleftrightarrow> bit b k"
  shows "a = b"
proof (rule bit_word_eqI)
  fix k assume "k < LENGTH(8)"
  hence "k \<in> {0, 1, 2, 3, 4, 5, 6, 7}" by auto
  thus "bit a k \<longleftrightarrow> bit b k" by (rule assms)
qed

lemma sextet_mask: "(0x3F :: 32 word) = mask 6"
  by (simp add: mask_eq_exp_minus_1)

lemma byte_top [simp]: "8 \<le> k \<Longrightarrow> \<not> bit (b :: 8 word) k"
  by (auto dest: bit_imp_le_length)

text \<open>The three bytes come back, whatever the accumulator held before.\<close>

definition sextet :: "32 word \<Rightarrow> nat \<Rightarrow> 32 word" where
  "sextet n i = drop_bit (18 - 6 * i) n AND 0x3F"

definition shift_in :: "32 word \<Rightarrow> 32 word \<Rightarrow> 32 word" where
  "shift_in acc d = push_bit 6 acc OR d"

lemma sextet_bits:
  "(ucast (drop_bit 4 (shift_in (shift_in acc (sextet n 0)) (sextet n 1))) :: 8 word) = ucast (drop_bit 16 n)"
  "(ucast (drop_bit 2 (shift_in (shift_in acc (sextet n 1)) (sextet n 2))) :: 8 word) = ucast (drop_bit 8 n)"
  "(ucast (shift_in (shift_in acc (sextet n 2)) (sextet n 3)) :: 8 word) = ucast n"
  by (rule byte_eqI; elim insertE emptyE; simp add: shift_in_def sextet_def sextet_mask bit_simps)+

lemma chunk_bytes:
  fixes b0 b1 b2 :: "8 word"
  shows "(ucast (drop_bit 16 (chunk_bits (b0 # cs))) :: 8 word) = b0"
    and "(ucast (drop_bit 8 (chunk_bits (b0 # b1 # cs))) :: 8 word) = b1"
    and "(ucast (chunk_bits (b0 # b1 # b2 # cs)) :: 8 word) = b2"
  by (rule byte_eqI; elim insertE emptyE; simp add: chunk_bits_def Let_def bit_simps)+

lemma decode_sextet:
  "decode_loop (digit n i # cs) (acc, bits, out) =
     (let acc' = shift_in acc (sextet n i)
      in decode_loop cs (if bits + 6 \<ge> 8 then (acc', bits + 6 - 8, out @ [ucast (drop_bit (bits + 6 - 8) acc')])
                         else (acc', bits + 6, out)))"
  unfolding decode_digit by (simp add: decode_step_def shift_in_def sextet_def Let_def)

lemmas sextets = decode_sextet Let_def sextet_bits [simplified One_nat_def] chunk_bytes

lemma decode_encode_chunk:
  "\<exists>acc'. decode_loop (encode_chunk [b0, b1, b2] @ cs) (acc, 0, out) = decode_loop cs (acc', 0, out @ [b0, b1, b2])"
  "decode_loop (encode_chunk [b0, b1]) (acc, 0, out) = Inr (out @ [b0, b1])"
  "decode_loop (encode_chunk [b0]) (acc, 0, out) = Inr (out @ [b0])"
  by (auto simp: encode_chunk_def sextets simp del: decode_loop.simps(2) simp add: decode_pad)

lemma decode_loop_encode: "decode_loop (encode bs) (acc, 0, out) = Inr (out @ bs)"
proof (induction bs arbitrary: acc out rule: encode.induct)
  case (1 b0 b1 b2 rest)
  obtain acc' where "decode_loop (encode_chunk [b0, b1, b2] @ encode rest) (acc, 0, out)
      = decode_loop (encode rest) (acc', 0, out @ [b0, b1, b2])"
    using decode_encode_chunk(1) by blast
  thus ?case using 1 by simp
qed (simp_all add: decode_encode_chunk(2,3))

section \<open>Properties\<close>

text \<open>
  C10: the hand-written base64 decodes what it encodes, for every byte string of every
  length, although the 32-bit accumulator of \<open>decode\<close> shifts out its top bits.
\<close>

theorem base64_round_trip: "decode (encode bs) = Inr bs"
  by (simp add: decode_def decode_loop_encode)

end
