(* ===== verification/Bucket_Url.thy ===== *)
theory Bucket_Url
  imports Fleet_Lease
begin

text \<open>
  \<open>barista-fleet/src/store.rs\<close>: reading a bucket URL, and what the object store is
  configured with.  The builder is a third-party type; \<open>store_config\<close> holds the
  settings the code passes to it.
\<close>

section \<open>Definitions\<close>

record Parts =
  bp_bucket :: string
  bp_endpoint :: "string option"

definition parse :: "string \<Rightarrow> Parts option" where
  "parse url =
     (case strip_prefix ''https://'' url of
        Some rest \<Rightarrow>
          (case split_once (CHR ''/'') rest of
             None \<Rightarrow> None
           | Some (host, bucket) \<Rightarrow>
               if host \<noteq> [] \<and> bucket \<noteq> []
               then Some \<lparr>bp_bucket = trim_end_matches (CHR ''/'') bucket,
                          bp_endpoint = Some (take (length url - length bucket - 1) url)\<rparr>
               else None)
      | None \<Rightarrow>
          (case strip_prefix ''s3://'' url of
             None \<Rightarrow> None
           | Some rest \<Rightarrow>
               (let (head, query) = (case split_once (CHR ''?'') rest of
                       Some (h, q) \<Rightarrow> (h, Some q) | None \<Rightarrow> (rest, None))
                in if head = [] then None
                   else case split_once (CHR ''/'') head of
                     Some (host, bucket) \<Rightarrow>
                       (let bucket = trim_end_matches (CHR ''/'') bucket
                        in if bucket = [] then None
                           else Some \<lparr>bp_bucket = bucket, bp_endpoint = Some host\<rparr>)
                   | None \<Rightarrow>
                       Some \<lparr>bp_bucket = head,
                         bp_endpoint = Option.bind query (\<lambda>q.
                           case find_map (strip_prefix ''endpoint='') (split_char (CHR ''&'') q) of
                             Some e \<Rightarrow> if e \<noteq> [] then Some e else None
                           | None \<Rightarrow> None)\<rparr>)))"

text \<open>Whether \<open>warn_if_unverified\<close> stays quiet.\<close>

definition measured :: "string option \<Rightarrow> bool" where
  "measured endpoint =
     (case endpoint of None \<Rightarrow> False
      | Some e \<Rightarrow> str_contains e ''127.0.0.1'' \<or> str_contains e ''localhost''
                 \<or> str_contains e ''r2.cloudflarestorage.com'')"

record store_config =
  cf_bucket :: string
  cf_endpoint :: "string option"
  cf_allow_http :: bool
  cf_warned :: bool

definition from_url :: "string \<Rightarrow> fleet_error + store_config" where
  "from_url url =
     (case parse url of
        None \<Rightarrow> Inl (FE_Config (''fleet bucket URL is not understood: '' @ url))
      | Some parts \<Rightarrow>
          (let endpoint = map_option (\<lambda>e. if str_contains e ''://'' then e else ''https://'' @ e)
                            (bp_endpoint parts)
           in Inr \<lparr>cf_bucket = bp_bucket parts, cf_endpoint = endpoint,
                   cf_allow_http = (case endpoint of None \<Rightarrow> False | Some e \<Rightarrow> starts_with e ''http://''),
                   cf_warned = (\<not> measured (bp_endpoint parts))\<rparr>))"

section \<open>Lemmas\<close>

lemma str_contains_iff: "str_contains s p \<longleftrightarrow> (\<exists>a b. s = a @ p @ b)"
proof (induction s)
  case (Cons c s)
  have "(\<exists>a b. c # s = a @ p @ b) \<longleftrightarrow> (\<exists>b. c # s = p @ b) \<or> (\<exists>a b. s = a @ p @ b)"
    by (metis append_Cons append_Nil list.inject list.exhaust)
  thus ?case by (auto simp: Cons starts_with_iff)
qed simp

lemma find_map_SomeD: "find_map f xs = Some y \<Longrightarrow> \<exists>x \<in> set xs. f x = Some y"
  by (induction xs) (auto split: option.splits)

text \<open>Every piece of a split is a substring.\<close>

lemma split_where_prefix: "split_where p s = w # ws \<Longrightarrow> \<exists>b. s = w @ b"
proof (induction s arbitrary: w ws)
  case (Cons c s)
  obtain v vs where v: "split_where p s = v # vs" using split_where_not_Nil by (metis list.exhaust)
  from Cons.IH [OF v] Cons.prems v show ?case by (auto split: if_splits)
qed simp

lemma split_where_part: "w \<in> set (split_where p s) \<Longrightarrow> \<exists>a b. s = a @ w @ b"
proof (induction s)
  case (Cons c s)
  obtain v vs where v: "split_where p s = v # vs" using split_where_not_Nil by (metis list.exhaust)
  show ?case
  proof (cases "w = hd (split_where p (c # s))")
    case True
    hence "\<exists>b. c # s = w @ b"
      using split_where_prefix [of p "c # s"] split_where_not_Nil by (metis list.collapse)
    thus ?thesis by (metis append_Nil)
  next
    case False
    hence "w \<in> set (split_where p s)" using Cons.prems v by (auto split: if_splits)
    thus ?thesis using Cons.IH by (metis append_Cons)
  qed
qed simp

lemma trim_end_id: "d \<notin> set s \<Longrightarrow> trim_end_matches d s = s" "d \<notin> set s \<Longrightarrow> trim_end_matches d (s @ [d]) = s"
proof -
  have "dropWhile (\<lambda>c. c = d) xs = xs" if "d \<notin> set xs" for xs
    using that by (cases xs) auto
  thus "d \<notin> set s \<Longrightarrow> trim_end_matches d s = s" "d \<notin> set s \<Longrightarrow> trim_end_matches d (s @ [d]) = s"
    by (simp_all add: trim_end_matches_def)
qed

section \<open>Properties\<close>

text \<open>
  Each accepted way of writing a bucket means what it says: the host is the
  endpoint and keeps its scheme in the \<open>https\<close> form, a trailing slash is ignored, and
  the query form carries exactly the endpoint written in it.
\<close>

theorem url_forms:
  assumes "CHR ''/'' \<notin> set h" "CHR ''?'' \<notin> set h" "h \<noteq> []"
    and "CHR ''/'' \<notin> set b" "CHR ''?'' \<notin> set b" "b \<noteq> []"
    and "CHR ''&'' \<notin> set e" "e \<noteq> []"
  shows "parse (''https://'' @ h @ ''/'' @ b) = Some \<lparr>bp_bucket = b, bp_endpoint = Some (''https://'' @ h)\<rparr>
    \<and> parse (''https://'' @ h @ ''/'' @ b @ ''/'') = Some \<lparr>bp_bucket = b, bp_endpoint = Some (''https://'' @ h)\<rparr>
    \<and> parse (''s3://'' @ h @ ''/'' @ b) = Some \<lparr>bp_bucket = b, bp_endpoint = Some h\<rparr>
    \<and> parse (''s3://'' @ h @ ''/'' @ b @ ''/'') = Some \<lparr>bp_bucket = b, bp_endpoint = Some h\<rparr>
    \<and> parse (''s3://'' @ b) = Some \<lparr>bp_bucket = b, bp_endpoint = None\<rparr>
    \<and> parse (''s3://'' @ b @ ''?endpoint='' @ e) = Some \<lparr>bp_bucket = b, bp_endpoint = Some e\<rparr>"
proof -
  have h: "split_once (CHR ''/'') (h @ CHR ''/'' # r) = Some (h, r)" for r
    using assms(1) by (rule split_once_append)
  have q: "split_once (CHR ''?'') (h @ CHR ''/'' # b) = None" "split_once (CHR ''?'') (h @ CHR ''/'' # b @ ''/'') = None"
    "split_once (CHR ''?'') b = None" "split_once (CHR ''/'') b = None"
    using assms by (auto simp: split_once_None_iff)
  have qe: "split_once (CHR ''?'') (b @ CHR ''?'' # r) = Some (b, r)" for r
    using assms(5) by (rule split_once_append)
  have amp: "split_char (CHR ''&'') (''endpoint='' @ e) = [''endpoint='' @ e]"
    unfolding split_char_def using assms(7) by (intro split_where_no_sep) auto
  have tk: "take (8 + length h) (''https://'' @ h @ r) = ''https://'' @ h" for r
    using take_append [of "8 + length h" "''https://'' @ h" r] by (simp del: take_append add: take_all)
  show ?thesis
    using assms h q qe amp tk [of "CHR ''/'' # b"] tk [of "CHR ''/'' # b @ ''/''"]
    by (simp add: parse_def trim_end_id)
qed

theorem url_forms_witness:
  "parse ''s3://barista?endpoint=http://127.0.0.1:9000''
     = Some \<lparr>bp_bucket = ''barista'', bp_endpoint = Some ''http://127.0.0.1:9000''\<rparr>"
  using url_forms [of "''h''" "''barista''" "''http://127.0.0.1:9000''"] by simp

text \<open>
  A connection is plaintext only if the URL spells out an \<open>http://\<close> endpoint; no
  other way of writing a bucket, accepted or mistyped, turns encryption off.
\<close>

theorem plaintext_only_when_written:
  assumes "from_url url = Inr cfg" and "cf_allow_http cfg"
  shows "str_contains url ''endpoint=http://''"
proof -
  obtain parts e where p: "parse url = Some parts" and e: "bp_endpoint parts = Some e"
    and h: "starts_with (if str_contains e ''://'' then e else ''https://'' @ e) ''http://''"
    using assms by (auto simp: from_url_def Let_def split: option.splits)
  have e': "str_contains e ''://''" "starts_with e ''http://''"
    using h by (auto simp: starts_with_iff split: if_splits)
  show ?thesis
  proof (cases "strip_prefix ''https://'' url")
    case (Some rest)
    hence "url = ''https://'' @ rest" by (simp add: strip_prefix_Some_iff)
    moreover obtain n where "e = take n url" using p e Some
      by (auto simp: parse_def split: option.splits if_splits)
    ultimately have False using e'(2) by (cases n) (auto simp: starts_with_iff take_Cons' split: if_splits)
    thus ?thesis ..
  next
    case None
    then obtain rest where rest: "url = ''s3://'' @ rest"
      using p by (auto simp: parse_def strip_prefix_Some_iff split: option.splits)
    show ?thesis
    proof (cases "\<exists>host bucket. bp_endpoint parts = Some host \<and> CHR ''/'' \<notin> set host")
      case True
      thus ?thesis using e e'(1) by (auto simp: str_contains_iff)
    next
      case False
      then obtain head q where hq: "split_once (CHR ''?'') rest = Some (head, q)"
        and seg: "find_map (strip_prefix ''endpoint='') (split_char (CHR ''&'') q) = Some e"
        using p e None rest
        by (auto simp: parse_def Let_def split_once_Some_iff split: option.splits if_splits)
      from find_map_SomeD [OF seg] obtain w where "w \<in> set (split_char (CHR ''&'') q)" "w = ''endpoint='' @ e"
        by (auto simp: strip_prefix_Some_iff)
      then obtain a b where "q = a @ (''endpoint='' @ e) @ b"
        using split_where_part unfolding split_char_def by metis
      moreover obtain t where "e = ''http://'' @ t" using e'(2) by (auto simp: starts_with_iff)
      ultimately have "url = (''s3://'' @ head @ ''?'' @ a) @ ''endpoint=http://'' @ (t @ b)"
        using rest hq by (simp add: split_once_Some_iff)
      thus ?thesis unfolding str_contains_iff by blast
    qed
  qed
qed

theorem plaintext_only_when_written_witness:
  "str_contains ''s3://barista?endpoint=http://127.0.0.1:9000'' ''endpoint=http://''"
proof -
  obtain cfg where "from_url ''s3://barista?endpoint=http://127.0.0.1:9000'' = Inr cfg" "cf_allow_http cfg"
    by (simp add: from_url_def parse_def split_char_def starts_with_def Let_def)
  thus ?thesis by (rule plaintext_only_when_written)
qed

text \<open>
  Two malformed URLs are accepted.  The emptiness of the bucket is tested before
  its slashes are trimmed, so \<open>https://host//\<close> names the empty bucket; and the host of the
  \<open>s3\<close> form is not tested at all, so a third slash yields an empty endpoint.
\<close>

theorem empty_names_accepted:
  "parse ''https://host//'' = Some \<lparr>bp_bucket = [], bp_endpoint = Some ''https://host''\<rparr>
   \<and> parse ''s3:///barista'' = Some \<lparr>bp_bucket = ''barista'', bp_endpoint = Some []\<rparr>"
  by (simp add: parse_def trim_end_matches_def)

end
