(* ===== verification/Content_Ids.thy ===== *)
theory Content_Ids
  imports Rust_Text Contract "HOL-Library.Multiset"
begin

text \<open>
  \<open>snapshot_key.rs\<close>, \<open>capsule.rs\<close> and \<open>hex.rs\<close>: the byte streams whose digests
  identify a template and a capsule.  SHA-256 is a crate the sources call and the
  argument \<open>sha\<close>; what is proved here is about the stream it is given, which is where
  two different things could be made to look alike.  A byte is a character.
\<close>

section \<open>Bytes and hexadecimal\<close>

primrec le_bytes :: "nat \<Rightarrow> int \<Rightarrow> string" where
  "le_bytes 0 n = []"
| "le_bytes (Suc k) n = char_of (nat (n mod 256)) # le_bytes k (n div 256)"

definition HEX :: string where
  "HEX = ''0123456789abcdef''"

definition to_lower :: "string \<Rightarrow> string" where
  "to_lower bs = concat (map (\<lambda>b. [HEX ! (of_char b div 16), HEX ! (of_char b mod 16)]) bs)"

section \<open>The template key\<close>

definition feed :: "string \<Rightarrow> string" where
  "feed part = le_bytes 8 (int (length part)) @ part"

definition template_parts :: "instance_spec \<Rightarrow> string list" where
  "template_parts spec =
    (let template = (case sp_template spec of Some t \<Rightarrow> t | None \<Rightarrow> default_template);
         resources = (case sp_resources spec of Some r \<Rightarrow> r | None \<Rightarrow> default_resources);
         artifact = (case tpl_oci template of Some oci \<Rightarrow> ''oci:'' @ oci_digest oci | None \<Rightarrow> ''none'')
     in [artifact, tpl_runtime_bundle_ref template, tpl_arch template,
         dec_u (res_vcpu resources), dec_u (res_mem_mib resources), dec_u (res_disk_mib resources)])"

definition template_hash :: "(string \<Rightarrow> string) \<Rightarrow> instance_spec \<Rightarrow> string" where
  "template_hash sha spec = to_lower (take 6 (sha (concat (map feed (template_parts spec)))))"

section \<open>The capsule id\<close>

definition CAPSULE_SCHEMA_VERSION :: string where
  "CAPSULE_SCHEMA_VERSION = ''barista.capsule/v1alpha2''"

fun media_type :: "capsule_object_type \<Rightarrow> string" where
  "media_type CT_Memory = ''application/vnd.barista.snapshot.memory''"
| "media_type CT_Disk = ''application/vnd.barista.snapshot.disk''"
| "media_type CT_Metadata = ''application/vnd.barista.snapshot.metadata''"
| "media_type CT_Unspecified = ''application/octet-stream''"

text \<open>The discriminants of the generated enumerations.\<close>

fun kind_code :: "snapshot_kind \<Rightarrow> int" where
  "kind_code SK_Unspecified = 0"
| "kind_code SK_MemoryAndDisk = 1"
| "kind_code SK_DiskOnly = 2"

fun object_code :: "capsule_object_type \<Rightarrow> int" where
  "object_code CT_Unspecified = 0"
| "object_code CT_Memory = 1"
| "object_code CT_Disk = 2"
| "object_code CT_Metadata = 3"

definition object_order :: "capsule_object \<Rightarrow> string \<times> int \<times> string \<times> int" where
  "object_order ob = (ob_digest ob, object_code (ob_type ob), ob_media_type ob, ob_length ob)"

definition object_stream :: "capsule_object \<Rightarrow> string" where
  "object_stream ob =
     feed (ob_digest ob) @ feed (le_bytes 8 (ob_length ob)) @ feed (le_bytes 4 (object_code (ob_type ob)))
     @ feed (ob_media_type ob)"

definition created_seconds :: "capsule_manifest \<Rightarrow> int" where
  "created_seconds m = (case mf_created_at m of None \<Rightarrow> 0 | Some t \<Rightarrow> t_seconds t)"

definition created_nanos :: "capsule_manifest \<Rightarrow> int" where
  "created_nanos m = (case mf_created_at m of None \<Rightarrow> 0 | Some t \<Rightarrow> t_nanos t)"

definition canonical_stream :: "capsule_manifest \<Rightarrow> string" where
  "canonical_stream m =
     feed (mf_schema_version m) @ feed (mf_cpu_class m) @ feed (mf_template_hash m)
     @ feed (mf_runtime_bundle_ref m) @ feed (le_bytes 4 (kind_code (mf_kind m)))
     @ feed (mf_lineage_id m) @ feed (mf_architecture m)
     @ feed (le_bytes 8 (created_seconds m)) @ feed (le_bytes 4 (created_nanos m))
     @ (let capabilities = sort (mf_required_restore_capabilities m)
        in le_bytes 8 (int (length capabilities)) @ concat (map feed capabilities))
     @ (let objects = sort_key object_order (mf_objects m)
        in le_bytes 8 (int (length objects)) @ concat (map object_stream objects))"

definition canonical_bytes :: "(string \<Rightarrow> string) \<Rightarrow> capsule_manifest \<Rightarrow> string" where
  "canonical_bytes sha m = sha (canonical_stream m)"

definition capsule_id :: "(string \<Rightarrow> string) \<Rightarrow> capsule_manifest \<Rightarrow> string" where
  "capsule_id sha m = ''sha256:'' @ to_lower (canonical_bytes sha m)"

definition object_digest :: "(string \<Rightarrow> string) \<Rightarrow> string \<Rightarrow> string" where
  "object_digest sha bs = ''sha256:'' @ to_lower (sha bs)"

text \<open>
  The fields of a manifest that fit the widths they have on the wire, and the part of
  a manifest its id depends on: objects and capabilities are bags, and an absent
  creation time counts as the epoch.
\<close>

definition short :: "string \<Rightarrow> bool" where
  "short s \<longleftrightarrow> int (length s) \<le> u64_max"

definition object_fits :: "capsule_object \<Rightarrow> bool" where
  "object_fits ob \<longleftrightarrow> short (ob_digest ob) \<and> short (ob_media_type ob) \<and> in_u64 (ob_length ob)"

definition manifest_fits :: "capsule_manifest \<Rightarrow> bool" where
  "manifest_fits m \<longleftrightarrow>
     short (mf_schema_version m) \<and> short (mf_cpu_class m) \<and> short (mf_template_hash m)
   \<and> short (mf_runtime_bundle_ref m) \<and> short (mf_lineage_id m) \<and> short (mf_architecture m)
   \<and> in_i64 (created_seconds m) \<and> - (2 ^ 31) \<le> created_nanos m \<and> created_nanos m < 2 ^ 31
   \<and> int (length (mf_required_restore_capabilities m)) \<le> u64_max
   \<and> (\<forall>c \<in> set (mf_required_restore_capabilities m). short c)
   \<and> int (length (mf_objects m)) \<le> u64_max \<and> (\<forall>ob \<in> set (mf_objects m). object_fits ob)"

definition manifest_identity where
  "manifest_identity m =
     ((mf_schema_version m, mf_cpu_class m, mf_template_hash m, mf_runtime_bundle_ref m, mf_kind m),
      (mf_lineage_id m, mf_architecture m, created_seconds m, created_nanos m),
      mset (mf_required_restore_capabilities m), mset (mf_objects m))"

section \<open>Streams can be read back\<close>

lemma length_le_bytes [simp]: "length (le_bytes k n) = k"
  by (induction k arbitrary: n) auto

lemma base_digits:
  assumes "0 \<le> a" "a < 256" "0 \<le> b" "b < (256 :: int)"
  shows "a + 256 * c = b + 256 * d \<longleftrightarrow> a = b \<and> c = d"
proof
  assume eq: "a + 256 * c = b + 256 * d"
  have "(a + 256 * c) mod 256 = a" "(b + 256 * d) mod 256 = b" using assms by simp_all
  hence "a = b" using eq by metis
  thus "a = b \<and> c = d" using eq by simp
qed simp

lemma le_bytes_eq_iff: "le_bytes k m = le_bytes k n \<longleftrightarrow> m mod 256 ^ k = n mod 256 ^ k"
proof (induction k arbitrary: m n)
  case (Suc k)
  have char: "char_of (nat (m mod 256)) = (char_of (nat (n mod 256)) :: char) \<longleftrightarrow> m mod 256 = n mod 256"
  proof -
    have "take_bit 8 (nat (m mod 256)) = nat (m mod 256)" by (intro take_bit_nat_eq_self) simp
    thus ?thesis by (simp add: char_of_eq_iff eq_nat_nat_iff)
  qed
  have "m mod 256 ^ Suc k = m mod 256 + 256 * (m div 256 mod 256 ^ k)" for m :: int
    by (simp add: zmod_zmult2_eq)
  hence "m mod 256 ^ Suc k = n mod 256 ^ Suc k \<longleftrightarrow>
      m mod 256 = n mod 256 \<and> m div 256 mod 256 ^ k = n div 256 mod 256 ^ k"
    by (simp only:) (rule base_digits; simp)
  thus ?case using char Suc by simp
qed simp

lemma le_bytes_inj:
  "\<bar>m - n\<bar> < 256 ^ k \<Longrightarrow> le_bytes k m = le_bytes k n \<longleftrightarrow> m = n"
proof -
  assume "\<bar>m - n\<bar> < 256 ^ k"
  moreover have "m mod 256 ^ k = n mod 256 ^ k \<longleftrightarrow> 256 ^ k dvd m - n" by (simp add: mod_eq_dvd_iff)
  ultimately have "m mod 256 ^ k = n mod 256 ^ k \<longleftrightarrow> m = n"
    using zdvd_imp_le [of "256 ^ k" "\<bar>m - n\<bar>"] by auto
  thus ?thesis by (simp add: le_bytes_eq_iff)
qed

lemmas width = u64_max_def i64_max_def i64_min_def in_u64_def in_i64_def

lemma count_inj:
  "int m \<le> u64_max \<Longrightarrow> int n \<le> u64_max \<Longrightarrow> le_bytes 8 (int m) = le_bytes 8 (int n) \<longleftrightarrow> m = n"
  using le_bytes_inj [of "int m" "int n" 8] by (simp add: width)

lemma u64_inj: "in_u64 m \<Longrightarrow> in_u64 n \<Longrightarrow> le_bytes 8 m = le_bytes 8 n \<longleftrightarrow> m = n"
  using le_bytes_inj [of m n 8] by (auto simp: width abs_less_iff)

lemma i64_inj: "in_i64 m \<Longrightarrow> in_i64 n \<Longrightarrow> le_bytes 8 m = le_bytes 8 n \<longleftrightarrow> m = n"
  using le_bytes_inj [of m n 8] by (auto simp: width abs_less_iff)

lemma i32_inj:
  "- (2 ^ 31) \<le> m \<Longrightarrow> m < 2 ^ 31 \<Longrightarrow> - (2 ^ 31) \<le> n \<Longrightarrow> n < 2 ^ 31 \<Longrightarrow>
   le_bytes 4 m = le_bytes 4 n \<longleftrightarrow> m = n"
  using le_bytes_inj [of m n 4] by simp

lemma codes_inj [simp]: "kind_code a = kind_code b \<longleftrightarrow> a = b" "object_code c = object_code d \<longleftrightarrow> c = d"
  by (cases a; cases b; simp) (cases c; cases d; simp)

lemma code_range: "0 \<le> kind_code a" "kind_code a < 2 ^ 31" "0 \<le> object_code c" "object_code c < 2 ^ 31"
  by (cases a; simp)+ (cases c; simp)+

lemma code_bytes_inj [simp]:
  "le_bytes 4 (kind_code a) = le_bytes 4 (kind_code b) \<longleftrightarrow> a = b"
  "le_bytes 4 (object_code c) = le_bytes 4 (object_code d) \<longleftrightarrow> c = d"
  using i32_inj [of "kind_code a" "kind_code b"] i32_inj [of "object_code c" "object_code d"]
    code_range(1,2) [of a] code_range(1,2) [of b] code_range(3,4) [of c] code_range(3,4) [of d] by auto

text \<open>The step of every reading: one fed field and the rest are determined by the stream.\<close>

lemma feed_append_inj:
  assumes "short a" "short b"
  shows "feed a @ r = feed b @ s \<longleftrightarrow> a = b \<and> r = s"
proof
  assume eq: "feed a @ r = feed b @ s"
  hence "le_bytes 8 (int (length a)) = le_bytes 8 (int (length b)) \<and> a @ r = b @ s"
    by (simp add: feed_def append_eq_append_conv)
  moreover from this assms have "length a = length b" by (simp add: count_inj short_def)
  ultimately show "a = b \<and> r = s" by simp
qed simp

lemma feed_inj: "short a \<Longrightarrow> short b \<Longrightarrow> feed a = feed b \<longleftrightarrow> a = b"
  using feed_append_inj [of a b "[]" "[]"] by simp

lemma short_le_bytes [simp]: "k \<le> 8 \<Longrightarrow> short (le_bytes k n)"
  by (simp add: short_def width)

lemma feeds_inj:
  assumes "length xs = length ys" "\<forall>x \<in> set xs. short x" "\<forall>y \<in> set ys. short y"
    and "concat (map feed xs) @ r = concat (map feed ys) @ s"
  shows "xs = ys \<and> r = s"
  using assms by (induction xs ys arbitrary: r s rule: list_induct2) (auto simp: feed_append_inj)

lemma object_stream_append_inj:
  assumes "object_fits a" "object_fits b"
  shows "object_stream a @ r = object_stream b @ s \<longleftrightarrow> a = b \<and> r = s"
  using assms unfolding object_stream_def object_fits_def
  by (cases a; cases b) (auto simp: feed_append_inj u64_inj)

lemma objects_inj:
  assumes "length xs = length ys" "\<forall>x \<in> set xs. object_fits x" "\<forall>y \<in> set ys. object_fits y"
    and "concat (map object_stream xs) @ r = concat (map object_stream ys) @ s"
  shows "xs = ys \<and> r = s"
  using assms by (induction xs ys arbitrary: r s rule: list_induct2) (auto simp: object_stream_append_inj)

text \<open>Sorting by a key that determines the element forgets the order and nothing else.\<close>

lemma sort_key_eq_iff:
  fixes f :: "'a \<Rightarrow> 'b :: linorder"
  assumes "inj f"
  shows "sort_key f xs = sort_key f ys \<longleftrightarrow> mset xs = mset ys"
proof
  assume m: "mset xs = mset ys"
  have "sort (map f xs) = map f (sort_key f zs)" if "mset xs = mset zs" for zs
    by (rule properties_for_sort) (use that in simp_all)
  hence "map f (sort_key f xs) = map f (sort_key f ys)" using m by metis
  thus "sort_key f xs = sort_key f ys" using assms by (simp add: inj_map_eq_map)
qed (metis mset_sort)

lemma inj_object_order: "inj object_order"
  by (rule injI) (case_tac x; case_tac y; simp add: object_order_def)

text \<open>What the tail of the stream, the two counted bags, determines.\<close>

lemma capabilities_inj:
  assumes "int (length cs) \<le> u64_max" "int (length ds) \<le> u64_max" "\<forall>c \<in> set cs. short c" "\<forall>d \<in> set ds. short d"
  shows "le_bytes 8 (int (length cs)) @ concat (map feed cs) @ r
       = le_bytes 8 (int (length ds)) @ concat (map feed ds) @ s \<longleftrightarrow> cs = ds \<and> r = s"
proof
  assume eq: "le_bytes 8 (int (length cs)) @ concat (map feed cs) @ r
       = le_bytes 8 (int (length ds)) @ concat (map feed ds) @ s"
  hence n: "length cs = length ds" and "concat (map feed cs) @ r = concat (map feed ds) @ s"
    using assms(1,2) by (auto simp: append_eq_append_conv count_inj)
  thus "cs = ds \<and> r = s" using feeds_inj [OF n assms(3,4)] by blast
qed simp

lemma counted_objects_inj:
  assumes "int (length xs) \<le> u64_max" "int (length ys) \<le> u64_max"
    and "\<forall>x \<in> set xs. object_fits x" "\<forall>y \<in> set ys. object_fits y"
  shows "le_bytes 8 (int (length xs)) @ concat (map object_stream xs)
       = le_bytes 8 (int (length ys)) @ concat (map object_stream ys) \<longleftrightarrow> xs = ys"
proof
  assume eq: "le_bytes 8 (int (length xs)) @ concat (map object_stream xs)
       = le_bytes 8 (int (length ys)) @ concat (map object_stream ys)"
  hence n: "length xs = length ys" and "concat (map object_stream xs) = concat (map object_stream ys)"
    using assms(1,2) by (auto simp: append_eq_append_conv count_inj)
  thus "xs = ys" using objects_inj [OF n assms(3,4), of "[]" "[]"] by simp
qed simp

section \<open>Properties\<close>

text \<open>
  C12: the canonical stream of a capsule identifies it.  Two manifests whose fields
  fit their wire widths are hashed from the same bytes exactly when they agree on
  every field, with objects and capabilities compared as bags: no re-splitting of
  adjacent fields and no reordering of objects can make two capsules share an id or
  give one capsule two.
\<close>

theorem canonical_stream_identifies:
  assumes "manifest_fits m" "manifest_fits m'"
  shows "canonical_stream m = canonical_stream m' \<longleftrightarrow> manifest_identity m = manifest_identity m'"
proof -
  let ?cs = "sort (mf_required_restore_capabilities m)" and ?cs' = "sort (mf_required_restore_capabilities m')"
  let ?os = "sort_key object_order (mf_objects m)" and ?os' = "sort_key object_order (mf_objects m')"
  note fits = assms [unfolded manifest_fits_def]
  have caps: "le_bytes 8 (int (length ?cs)) @ concat (map feed ?cs) @ r
      = le_bytes 8 (int (length ?cs')) @ concat (map feed ?cs') @ s \<longleftrightarrow> ?cs = ?cs' \<and> r = s" for r s
    using fits by (intro capabilities_inj) simp_all
  have objs: "le_bytes 8 (int (length ?os)) @ concat (map object_stream ?os)
      = le_bytes 8 (int (length ?os')) @ concat (map object_stream ?os') \<longleftrightarrow> ?os = ?os'"
    using fits by (intro counted_objects_inj) simp_all
  have nums: "le_bytes 8 (created_seconds m) = le_bytes 8 (created_seconds m') \<longleftrightarrow> created_seconds m = created_seconds m'"
    "le_bytes 4 (created_nanos m) = le_bytes 4 (created_nanos m') \<longleftrightarrow> created_nanos m = created_nanos m'"
    using fits i64_inj i32_inj by auto
  have bags: "?cs = ?cs' \<longleftrightarrow> mset (mf_required_restore_capabilities m) = mset (mf_required_restore_capabilities m')"
    "?os = ?os' \<longleftrightarrow> mset (mf_objects m) = mset (mf_objects m')"
    by (rule sort_key_eq_iff, simp add: inj_def) (rule sort_key_eq_iff [OF inj_object_order])
  have "canonical_stream m = canonical_stream m' \<longleftrightarrow>
      mf_schema_version m = mf_schema_version m' \<and> mf_cpu_class m = mf_cpu_class m'
    \<and> mf_template_hash m = mf_template_hash m' \<and> mf_runtime_bundle_ref m = mf_runtime_bundle_ref m'
    \<and> mf_kind m = mf_kind m' \<and> mf_lineage_id m = mf_lineage_id m' \<and> mf_architecture m = mf_architecture m'
    \<and> created_seconds m = created_seconds m' \<and> created_nanos m = created_nanos m' \<and> ?cs = ?cs' \<and> ?os = ?os'"
    unfolding canonical_stream_def Let_def append_assoc
    using fits by (simp only: feed_append_inj short_le_bytes code_bytes_inj nums caps objs)
  thus ?thesis using bags by (simp add: manifest_identity_def)
qed

theorem canonical_stream_identifies_witness:
  "canonical_stream \<lparr>mf_schema_version = CAPSULE_SCHEMA_VERSION, mf_cpu_class = ''c'', mf_template_hash = ''t'',
      mf_runtime_bundle_ref = [], mf_kind = SK_MemoryAndDisk, mf_objects = [], mf_lineage_id = [],
      mf_architecture = ''amd64'', mf_created_at = None, mf_required_restore_capabilities = [''a'', ''b'']\<rparr>
   = canonical_stream \<lparr>mf_schema_version = CAPSULE_SCHEMA_VERSION, mf_cpu_class = ''c'', mf_template_hash = ''t'',
      mf_runtime_bundle_ref = [], mf_kind = SK_MemoryAndDisk, mf_objects = [], mf_lineage_id = [],
      mf_architecture = ''amd64'', mf_created_at = None, mf_required_restore_capabilities = [''b'', ''a'']\<rparr>"
  (is "canonical_stream ?m = canonical_stream ?m'")
proof -
  have "manifest_fits ?m" "manifest_fits ?m'"
    by (simp_all add: manifest_fits_def created_seconds_def created_nanos_def short_def width CAPSULE_SCHEMA_VERSION_def)
  from canonical_stream_identifies [OF this] show ?thesis
    by (simp add: manifest_identity_def created_seconds_def created_nanos_def add_mset_commute)
qed

text \<open>
  The template key separates templates.  Two specs are hashed from the same bytes
  exactly when they agree on the image digest (or both name no image), on the runtime
  bundle, the architecture and all three resource sizes.
\<close>

theorem template_stream_identifies:
  assumes "\<forall>p \<in> set (template_parts sp) \<union> set (template_parts sp'). short p"
    and "sp_template sp = Some t" "sp_template sp' = Some t'" "sp_resources sp = Some r" "sp_resources sp' = Some r'"
    and "0 \<le> res_vcpu r" "0 \<le> res_mem_mib r" "0 \<le> res_disk_mib r"
    and "0 \<le> res_vcpu r'" "0 \<le> res_mem_mib r'" "0 \<le> res_disk_mib r'"
  shows "concat (map feed (template_parts sp)) = concat (map feed (template_parts sp')) \<longleftrightarrow>
     map_option oci_digest (tpl_oci t) = map_option oci_digest (tpl_oci t')
   \<and> tpl_runtime_bundle_ref t = tpl_runtime_bundle_ref t' \<and> tpl_arch t = tpl_arch t' \<and> r = r'"
proof -
  have "length (template_parts sp) = length (template_parts sp')" by (simp add: template_parts_def Let_def)
  from feeds_inj [OF this, of "[]" "[]"] assms(1)
  have "concat (map feed (template_parts sp)) = concat (map feed (template_parts sp'))
      \<longleftrightarrow> template_parts sp = template_parts sp'" by auto
  also have "\<dots> \<longleftrightarrow> map_option oci_digest (tpl_oci t) = map_option oci_digest (tpl_oci t')
   \<and> tpl_runtime_bundle_ref t = tpl_runtime_bundle_ref t' \<and> tpl_arch t = tpl_arch t' \<and> r = r'"
    using assms(2-) by (cases r; cases r'; cases "tpl_oci t"; cases "tpl_oci t'")
      (auto simp: template_parts_def Let_def dec_u_inj)
  finally show ?thesis .
qed

theorem template_stream_identifies_witness:
  "let sp = default_spec\<lparr>sp_template := Some default_template, sp_resources := Some default_resources\<rparr>
   in concat (map feed (template_parts sp)) \<noteq> concat (map feed (template_parts
        (sp\<lparr>sp_resources := Some (default_resources\<lparr>res_disk_mib := 1\<rparr>)\<rparr>)))"
proof -
  let ?sp = "default_spec\<lparr>sp_template := Some default_template, sp_resources := Some default_resources\<rparr>"
  let ?sp' = "?sp\<lparr>sp_resources := Some (default_resources\<lparr>res_disk_mib := 1\<rparr>)\<rparr>"
  have "\<forall>p \<in> set (template_parts ?sp) \<union> set (template_parts ?sp'). short p"
    by (simp add: template_parts_def default_template_def default_resources_def short_def dec_u_def dec.simps width)
  from template_stream_identifies [OF this] show ?thesis
    by (simp add: default_resources_def)
qed

end
