(* ===== verification/Restore_Policy.thy ===== *)
theory Restore_Policy
  imports Content_Ids Journal_Schema
begin

text \<open>
  \<open>restore.rs\<close>, \<open>grants.rs\<close> and \<open>admission.rs\<close>: what may be restored, which grant is
  current, and which spec is accepted.  A message is the data it is formatted from.
\<close>

section \<open>Restoring a snapshot\<close>

datatype restore_why =
    NoSnapshot
  | NoMemory snapshot_id snapshot_kind
  | TemplateDiffers snapshot_id string string
  | BundleDiffers snapshot_id string string
  | CpuDiffers snapshot_id string string
  | NotInJournal instance_id

datatype Restore = FromMemory | ColdBoot error_reason restore_why | Refuse error_reason restore_why

definition restore_fallback :: "bool \<Rightarrow> error_reason \<Rightarrow> restore_why \<Rightarrow> Restore" where
  "restore_fallback require_memory reason why =
     (if require_memory then Refuse reason why else ColdBoot reason why)"

definition decide ::
  "(string \<Rightarrow> string) \<Rightarrow> SnapshotRow option \<Rightarrow> InstanceRow \<Rightarrow> string \<Rightarrow> string \<Rightarrow> bool \<Rightarrow> Restore" where
  "decide sha snapshot inst node_cpu_class runtime_bundle_ref require_memory =
    (let fallback = restore_fallback require_memory
     in case snapshot of
          None \<Rightarrow> fallback ER_SnapshotInvalidated NoSnapshot
        | Some s \<Rightarrow>
            if sr_kind s \<noteq> SK_MemoryAndDisk
            then fallback ER_SnapshotInvalidated (NoMemory (sr_snapshot_id s) (sr_kind s))
            else if sr_template_hash s \<noteq> template_hash sha (ir_spec inst)
            then fallback ER_BundleMismatch
                   (TemplateDiffers (sr_snapshot_id s) (sr_template_hash s) (template_hash sha (ir_spec inst)))
            else if sr_runtime_bundle_ref s \<noteq> runtime_bundle_ref
            then fallback ER_BundleMismatch
                   (BundleDiffers (sr_snapshot_id s) (sr_runtime_bundle_ref s) runtime_bundle_ref)
            else if sr_tier s = ST_ObjectStore \<and> sr_cpu_class s \<noteq> node_cpu_class
            then fallback ER_CpuClassMismatch
                   (CpuDiffers (sr_snapshot_id s) (sr_cpu_class s) node_cpu_class)
            else FromMemory)"

section \<open>Restoring an imported capsule\<close>

datatype capsule_why =
    CapsuleNoMemory snapshot_kind
  | CapsuleArchitecture string string
  | CapsuleCpu string string
  | CapsuleTemplate string string
  | CapsuleBundle string string

datatype CapsuleRestore = Proceed | CapsuleRefuse error_reason capsule_why

definition decide_capsule ::
  "(string \<Rightarrow> string) \<Rightarrow> capsule_manifest \<Rightarrow> instance_spec \<Rightarrow> string \<Rightarrow> string \<Rightarrow> CapsuleRestore" where
  "decide_capsule sha m target_spec node_cpu_class runtime_bundle_ref =
    (let target_architecture = (case sp_template target_spec of Some t \<Rightarrow> tpl_arch t | None \<Rightarrow> []);
         target_template = template_hash sha target_spec
     in if mf_kind m \<noteq> SK_MemoryAndDisk
        then CapsuleRefuse ER_CapsuleIncompatible (CapsuleNoMemory (mf_kind m))
        else if mf_architecture m \<noteq> target_architecture
        then CapsuleRefuse ER_CapsuleIncompatible (CapsuleArchitecture (mf_architecture m) target_architecture)
        else if mf_cpu_class m \<noteq> node_cpu_class
        then CapsuleRefuse ER_CpuClassMismatch (CapsuleCpu (mf_cpu_class m) node_cpu_class)
        else if mf_template_hash m \<noteq> target_template
        then CapsuleRefuse ER_CapsuleIncompatible (CapsuleTemplate (mf_template_hash m) target_template)
        else if mf_runtime_bundle_ref m \<noteq> runtime_bundle_ref
        then CapsuleRefuse ER_BundleMismatch (CapsuleBundle (mf_runtime_bundle_ref m) runtime_bundle_ref)
        else Proceed)"

section \<open>Grants\<close>

definition validate_grant_epoch :: "int \<Rightarrow> int \<Rightarrow> error_reason + unit" where
  "validate_grant_epoch current_epoch presented_epoch =
     (if current_epoch = 0 \<or> presented_epoch = 0 then Inl ER_EpochRevoked
      else if presented_epoch \<noteq> current_epoch then Inl ER_EpochRevoked
      else Inr ())"

section \<open>Admission\<close>

datatype refusal_why =
    NotAUlid string | DigestRequired | OciRequired | NoHardwareIsolation string | NoEgressControl string

record Refusal =
  rf_reason :: error_reason
  rf_why :: refusal_why

definition invalid :: "refusal_why \<Rightarrow> Refusal" where
  "invalid why = \<lparr>rf_reason = ER_InvalidSpec, rf_why = why\<rparr>"

definition missing :: "refusal_why \<Rightarrow> Refusal" where
  "missing why = \<lparr>rf_reason = ER_CapabilityMissing, rf_why = why\<rparr>"

text \<open>\<open>is_ulid\<close> is the parser of the \<open>ulid\<close> crate.\<close>

definition admit ::
  "(string \<Rightarrow> bool) \<Rightarrow> instance_spec \<Rightarrow> bool \<Rightarrow> capabilities \<Rightarrow> string \<Rightarrow> Refusal + unit" where
  "admit is_ulid spec require_hardware_isolation caps runtime_name =
     (if \<not> is_ulid (sp_instance_id spec) then Inl (invalid (NotAUlid (sp_instance_id spec)))
      else case Option.bind (sp_template spec) tpl_oci of
        None \<Rightarrow> Inl (invalid OciRequired)
      | Some oci \<Rightarrow>
          if list_all is_whitespace (oci_digest oci) then Inl (invalid DigestRequired)
          else if require_hardware_isolation \<and> \<not> cap_hardware_isolation caps
          then Inl (missing (NoHardwareIsolation runtime_name))
          else if (case sp_egress spec of Some e \<Rightarrow> eg_mediated e | None \<Rightarrow> False) \<and> \<not> cap_egress_control caps
          then Inl (missing (NoEgressControl runtime_name))
          else Inr ())"

section \<open>Properties\<close>

text \<open>
  C11: memory is restored only into the machine it came from.  \<open>decide\<close> answers
  \<open>FromMemory\<close> exactly when there is a snapshot that holds memory, of the instance's
  current template and this node's bundle, and, when it lives in the object store, of
  this node's CPU class; otherwise it refuses exactly when the caller requires memory
  and cold boots exactly when not.  A capsule proceeds under the same conditions with
  the CPU class and the architecture always compared, and is never cold booted.
\<close>

theorem memory_only_where_it_fits:
  "(decide sha snap inst cpu bundle require = FromMemory \<longleftrightarrow>
      (\<exists>s. snap = Some s \<and> sr_kind s = SK_MemoryAndDisk
         \<and> sr_template_hash s = template_hash sha (ir_spec inst) \<and> sr_runtime_bundle_ref s = bundle
         \<and> (sr_tier s = ST_ObjectStore \<longrightarrow> sr_cpu_class s = cpu)))
   \<and> ((\<exists>r w. decide sha snap inst cpu bundle require = Refuse r w) \<longleftrightarrow>
        require \<and> decide sha snap inst cpu bundle require \<noteq> FromMemory)
   \<and> (decide_capsule sha m sp cpu bundle = Proceed \<longleftrightarrow>
        mf_kind m = SK_MemoryAndDisk \<and> mf_cpu_class m = cpu
      \<and> mf_template_hash m = template_hash sha sp \<and> mf_runtime_bundle_ref m = bundle
      \<and> mf_architecture m = (case sp_template sp of Some t \<Rightarrow> tpl_arch t | None \<Rightarrow> []))"
  by (auto simp: decide_def decide_capsule_def restore_fallback_def Let_def split: option.splits)

theorem memory_only_where_it_fits_witness:
  "decide_capsule (\<lambda>b. b)
     \<lparr>mf_schema_version = CAPSULE_SCHEMA_VERSION, mf_cpu_class = ''c'', mf_template_hash = template_hash (\<lambda>b. b) default_spec,
      mf_runtime_bundle_ref = ''b1'', mf_kind = SK_MemoryAndDisk, mf_objects = [], mf_lineage_id = [],
      mf_architecture = [], mf_created_at = None, mf_required_restore_capabilities = []\<rparr> default_spec ''c'' ''b1'' = Proceed
   \<and> (\<forall>i. \<exists>r w. decide (\<lambda>b. b) None i ''c'' ''b1'' True = Refuse r w)"
proof -
  note fits = memory_only_where_it_fits [of "\<lambda>b. b" None _ "''c''" "''b1''" True _ default_spec]
  show ?thesis using fits by (auto simp: default_spec_def)
qed

end
