(* ===== verification/Op_Kinds.thy ===== *)
theory Op_Kinds
  imports Journal_Submit Journal_Snapshots Rust_Text
begin

text \<open>
  \<open>ops.rs\<close>, the tables of the operations layer: the kinds of operation, the states
  they move through, the payload of a submission and the descriptor journaled with it
  so that a repeated key can be checked against what it first asked for.
\<close>

section \<open>Kinds\<close>

datatype OpKind =
    K_Create | K_Start | K_Stop | K_Pause | K_Resume | K_CreateSnapshot | K_DeleteSnapshot
  | K_Destroy | K_Fork

fun as_str :: "OpKind \<Rightarrow> string" where
  "as_str K_Create = ''create''"
| "as_str K_Start = ''start''"
| "as_str K_Stop = ''stop''"
| "as_str K_Pause = ''pause''"
| "as_str K_Resume = ''resume''"
| "as_str K_CreateSnapshot = ''create_snapshot''"
| "as_str K_DeleteSnapshot = ''delete_snapshot''"
| "as_str K_Destroy = ''destroy''"
| "as_str K_Fork = ''fork''"

definition touches_instance_state :: "OpKind \<Rightarrow> bool" where
  "touches_instance_state kind \<longleftrightarrow> \<not> (kind = K_CreateSnapshot \<or> kind = K_DeleteSnapshot)"

fun states :: "OpKind \<Rightarrow> instance_state \<times> instance_state" where
  "states K_Create = (I_Creating, I_Created)"
| "states K_Start = (I_Starting, I_Running)"
| "states K_Stop = (I_Stopping, I_Stopped)"
| "states K_Pause = (I_Pausing, I_Paused)"
| "states K_Resume = (I_Resuming, I_Running)"
| "states K_CreateSnapshot = (I_Checkpointing, I_Running)"
| "states K_DeleteSnapshot = (I_Unspecified, I_Unspecified)"
| "states K_Destroy = (I_Destroying, I_Destroyed)"
| "states K_Fork = (I_Creating, I_Running)"

definition plan_transition :: "OpKind \<Rightarrow> instance_state \<Rightarrow> instance_state \<Rightarrow> instance_state option" where
  "plan_transition kind transitional from =
     (if kind = K_DeleteSnapshot then Some from
      else if kind = K_CreateSnapshot \<and> from = I_Paused then Some I_Paused
      else if can_transition from transitional then Some transitional else None)"

section \<open>Payloads\<close>

datatype OpPayload =
    P_Create instance_spec
  | P_Start
  | P_Stop (grace_seconds: int)
  | P_Pause bool
  | P_Resume "snapshot_id option" bool
  | P_CreateSnapshot "string option"
  | P_DeleteSnapshot snapshot_id
  | P_Destroy bool
  | P_Fork instance_spec instance_id snapshot_id lineage bool string "identity option"
  | P_RestoreCapsule instance_spec string snapshot_id lineage

text \<open>\<open>Display\<close> of a \<open>bool\<close>.\<close>

definition show_bool :: "bool \<Rightarrow> string" where
  "show_bool b = (if b then ''true'' else ''false'')"

fun payload_descriptor :: "OpPayload \<Rightarrow> string" where
  "payload_descriptor (P_Create _) = []"
| "payload_descriptor P_Start = []"
| "payload_descriptor (P_Stop grace) = ''grace_seconds='' @ dec_u grace"
| "payload_descriptor (P_Pause require_memory) = ''require_memory='' @ show_bool require_memory"
| "payload_descriptor (P_Resume sid require_memory) =
     ''snapshot_id='' @ (case sid of Some s \<Rightarrow> s | None \<Rightarrow> []) @ '' require_memory='' @ show_bool require_memory"
| "payload_descriptor (P_CreateSnapshot name) = ''name='' @ (case name of Some n \<Rightarrow> n | None \<Rightarrow> [])"
| "payload_descriptor (P_DeleteSnapshot sid) = ''snapshot_id='' @ sid"
| "payload_descriptor (P_Destroy keep) = ''keep_snapshots='' @ show_bool keep"
| "payload_descriptor (P_Fork _ _ sid _ require_cow _ _) =
     ''source_snapshot_id='' @ sid @ '' require_cow='' @ show_bool require_cow"
| "payload_descriptor (P_RestoreCapsule _ cid sid _) =
     ''source_snapshot_id='' @ sid @ '' capsule_id='' @ cid"

definition delete_snapshot_descriptor :: "snapshot_id \<Rightarrow> string" where
  "delete_snapshot_descriptor sid = payload_descriptor (P_DeleteSnapshot sid)"

definition describe :: "string \<Rightarrow> string \<Rightarrow> string" where
  "describe kind payload = (if payload = [] then kind else kind @ '' ('' @ payload @ '')'')"

section \<open>What a descriptor stands for\<close>

text \<open>The kind every caller submits a payload under.\<close>

fun kind_of :: "OpPayload \<Rightarrow> OpKind" where
  "kind_of (P_Create _) = K_Create"
| "kind_of P_Start = K_Start"
| "kind_of (P_Stop _) = K_Stop"
| "kind_of (P_Pause _) = K_Pause"
| "kind_of (P_Resume _ _) = K_Resume"
| "kind_of (P_CreateSnapshot _) = K_CreateSnapshot"
| "kind_of (P_DeleteSnapshot _) = K_DeleteSnapshot"
| "kind_of (P_Destroy _) = K_Destroy"
| "kind_of (P_Fork _ _ _ _ _ _ _) = K_Fork"
| "kind_of (P_RestoreCapsule _ _ _ _) = K_Fork"

text \<open>
  The parameters two requests must share to be the same request: everything the
  caller sent, except that an absent name or snapshot and an empty one are one, and
  that the parts looked up by the node (source, lineage, credentials) and the spec
  are left out.
\<close>

datatype asked =
    RK_Spec
  | RK_Grace int
  | RK_Flag bool
  | RK_Text string
  | RK_TextFlag string bool
  | RK_Fork string bool
  | RK_Capsule string string

fun request_key :: "OpPayload \<Rightarrow> asked" where
  "request_key (P_Create _) = RK_Spec"
| "request_key P_Start = RK_Spec"
| "request_key (P_Stop grace) = RK_Grace grace"
| "request_key (P_Pause b) = RK_Flag b"
| "request_key (P_Resume sid b) = RK_TextFlag (case sid of Some s \<Rightarrow> s | None \<Rightarrow> []) b"
| "request_key (P_CreateSnapshot name) = RK_Text (case name of Some n \<Rightarrow> n | None \<Rightarrow> [])"
| "request_key (P_DeleteSnapshot sid) = RK_Text sid"
| "request_key (P_Destroy b) = RK_Flag b"
| "request_key (P_Fork _ _ sid _ b _ _) = RK_Fork sid b"
| "request_key (P_RestoreCapsule _ cid sid _) = RK_Capsule sid cid"

text \<open>
  What the callers guarantee: a grace is a \<open>u32\<close>, and the ids of a fork's source and
  of a capsule hold no white space.
\<close>

fun well_formed :: "OpPayload \<Rightarrow> bool" where
  "well_formed (P_Stop grace) \<longleftrightarrow> 0 \<le> grace"
| "well_formed (P_Fork _ _ sid _ _ _ _) \<longleftrightarrow> CHR '' '' \<notin> set sid"
| "well_formed (P_RestoreCapsule _ cid sid _) \<longleftrightarrow> CHR '' '' \<notin> set sid \<and> CHR '' '' \<notin> set cid"
| "well_formed _ \<longleftrightarrow> True"

lemma show_bool_inj [simp]: "show_bool a = show_bool b \<longleftrightarrow> a = b"
  by (simp add: show_bool_def)

text \<open>A flag at the end of a text can be told apart whatever precedes it.\<close>

lemma flag_suffix:
  "a @ s @ show_bool x = b @ s @ show_bool y \<longleftrightarrow> a = b \<and> x = y"
proof -
  have "x = y" if "a @ s @ show_bool x = b @ s @ show_bool y" for a b
  proof -
    have "hd (tl (rev (a @ s @ show_bool x))) = hd (tl (rev (b @ s @ show_bool y)))" using that by simp
    thus ?thesis by (auto simp: show_bool_def split: if_splits)
  qed
  thus ?thesis by auto
qed

lemma word_then_rest:
  assumes "CHR '' '' \<notin> set a" "CHR '' '' \<notin> set b" "a @ CHR '' '' # x = b @ CHR '' '' # y"
  shows "a = b \<and> x = y"
proof -
  have "split_once (CHR '' '') (a @ CHR '' '' # x) = Some (a, x)"
       "split_once (CHR '' '') (b @ CHR '' '' # y) = Some (b, y)"
    using assms(1,2) by (simp_all add: split_once_append)
  thus ?thesis using assms(3) by (metis option.inject prod.inject)
qed

lemma as_str_inj [simp]: "as_str a = as_str b \<longleftrightarrow> a = b"
  by (cases a; cases b) simp_all

text \<open>
  A descriptor binds its request.  Among the payloads of one kind, two have the
  same descriptor exactly when they are the same request: the same grace, flags, name
  and ids.  A fork and a capsule restore, which share a kind, are told apart as well.
\<close>

theorem descriptor_binds_request:
  assumes "kind_of p = kind_of q" and "well_formed p" and "well_formed q"
  shows "payload_descriptor p = payload_descriptor q \<longleftrightarrow> request_key p = request_key q"
proof (cases "kind_of p = K_Fork")
  case False
  thus ?thesis using assms
    by (cases p; cases q) (auto simp: dec_u_inj flag_suffix [of _ "'' require_memory=''", simplified])
next
  case True
  have word: "a @ CHR '' '' # x = b @ CHR '' '' # y \<longleftrightarrow> a = b \<and> x = y"
    if "CHR '' '' \<notin> set a" "CHR '' '' \<notin> set b" for a b x y
    using word_then_rest [OF that, of x y] by blast
  show ?thesis using True assms
    by (cases p; cases q) (simp_all add: word)
qed

theorem descriptor_binds_request_witness:
  "payload_descriptor (P_Resume (Some ''s1'') True) \<noteq> payload_descriptor (P_Resume (Some ''s1'') False)
   \<and> payload_descriptor (P_Resume None True) = payload_descriptor (P_Resume (Some []) True)
   \<and> payload_descriptor (P_Stop 5) \<noteq> payload_descriptor (P_Stop 50)"
  using descriptor_binds_request [of "P_Resume (Some ''s1'') True" "P_Resume (Some ''s1'') False"]
    descriptor_binds_request [of "P_Resume None True" "P_Resume (Some []) True"]
    descriptor_binds_request [of "P_Stop 5" "P_Stop 50"] by simp

section \<open>Kinds against the transition tables\<close>

text \<open>
  The table of kinds agrees with the state machine.  Whatever a submission on an
  existing instance is planned to record, either it is a snapshot verb that records the
  state it found, or the move is an edge of the machine into a transitional state from
  which the machine has an edge to the final state of the kind and one to \<open>FAILED\<close>.  A
  create and a fork are never planned on an instance that exists.
\<close>

theorem plans_follow_the_table:
  assumes "plan_transition kind (fst (states kind)) from = Some recorded"
  shows "kind \<noteq> K_Create \<and> kind \<noteq> K_Fork
       \<and> (recorded = from \<and> \<not> touches_instance_state kind
          \<or> recorded = fst (states kind) \<and> can_transition from recorded \<and> is_transitional recorded
            \<and> can_transition recorded I_Failed \<and> can_transition recorded (snd (states kind)))"
  using assms
  by (cases kind) (auto simp: plan_transition_def touches_instance_state_def can_transition_def TRANSITIONS_def
      split: if_splits)

theorem plans_follow_the_table_witness:
  "can_transition I_Running I_Pausing \<and> is_transitional I_Pausing \<and> can_transition I_Pausing I_Failed
   \<and> can_transition I_Pausing I_Paused"
proof -
  have "plan_transition K_Pause (fst (states K_Pause)) I_Running = Some I_Pausing"
    by (simp add: plan_transition_def can_transition_def TRANSITIONS_def)
  thus ?thesis using plans_follow_the_table [of K_Pause I_Running I_Pausing]
    by (auto simp: touches_instance_state_def)
qed

end
