(* ===== verification/Agent_World.thy ===== *)
theory Agent_World
  imports Op_Kinds Event_Bus Journal_Capsules Journal_Leases Fleet_Desired Restore_Policy
    "HOL-Library.State_Monad" "HOL-Library.AList"
begin

text \<open>
  The setting the node's handlers run in: what the process keeps in memory and on
  disk, and everything outside it.

  A handler is an action of the state monad over \<open>'s world\<close>.  The type \<open>'s\<close> is the
  state of what the sources only call: the substrate behind \<open>dyn Runtime\<close>, the guests,
  the buckets, the clock, the entropy pool.  Each call is a field of the record \<open>env\<close>,
  an argument of every handler.  The other tasks of the process run on other threads:
  before every statement on the journal, before every operation on a local file and
  around every awaited call the world is changed by \<open>en_others\<close>, an arbitrary function.
  \<open>en_fault\<close> says whether the next statement or file operation fails; one that fails
  changes nothing.

  The texts of messages, which carry no decision, are the data they are formatted
  from; \<open>en_text\<close> renders one where the journal keeps the text.
\<close>

section \<open>What the sources call\<close>

datatype RuntimeError =
    RE_TemplateNotFound string
  | RE_SubstrateUnavailable string
  | RE_CapabilityMissing string
  | RE_NameConflict string
  | RE_Other string

record SnapshotRef =
  sn_snapshot_id :: snapshot_id
  sn_kind :: snapshot_kind
  sn_size_bytes :: int

record ForkOutcome =
  fo_handle :: instance_id
  fo_mode :: fork_mode
  fo_froze_source :: bool

record SnapshotObject =
  so_type :: capsule_object_type
  so_bytes :: string

record StopStatus =
  ss_exit_code :: "int option"
  ss_detail :: string

record Credential =
  cr_id :: string
  cr_instance :: "instance_id option"

record Sandbox =
  sb_substrate_id :: string
  sb_instance_id :: instance_id
  sb_running :: bool

record GuestBootstrap =
  gb_token :: string
  gb_identity :: "identity option"

datatype HookKind = PreSnapshot | PostRestore

text \<open>\<open>guest.rs\<close>: no transport at all, or one whose agent does not answer.\<close>

datatype GuestError = GE_Unsupported string | GE_Unreachable instance_id string

datatype SubstrateHealth = SH_Unspecified | SH_Healthy | SH_Unreachable

text \<open>A gRPC status; the reason travels in the metadata key \<open>barista-reason\<close>.\<close>

datatype grpc_code =
    GC_Ok | GC_Cancelled | GC_Unknown | GC_InvalidArgument | GC_DeadlineExceeded | GC_NotFound
  | GC_AlreadyExists | GC_PermissionDenied | GC_ResourceExhausted | GC_FailedPrecondition | GC_Aborted
  | GC_OutOfRange | GC_Unimplemented | GC_Internal | GC_Unavailable | GC_DataLoss | GC_Unauthenticated

record Status =
  st_code :: grpc_code
  st_reason :: "error_reason option"
  st_message :: string

text \<open>The guest contract's streamed messages; a frame message whose \<open>oneof\<close> is unset is \<^const>\<open>None\<close>.\<close>

record GuestTermSize =
  gz_rows :: int
  gz_cols :: int

record GuestExecStart =
  gs_cmd :: "string list"
  gs_env :: "string \<rightharpoonup> string"
  gs_workdir :: string
  gs_pty :: bool
  gs_term_size :: "GuestTermSize option"
  gs_user_activity :: bool

datatype GuestFrame =
    GF_Start GuestExecStart | GF_Stdin string | GF_Stdout string | GF_Stderr string
  | GF_Resize GuestTermSize | GF_Exit int

datatype GuestWrite = GW_Open string int | GW_Chunk string

record GuestRead =
  gr_path :: string
  gr_offset :: int
  gr_limit :: int

record GuestChunk =
  gk_data :: string
  gk_eof :: bool

record HealthResponse =
  hr_ready :: bool
  hr_idle_declared :: "timestamp option"
  hr_last_user_activity :: "timestamp option"

record RestoreReport =
  rp_entropy_bytes_mixed :: int
  rp_entropy_credited :: bool
  rp_clock_drift_ms :: int
  rp_clock_stepped :: bool
  rp_degraded :: string
  rp_grant_rebound :: bool

text \<open>A statement failed: the disk, or a refusal the method itself spells out.\<close>

datatype db_error = DE_Fault string | DE_Refused journal_error

section \<open>Messages\<close>

text \<open>A message: the words that identify its \<open>format!\<close> literal, and what is formatted into it.\<close>

datatype arg =
    A_Text string
  | A_Num int
  | A_Db db_error
  | A_Runtime RuntimeError
  | A_Restore restore_why
  | A_Capsule capsule_why
  | A_Refusal refusal_why
  | A_Rejection rejection
  | A_Op OpKind
  | A_State instance_state
  | A_Kind snapshot_kind
  | A_Mode fork_mode
  | A_Report RestoreReport
  | A_Guest GuestError
  | A_Storage capsule_storage
  | A_Object capsule_object_type

datatype notice = Notice string "arg list"

section \<open>The world\<close>

type_synonym version = "string option \<times> string option"

record Outage =
  og_since_ms :: ms
  og_reported :: bool

record Fleet =
  ft_bucket :: string
  ft_node_id :: string
  ft_advertise :: string
  ft_timing :: Timing
  ft_held :: "(string \<times> version Held) list"
  ft_holds_reported :: "string list"
  ft_outage :: "Outage option"

text \<open>An executor the submit path has spawned.\<close>

record task =
  tk_kind :: OpKind
  tk_op :: OperationRow
  tk_payload :: OpPayload
  tk_recorded :: instance_state

record 's world =
  w_db :: journal
  w_objects :: "(string \<times> string) list"
  w_staging :: "(string \<times> string) list"
  w_tasks :: "task list"
  w_fleet :: "Fleet option"
  w_vanished :: "instance_id \<rightharpoonup> nat"
  w_unclaimed :: "string list"
  w_retention_at :: "int option"
  w_credentials_at :: "int option"
  w_ext :: 's

type_synonym ('s, 'a) act = "('s world, 'a) state"

type_synonym ('s, 'a) extern = "'s \<Rightarrow> 'a \<times> 's"

text \<open>The trait \<open>Runtime\<close>, the guest agent's client, and the bucket of the capsule tier.\<close>

record 's Runtime =
  rt_name :: string
  rt_version :: string
  rt_capabilities :: capabilities
  rt_network_reachable :: bool
  rt_enumerates_sandboxes :: bool
  rt_create :: "instance_spec \<Rightarrow> GuestBootstrap \<Rightarrow> ('s, RuntimeError + unit) extern"
  rt_start :: "instance_id \<Rightarrow> instance_spec \<Rightarrow> GuestBootstrap \<Rightarrow> ('s, RuntimeError + unit) extern"
  rt_stop :: "instance_id \<Rightarrow> int \<Rightarrow> ('s, RuntimeError + unit) extern"
  rt_stop_status :: "instance_id \<Rightarrow> ('s, RuntimeError + StopStatus option) extern"
  rt_pause :: "instance_id \<Rightarrow> ('s, RuntimeError + SnapshotRef) extern"
  rt_resume :: "instance_id \<Rightarrow> snapshot_id option \<Rightarrow> ('s, RuntimeError + unit) extern"
  rt_fork :: "instance_id \<Rightarrow> snapshot_id \<Rightarrow> instance_spec \<Rightarrow> GuestBootstrap \<Rightarrow> bool
              \<Rightarrow> ('s, RuntimeError + ForkOutcome) extern"
  rt_restore_from_objects :: "SnapshotObject list \<Rightarrow> instance_spec \<Rightarrow> GuestBootstrap
              \<Rightarrow> ('s, RuntimeError + unit) extern"
  rt_create_snapshot :: "instance_id \<Rightarrow> string option \<Rightarrow> ('s, RuntimeError + SnapshotRef) extern"
  rt_delete_snapshot :: "snapshot_id \<Rightarrow> ('s, RuntimeError + unit) extern"
  rt_destroy :: "instance_id \<Rightarrow> ('s, RuntimeError + unit) extern"

text \<open>The part of the trait that enumerates and exports.\<close>

record 's Substrate =
  rt_list_labeled :: "('s, RuntimeError + instance_id list) extern"
  rt_remove_orphan :: "instance_id \<Rightarrow> ('s, RuntimeError + unit) extern"
  rt_list_credentials :: "('s, RuntimeError + Credential list) extern"
  rt_remove_credential :: "string \<Rightarrow> ('s, RuntimeError + unit) extern"
  rt_list_sandboxes :: "('s, RuntimeError + Sandbox list) extern"
  rt_remove_sandbox :: "string \<Rightarrow> ('s, RuntimeError + unit) extern"
  rt_export_snapshot :: "snapshot_id \<Rightarrow> ('s, RuntimeError + SnapshotObject list) extern"
  rt_workload_address :: "instance_id \<Rightarrow> ('s, RuntimeError + string option) extern"
  rt_substrate_health :: "('s, SubstrateHealth \<times> string) extern"
  rt_application_logs :: "instance_id \<Rightarrow> int \<Rightarrow> bool \<Rightarrow> ('s, RuntimeError + (RuntimeError + string) list) extern"

text \<open>
  \<open>gc_channel\<close> is whether the runtime has a guest channel at all.  A streaming call is given
  the frames its caller sends and returns what the guest answers: for \<open>exec\<close> the items of the
  response and how many of them are taken before a broken request stream is noticed, for
  \<open>write_file\<close> the answer and how many frames the guest asked for before giving it.
\<close>

record 's Guest =
  gc_channel :: bool
  gc_connect :: "instance_id \<Rightarrow> string \<Rightarrow> identity option \<Rightarrow> ('s, GuestError + unit) extern"
  gc_exec :: "instance_id \<Rightarrow> GuestFrame option list \<Rightarrow> ('s, Status + (Status + GuestFrame option) list \<times> nat) extern"
  gc_read_file :: "instance_id \<Rightarrow> GuestRead \<Rightarrow> ('s, Status + (Status + GuestChunk) list) extern"
  gc_write_file :: "instance_id \<Rightarrow> GuestWrite option list \<Rightarrow> ('s, (Status + int) \<times> nat) extern"
  gc_run_hook :: "instance_id \<Rightarrow> HookKind \<Rightarrow> ('s, string + hook_outcome) extern"
  gc_restore_duties :: "instance_id \<Rightarrow> string \<Rightarrow> timestamp option \<Rightarrow> int \<Rightarrow> ('s, string + RestoreReport) extern"
  gc_health :: "instance_id \<Rightarrow> bool \<Rightarrow> ('s, string + HealthResponse) extern"

record 's Remote =
  ob_label :: string
  ob_head :: "string \<Rightarrow> ('s, string + bool) extern"
  ob_get :: "string \<Rightarrow> ('s, string + string option) extern"
  ob_put :: "string \<Rightarrow> string \<Rightarrow> ('s, string + unit) extern"
  ob_delete :: "string \<Rightarrow> ('s, string + unit) extern"

text \<open>The settings the modelled code reads; durations in milliseconds.\<close>

record Config =
  cf_event_retention :: int
  cf_retention_sweep_interval :: int
  cf_credential_sweep_interval :: int

record 's env =
  en_others :: "'s world \<Rightarrow> 's world"
  en_fault :: "('s, string option) extern"
  en_now :: "('s, ms) extern"
  en_instant :: "('s, int) extern"
  en_host_time :: "('s, timestamp option) extern"
  en_random :: "('s, string + string) extern"
  en_ulid :: "('s, string) extern"
  en_suffix :: "('s, string) extern"
  en_mint :: "'s \<Rightarrow> instance_id \<Rightarrow> string + identity"
  en_sha :: "string \<Rightarrow> string"
  en_is_ulid :: "string \<Rightarrow> bool"
  en_text :: "notice \<Rightarrow> string"
  en_node_id :: string
  en_cpu_class :: string
  en_arch :: string
  en_parallelism :: "int option"
  en_agent_version :: string
  en_config :: Config
  en_runtime :: "'s Runtime"
  en_substrate :: "'s Substrate"
  en_guest :: "'s Guest"
  en_remote :: "'s Remote option"
  en_bucket :: "('s, string, version) backend"
  en_list_desired :: "('s, unit + (string \<times> Desired option) list) extern"
  en_decode_spec :: "octets \<Rightarrow> instance_spec option"

section \<open>Primitive actions\<close>

abbreviation return :: "'a \<Rightarrow> ('s, 'a) act" where
  "return \<equiv> State_Monad.return"

definition gets :: "('s world \<Rightarrow> 'a) \<Rightarrow> ('s, 'a) act" where
  "gets f = State (\<lambda>w. (f w, w))"

definition modify :: "('s world \<Rightarrow> 's world) \<Rightarrow> ('s, unit) act" where
  "modify f = State (\<lambda>w. ((), f w))"

definition extern :: "('s, 'a) extern \<Rightarrow> ('s, 'a) act" where
  "extern f = State (\<lambda>w. case f (w_ext w) of (a, x) \<Rightarrow> (a, w\<lparr>w_ext := x\<rparr>))"

text \<open>A call that is awaited: the other tasks run until it returns and before its caller goes on.\<close>

definition others :: "'s env \<Rightarrow> ('s, unit) act" where
  "others E = modify (en_others E)"

definition await :: "'s env \<Rightarrow> ('s, 'a) extern \<Rightarrow> ('s, 'a) act" where
  "await E f = do { others E; a \<leftarrow> extern f; others E; return a }"

definition now_ms :: "'s env \<Rightarrow> ('s, ms) act" where
  "now_ms E = extern (en_now E)"

text \<open>A statement on the journal, under its lock, given the clock it reads.\<close>

definition db_call ::
  "'s env \<Rightarrow> (ms \<Rightarrow> journal \<Rightarrow> journal_error + 'a \<times> journal) \<Rightarrow> ('s, db_error + 'a) act" where
  "db_call E f = do {
     others E;
     now \<leftarrow> now_ms E;
     fault \<leftarrow> extern (en_fault E);
     case fault of
       Some e \<Rightarrow> return (Inl (DE_Fault e))
     | None \<Rightarrow> State (\<lambda>w. case f now (w_db w) of
           Inl e \<Rightarrow> (Inl (DE_Refused e), w)
         | Inr (a, db) \<Rightarrow> (Inr a, w\<lparr>w_db := db\<rparr>)) }"

definition db_read :: "'s env \<Rightarrow> (journal \<Rightarrow> 'a) \<Rightarrow> ('s, db_error + 'a) act" where
  "db_read E f = db_call E (\<lambda>_ db. Inr (f db, db))"

definition db_write :: "'s env \<Rightarrow> (ms \<Rightarrow> journal \<Rightarrow> journal) \<Rightarrow> ('s, db_error + unit) act" where
  "db_write E f = db_call E (\<lambda>now db. Inr ((), f now db))"

text \<open>An operation on the files of the object store.\<close>

definition fs_call :: "'s env \<Rightarrow> ('s world \<Rightarrow> string + 'a \<times> 's world) \<Rightarrow> ('s, string + 'a) act" where
  "fs_call E f = do {
     others E;
     fault \<leftarrow> extern (en_fault E);
     case fault of
       Some e \<Rightarrow> return (Inl e)
     | None \<Rightarrow> State (\<lambda>w. case f w of Inl e \<Rightarrow> (Inl e, w) | Inr (a, w') \<Rightarrow> (Inr a, w')) }"

text \<open>\<open>EventBus::record\<close>: a failed insert is logged and nothing else.\<close>

definition record_event :: "'s env \<Rightarrow> pb_event \<Rightarrow> ('s, unit) act" where
  "record_event E ev = do {
     _ \<leftarrow> db_call E (\<lambda>now db. Inr (insert_event db ev now));
     return () }"

fun for_each :: "('a \<Rightarrow> ('s, unit) act) \<Rightarrow> 'a list \<Rightarrow> ('s, unit) act" where
  "for_each f [] = return ()"
| "for_each f (x # xs) = do { f x; for_each f xs }"

definition ok :: "'e + 'a \<Rightarrow> 'a option" where
  "ok r = (case r of Inl _ \<Rightarrow> None | Inr a \<Rightarrow> Some a)"

text \<open>\<open>.ok().flatten()\<close> of a lookup.\<close>

definition found :: "'e + 'a option \<Rightarrow> 'a option" where
  "found r = (case r of Inl _ \<Rightarrow> None | Inr a \<Rightarrow> a)"

section \<open>Triples\<close>

text \<open>
  \<open>triple P m Q\<close>: from a world where \<open>P\<close> holds, \<open>m\<close> returns in one where \<open>Q\<close> holds of its
  result.  Actions are total, so this is total correctness.
\<close>

named_theorems keep_rules

definition triple :: "('s world \<Rightarrow> bool) \<Rightarrow> ('s, 'a) act \<Rightarrow> ('a \<Rightarrow> 's world \<Rightarrow> bool) \<Rightarrow> bool" where
  "triple P m Q \<longleftrightarrow> (\<forall>w. P w \<longrightarrow> (case run_state m w of (a, w') \<Rightarrow> Q a w'))"

definition keeps :: "('s world \<Rightarrow> bool) \<Rightarrow> ('s, 'a) act \<Rightarrow> bool" where
  "keeps P m \<longleftrightarrow> triple P m (\<lambda>_. P)"

lemma tripleI: "(\<And>w a w'. P w \<Longrightarrow> run_state m w = (a, w') \<Longrightarrow> Q a w') \<Longrightarrow> triple P m Q"
  unfolding triple_def by (auto split: prod.splits)

lemma tripleD: "triple P m Q \<Longrightarrow> P w \<Longrightarrow> run_state m w = (a, w') \<Longrightarrow> Q a w'"
  unfolding triple_def by fastforce

lemma triple_return: "(\<And>w. P w \<Longrightarrow> Q a w) \<Longrightarrow> triple P (return a) Q"
  by (simp add: triple_def)

lemma triple_bind:
  assumes "triple P m R" and "\<And>a. triple (R a) (f a) Q"
  shows "triple P (State_Monad.bind m f) Q"
  using assms unfolding triple_def by (fastforce split: prod.splits)

lemma triple_pre: "triple P' m Q \<Longrightarrow> (\<And>w. P w \<Longrightarrow> P' w) \<Longrightarrow> triple P m Q"
  by (auto simp: triple_def)

lemma triple_post: "triple P m Q' \<Longrightarrow> (\<And>a w. Q' a w \<Longrightarrow> Q a w) \<Longrightarrow> triple P m Q"
  by (fastforce simp: triple_def)

lemma triple_conj: "triple P m Q \<Longrightarrow> triple P' m Q' \<Longrightarrow> triple (\<lambda>w. P w \<and> P' w) m (\<lambda>a w. Q a w \<and> Q' a w)"
  by (fastforce simp: triple_def)

lemma keepsI: "(\<And>w a w'. P w \<Longrightarrow> run_state m w = (a, w') \<Longrightarrow> P w') \<Longrightarrow> keeps P m"
  unfolding keeps_def by (rule tripleI)

lemma keepsD: "keeps P m \<Longrightarrow> P w \<Longrightarrow> run_state m w = (a, w') \<Longrightarrow> P w'"
  unfolding keeps_def by (rule tripleD)

lemma keeps_return [keep_rules]: "keeps P (return a)"
  by (simp add: keeps_def triple_return)

lemma keeps_bind [keep_rules]:
  "keeps P m \<Longrightarrow> (\<And>a. keeps P (f a)) \<Longrightarrow> keeps P (State_Monad.bind m f)"
  unfolding keeps_def by (rule triple_bind)

lemma keeps_gets [keep_rules]: "keeps P (gets f)"
  by (rule keepsI) (auto simp: gets_def)

lemma keeps_if [keep_rules]: "(b \<Longrightarrow> keeps P m) \<Longrightarrow> (\<not> b \<Longrightarrow> keeps P n) \<Longrightarrow> keeps P (if b then m else n)"
  by simp

lemma keeps_case_option [keep_rules]:
  "(x = None \<Longrightarrow> keeps P m) \<Longrightarrow> (\<And>a. x = Some a \<Longrightarrow> keeps P (f a)) \<Longrightarrow> keeps P (case x of None \<Rightarrow> m | Some a \<Rightarrow> f a)"
  by (cases x) simp_all

lemma keeps_case_sum [keep_rules]:
  "(\<And>a. x = Inl a \<Longrightarrow> keeps P (f a)) \<Longrightarrow> (\<And>a. x = Inr a \<Longrightarrow> keeps P (g a)) \<Longrightarrow> keeps P (case x of Inl a \<Rightarrow> f a | Inr a \<Rightarrow> g a)"
  by (cases x) simp_all

lemma keeps_case_prod [keep_rules]:
  "(\<And>a b. x = (a, b) \<Longrightarrow> keeps P (f a b)) \<Longrightarrow> keeps P (case x of (a, b) \<Rightarrow> f a b)"
  by (cases x) simp

lemma keeps_Let [keep_rules]: "keeps P (f x) \<Longrightarrow> keeps P (Let x f)"
  by simp

lemma keeps_for_each [keep_rules]: "(\<And>x. keeps P (f x)) \<Longrightarrow> keeps P (for_each f xs)"
  by (induction xs) (auto intro: keep_rules)

text \<open>A property of the journal alone is kept by everything but its statements and the other tasks.\<close>

definition on_db :: "(journal \<Rightarrow> bool) \<Rightarrow> 's world \<Rightarrow> bool" where
  "on_db I w \<longleftrightarrow> I (w_db w)"

definition rely :: "(journal \<Rightarrow> bool) \<Rightarrow> 's env \<Rightarrow> bool" where
  "rely I E \<longleftrightarrow> (\<forall>w. I (w_db w) \<longrightarrow> I (w_db (en_others E w)))"

lemma keeps_extern [keep_rules]: "keeps (on_db I) (extern f)"
  by (rule keepsI) (auto simp: extern_def on_db_def split: prod.splits)

lemma keeps_now_ms [keep_rules]: "keeps (on_db I) (now_ms E)"
  by (simp add: now_ms_def keep_rules)

lemma keeps_others [keep_rules]: "rely I E \<Longrightarrow> keeps (on_db I) (others E)"
  by (rule keepsI) (auto simp: others_def modify_def rely_def on_db_def)

lemma keeps_await [keep_rules]: "rely I E \<Longrightarrow> keeps (on_db I) (await E f)"
  unfolding await_def by (intro keep_rules)

lemma keeps_modify [keep_rules]: "(\<And>w. w_db (f w) = w_db w) \<Longrightarrow> keeps (on_db I) (modify f)"
  by (rule keepsI) (auto simp: modify_def on_db_def)

lemma keeps_db_call:
  assumes "rely I E" and "\<And>now db a db'. I db \<Longrightarrow> f now db = Inr (a, db') \<Longrightarrow> I db'"
  shows "keeps (on_db I) (db_call E f)"
proof -
  have "keeps (on_db I) (State (\<lambda>w. case f now (w_db w) of
           Inl e \<Rightarrow> (Inl (DE_Refused e), w) | Inr (a, db) \<Rightarrow> (Inr a, w\<lparr>w_db := db\<rparr>)))" for now
    by (rule keepsI) (auto simp: on_db_def split: sum.splits prod.splits intro: assms(2))
  thus ?thesis unfolding db_call_def by (intro keep_rules assms(1))
qed

lemma keeps_fs_call [keep_rules]:
  assumes "rely I E" and "\<And>w a w'. f w = Inr (a, w') \<Longrightarrow> w_db w' = w_db w"
  shows "keeps (on_db I) (fs_call E f)"
proof -
  have "keeps (on_db I) (State (\<lambda>w. case f w of Inl e \<Rightarrow> (Inl e, w) | Inr (a, w') \<Rightarrow> (Inr a, w')))"
    by (rule keepsI) (auto simp: on_db_def split: sum.splits prod.splits dest: assms(2))
  thus ?thesis unfolding fs_call_def by (intro keep_rules assms(1))
qed

lemma keeps_db_read [keep_rules]: "rely I E \<Longrightarrow> keeps (on_db I) (db_read E f)"
  unfolding db_read_def by (rule keeps_db_call) simp_all

lemma keeps_db_write:
  "rely I E \<Longrightarrow> (\<And>now db. I db \<Longrightarrow> I (f now db)) \<Longrightarrow> keeps (on_db I) (db_write E f)"
  unfolding db_write_def by (rule keeps_db_call) auto

lemma keeps_record_event:
  "rely I E \<Longrightarrow> (\<And>now db. I db \<Longrightarrow> I (snd (insert_event db ev now))) \<Longrightarrow> keeps (on_db I) (record_event E ev)"
  unfolding record_event_def by (intro keep_rules keeps_db_call) (assumption, metis Inr_inject snd_conv)

section \<open>Results\<close>

text \<open>What an action returns, from every world.\<close>

definition yields :: "('s, 'a) act \<Rightarrow> ('a \<Rightarrow> bool) \<Rightarrow> bool" where
  "yields m Q \<longleftrightarrow> (\<forall>w. Q (fst (run_state m w)))"

lemma yieldsD: "yields m Q \<Longrightarrow> run_state m w = (a, w') \<Longrightarrow> Q a"
  unfolding yields_def by (metis fst_conv)

lemma yields_return: "Q a \<Longrightarrow> yields (return a) Q"
  by (simp add: yields_def)

lemma yields_post: "yields m Q \<Longrightarrow> (\<And>a. Q a \<Longrightarrow> R a) \<Longrightarrow> yields m R"
  by (simp add: yields_def)

lemma yields_bind:
  assumes "yields m R" and "\<And>a. R a \<Longrightarrow> yields (f a) Q"
  shows "yields (State_Monad.bind m f) Q"
  using assms unfolding yields_def by (auto split: prod.splits dest: spec) (metis fst_conv)

lemma yields_any: "(\<And>a. yields (f a) Q) \<Longrightarrow> yields (State_Monad.bind m f) Q"
  by (rule yields_bind [of m "\<lambda>_. True"]) (simp_all add: yields_def)

lemma yields_case_option:
  "(x = None \<Longrightarrow> yields m Q) \<Longrightarrow> (\<And>a. x = Some a \<Longrightarrow> yields (f a) Q) \<Longrightarrow> yields (case x of None \<Rightarrow> m | Some a \<Rightarrow> f a) Q"
  by (cases x) simp_all

lemma yields_case_sum:
  "(\<And>a. x = Inl a \<Longrightarrow> yields (f a) Q) \<Longrightarrow> (\<And>a. x = Inr a \<Longrightarrow> yields (g a) Q) \<Longrightarrow> yields (case x of Inl a \<Rightarrow> f a | Inr a \<Rightarrow> g a) Q"
  by (cases x) simp_all

lemma yields_if: "(b \<Longrightarrow> yields m Q) \<Longrightarrow> (\<not> b \<Longrightarrow> yields n Q) \<Longrightarrow> yields (if b then m else n) Q"
  by simp

lemma yields_extern:
  assumes "\<And>x. Q (fst (f x))"
  shows "yields (extern f) Q"
  using assms by (auto simp: yields_def extern_def split: prod.splits) (metis fst_conv)

lemma yields_await:
  assumes "\<And>x. Q (fst (f x))"
  shows "yields (await E f) Q"
  unfolding await_def
  by (rule yields_any, rule yields_bind, rule yields_extern [of Q], rule assms)
    (intro yields_any yields_return)

lemma yields_case_bool: "(b \<Longrightarrow> yields m Q) \<Longrightarrow> (\<not> b \<Longrightarrow> yields n Q) \<Longrightarrow> yields (case b of True \<Rightarrow> m | False \<Rightarrow> n) Q"
  by (cases b) simp_all

lemma keeps_case_bool [keep_rules]:
  "(b \<Longrightarrow> keeps P m) \<Longrightarrow> (\<not> b \<Longrightarrow> keeps P n) \<Longrightarrow> keeps P (case b of True \<Rightarrow> m | False \<Rightarrow> n)"
  by (cases b) simp_all

text \<open>A property of the whole world that the other tasks keep and that does not speak of the outside.\<close>

definition undisturbed :: "('s world \<Rightarrow> bool) \<Rightarrow> 's env \<Rightarrow> bool" where
  "undisturbed P E \<longleftrightarrow> (\<forall>w. P w \<longrightarrow> P (en_others E w)) \<and> (\<forall>w x. P w \<longrightarrow> P (w\<lparr>w_ext := x\<rparr>))"

lemma stable_extern: "undisturbed P E \<Longrightarrow> keeps P (extern f)"
  by (rule keepsI) (auto simp: extern_def undisturbed_def split: prod.splits)

lemma stable_others: "undisturbed P E \<Longrightarrow> keeps P (others E)"
  by (rule keepsI) (auto simp: others_def modify_def undisturbed_def)

lemma stable_await: "undisturbed P E \<Longrightarrow> keeps P (await E f)"
  unfolding await_def by (intro keep_rules stable_others stable_extern)

lemma stable_fs_call:
  assumes "undisturbed P E" and "\<And>w a w'. P w \<Longrightarrow> f w = Inr (a, w') \<Longrightarrow> Q a w'" and "\<And>e w. P w \<Longrightarrow> R e w"
  shows "triple P (fs_call E f) (\<lambda>r w. case r of Inl e \<Rightarrow> R e w | Inr a \<Rightarrow> Q a w)"
proof -
  have step: "triple P (State (\<lambda>w. case f w of Inl e \<Rightarrow> (Inl e, w) | Inr (a, w') \<Rightarrow> (Inr a, w')))
                (\<lambda>r w. case r of Inl e \<Rightarrow> R e w | Inr a \<Rightarrow> Q a w)"
    by (rule tripleI) (auto split: sum.splits prod.splits intro: assms)
  have "triple P (case fault of Some e \<Rightarrow> return (Inl e)
          | None \<Rightarrow> State (\<lambda>w. case f w of Inl e \<Rightarrow> (Inl e, w) | Inr (a, w') \<Rightarrow> (Inr a, w')))
                (\<lambda>r w. case r of Inl e \<Rightarrow> R e w | Inr a \<Rightarrow> Q a w)" for fault
    using step by (cases fault) (auto intro!: triple_return assms(3))
  thus ?thesis unfolding fs_call_def
    by (intro triple_bind [where R = "\<lambda>_. P"])
      (simp_all add: stable_others [OF assms(1), unfolded keeps_def] stable_extern [OF assms(1), unfolded keeps_def])
qed

lemma triple_db_call:
  assumes "undisturbed P E"
    and "\<And>now w a db. P w \<Longrightarrow> f now (w_db w) = Inr (a, db) \<Longrightarrow> Q (Inr a) (w\<lparr>w_db := db\<rparr>)"
    and "\<And>e w. P w \<Longrightarrow> Q (Inl e) w"
  shows "triple P (db_call E f) Q"
proof -
  have step: "triple P (State (\<lambda>w. case f now (w_db w) of
           Inl e \<Rightarrow> (Inl (DE_Refused e), w) | Inr (a, db) \<Rightarrow> (Inr a, w\<lparr>w_db := db\<rparr>))) Q" for now
    by (rule tripleI) (auto split: sum.splits prod.splits intro: assms)
  have "triple P (case fault of Some e \<Rightarrow> return (Inl (DE_Fault e))
          | None \<Rightarrow> State (\<lambda>w. case f now (w_db w) of
              Inl e \<Rightarrow> (Inl (DE_Refused e), w) | Inr (a, db) \<Rightarrow> (Inr a, w\<lparr>w_db := db\<rparr>))) Q" for now fault
    using step by (cases fault) (auto intro!: triple_return assms(3))
  thus ?thesis unfolding db_call_def now_ms_def
    by (intro triple_bind [where R = "\<lambda>_. P"])
      (simp_all add: stable_others [OF assms(1), unfolded keeps_def] stable_extern [OF assms(1), unfolded keeps_def])
qed

lemma stable_db_call:
  assumes "undisturbed P E" and "\<And>now w a db. P w \<Longrightarrow> f now (w_db w) = Inr (a, db) \<Longrightarrow> P (w\<lparr>w_db := db\<rparr>)"
  shows "keeps P (db_call E f)"
  unfolding keeps_def by (rule triple_db_call [OF assms(1)]) (use assms(2) in auto)

lemma stable_keeps_fs_call:
  assumes "undisturbed P E" and "\<And>w a w'. P w \<Longrightarrow> f w = Inr (a, w') \<Longrightarrow> P w'"
  shows "keeps P (fs_call E f)"
  unfolding keeps_def
  by (rule triple_post [OF stable_fs_call [OF assms(1), of f "\<lambda>_. P" "\<lambda>_. P"]])
    (auto intro: assms(2) split: sum.splits)

lemmas stable_rules = stable_extern stable_others stable_await

lemmas action_defs = others_def modify_def gets_def extern_def await_def now_ms_def db_call_def db_read_def
  db_write_def record_event_def

lemmas yield_rules = yields_case_bool yields_case_option yields_case_sum yields_if yields_any

section \<open>A quiet environment\<close>

text \<open>A substrate on which every call succeeds, used by the concrete instances of the properties.\<close>

definition sample_capabilities :: capabilities where
  "sample_capabilities = \<lparr>cap_memory_snapshot = True, cap_disk_snapshot = True, cap_live_checkpoint = False,
     cap_guest_agent = True, cap_hardware_isolation = True, cap_lazy_restore = False, cap_cow_fork = True,
     cap_egress_control = True, cap_full_copy_fork = True, cap_object_store_snapshots = False,
     cap_capsule_export = True, cap_capsule_import = True, cap_safe_grant_rebind = False\<rparr>"

definition sample_runtime :: "'s Runtime" where
  "sample_runtime = \<lparr>rt_name = ''fake'', rt_version = ''1'', rt_capabilities = sample_capabilities,
     rt_network_reachable = False, rt_enumerates_sandboxes = True,
     rt_create = (\<lambda>_ _ x. (Inr (), x)), rt_start = (\<lambda>_ _ _ x. (Inr (), x)), rt_stop = (\<lambda>_ _ x. (Inr (), x)),
     rt_stop_status = (\<lambda>_ x. (Inr None, x)),
     rt_pause = (\<lambda>_ x. (Inr \<lparr>sn_snapshot_id = ''s1'', sn_kind = SK_MemoryAndDisk, sn_size_bytes = 1\<rparr>, x)),
     rt_resume = (\<lambda>_ _ x. (Inr (), x)),
     rt_fork = (\<lambda>_ _ _ _ _ x. (Inr \<lparr>fo_handle = ''i1'', fo_mode = FM_Cow, fo_froze_source = False\<rparr>, x)),
     rt_restore_from_objects = (\<lambda>_ _ _ x. (Inr (), x)),
     rt_create_snapshot = (\<lambda>_ _ x. (Inr \<lparr>sn_snapshot_id = ''s1'', sn_kind = SK_MemoryAndDisk, sn_size_bytes = 1\<rparr>, x)),
     rt_delete_snapshot = (\<lambda>_ x. (Inr (), x)), rt_destroy = (\<lambda>_ x. (Inr (), x))\<rparr>"

definition sample_substrate :: "'s Substrate" where
  "sample_substrate = \<lparr>rt_list_labeled = (\<lambda>x. (Inr [], x)), rt_remove_orphan = (\<lambda>_ x. (Inr (), x)),
     rt_list_credentials = (\<lambda>x. (Inr [], x)), rt_remove_credential = (\<lambda>_ x. (Inr (), x)),
     rt_list_sandboxes = (\<lambda>x. (Inr [], x)), rt_remove_sandbox = (\<lambda>_ x. (Inr (), x)),
     rt_export_snapshot = (\<lambda>_ x. (Inr [], x)), rt_workload_address = (\<lambda>_ x. (Inr None, x)),
     rt_substrate_health = (\<lambda>x. ((SH_Healthy, []), x)), rt_application_logs = (\<lambda>_ _ _ x. (Inr [], x))\<rparr>"

definition sample_guest :: "'s Guest" where
  "sample_guest = \<lparr>gc_channel = True, gc_connect = (\<lambda>_ _ _ x. (Inr (), x)),
     gc_exec = (\<lambda>_ _ x. (Inr ([], 0), x)), gc_read_file = (\<lambda>_ _ x. (Inr [], x)),
     gc_write_file = (\<lambda>_ frames x. ((Inr (int (length frames)), Suc (length frames)), x)),
     gc_run_hook = (\<lambda>_ _ x. (Inr \<lparr>ho_ran = True, ho_timed_out = False, ho_exit_code = 0\<rparr>, x)),
     gc_restore_duties = (\<lambda>_ _ _ _ x. (Inr \<lparr>rp_entropy_bytes_mixed = 32, rp_entropy_credited = True,
        rp_clock_drift_ms = 0, rp_clock_stepped = False, rp_degraded = [], rp_grant_rebound = False\<rparr>, x)),
     gc_health = (\<lambda>_ _ x. (Inr \<lparr>hr_ready = True, hr_idle_declared = None, hr_last_user_activity = None\<rparr>, x))\<rparr>"

definition sample_bucket :: "('s, string, version) backend" where
  "sample_bucket = \<lparr>be_get = (\<lambda>_ _. Inl ()), be_put = (\<lambda>x _ _ _. (Inl PE_Other, x)),
     be_encode = (\<lambda>_. None), be_decode = (\<lambda>_. None)\<rparr>"

definition sample_env :: "'s env" where
  "sample_env = \<lparr>en_others = (\<lambda>w. w), en_fault = (\<lambda>x. (None, x)), en_now = (\<lambda>x. (1000, x)),
     en_instant = (\<lambda>x. (0, x)),
     en_host_time = (\<lambda>x. (None, x)), en_random = (\<lambda>x. (Inr ''r'', x)), en_ulid = (\<lambda>x. (''u1'', x)),
     en_suffix = (\<lambda>x. (''0'', x)), en_mint = (\<lambda>_ _. Inl ''no mint''), en_sha = (\<lambda>b. b), en_is_ulid = (\<lambda>_. True),
     en_text = (\<lambda>_. ''text''), en_node_id = ''n1'', en_cpu_class = ''cpu'', en_arch = ''aarch64'',
     en_parallelism = Some 4, en_agent_version = ''1'',
     en_config = \<lparr>cf_event_retention = 604800000, cf_retention_sweep_interval = 3600000,
       cf_credential_sweep_interval = 300000\<rparr>,
     en_runtime = sample_runtime,
     en_substrate = sample_substrate, en_guest = sample_guest, en_remote = None, en_bucket = sample_bucket,
     en_list_desired = (\<lambda>x. (Inl (), x)), en_decode_spec = (\<lambda>_. None)\<rparr>"

definition sample_world :: "journal \<Rightarrow> 's \<Rightarrow> 's world" where
  "sample_world db x = \<lparr>w_db = db, w_objects = [], w_staging = [], w_tasks = [], w_fleet = None,
     w_vanished = Map.empty, w_unclaimed = [], w_retention_at = None, w_credentials_at = None, w_ext = x\<rparr>"

end
