(* ===== verification/Object_Store.thy ===== *)
theory Object_Store
  imports Agent_World
begin

text \<open>
  \<open>objects.rs\<close>: the content-addressed store of capsule objects.  The two directories
  are listings of name and content.  Bytes are staged, measured and then renamed to
  their digest; the durable tier is a bucket behind the calls of \<open>Remote\<close>; deletion is
  driven by the reference counts of the journal.
\<close>

section \<open>Staging and committing\<close>

definition is_path_safe_digest :: "string \<Rightarrow> bool" where
  "is_path_safe_digest digest \<longleftrightarrow>
     digest \<noteq> [] \<and> \<not> (\<exists>c \<in> set digest. c \<in> {CHR ''/'', CHR 0x5C, CHR 0x00})
   \<and> digest \<noteq> ''.'' \<and> digest \<noteq> ''..''"

record Staged =
  sg_path :: string
  sg_digest :: string
  sg_length :: int

definition remove_staged :: "'s env \<Rightarrow> string \<Rightarrow> ('s, unit) act" where
  "remove_staged E file = do {
     _ \<leftarrow> fs_call E (\<lambda>w. Inr ((), w\<lparr>w_staging := AList.delete file (w_staging w)\<rparr>));
     return () }"

definition stage :: "'s env \<Rightarrow> string \<Rightarrow> ('s, string + Staged) act" where
  "stage E bytes = do {
     suffix \<leftarrow> extern (en_suffix E);
     let file = ''up-'' @ suffix;
     fs_call E (\<lambda>w. Inr (\<lparr>sg_path = file, sg_digest = object_digest (en_sha E) bytes, sg_length = int (length bytes)\<rparr>,
                          w\<lparr>w_staging := AList.update file bytes (w_staging w)\<rparr>)) }"

definition contains :: "'s env \<Rightarrow> string \<Rightarrow> ('s, bool) act" where
  "contains E digest = do {
     others E;
     gets (\<lambda>w. is_path_safe_digest digest \<and> map_of (w_objects w) digest \<noteq> None) }"

text \<open>The rename fails when the staged file is gone.\<close>

definition rename_staged :: "string \<Rightarrow> string \<Rightarrow> 's world \<Rightarrow> string + unit \<times> 's world" where
  "rename_staged file digest w =
     (case map_of (w_staging w) file of
        None \<Rightarrow> Inl (''publish object '' @ digest)
      | Some bytes \<Rightarrow> Inr ((), w\<lparr>w_staging := AList.delete file (w_staging w),
                                w_objects := AList.update digest bytes (w_objects w)\<rparr>))"

definition commit :: "'s env \<Rightarrow> Staged \<Rightarrow> string \<Rightarrow> int \<Rightarrow> ('s, string + unit) act" where
  "commit E staged expected_digest expected_length =
     (if sg_digest staged \<noteq> expected_digest
      then do { remove_staged E (sg_path staged); return (Inl (''object digest mismatch'')) }
      else if sg_length staged \<noteq> expected_length
      then do { remove_staged E (sg_path staged); return (Inl (''object length mismatch'')) }
      else do {
        others E;
        present \<leftarrow> gets (\<lambda>w. map_of (w_objects w) expected_digest \<noteq> None);
        if present then do { remove_staged E (sg_path staged); return (Inr ()) }
        else fs_call E (rename_staged (sg_path staged) expected_digest) })"

section \<open>The durable tier\<close>

definition remote_path :: "string \<Rightarrow> string" where
  "remote_path digest = ''capsules/objects/'' @ digest"

definition has_remote :: "'s env \<Rightarrow> bool" where
  "has_remote E \<longleftrightarrow> en_remote E \<noteq> None"

definition remote_contains :: "'s env \<Rightarrow> string \<Rightarrow> ('s, string + bool) act" where
  "remote_contains E digest =
     (case en_remote E of
        None \<Rightarrow> return (Inl ''no object-store tier is configured on this node'')
      | Some R \<Rightarrow> await E (ob_head R (remote_path digest)))"

definition read_staged :: "string \<Rightarrow> 's world \<Rightarrow> string + string \<times> 's world" where
  "read_staged file w =
     (case map_of (w_staging w) file of None \<Rightarrow> Inl ''read staged object'' | Some bytes \<Rightarrow> Inr (bytes, w))"

text \<open>The upload, when the bucket does not have the object.\<close>

definition upload :: "'s env \<Rightarrow> 's Remote \<Rightarrow> Staged \<Rightarrow> string \<Rightarrow> ('s, string + unit) act" where
  "upload E R staged digest = do {
     present \<leftarrow> remote_contains E digest;
     case present of
       Inl e \<Rightarrow> return (Inl e)
     | Inr True \<Rightarrow> return (Inr ())
     | Inr False \<Rightarrow> do {
         bytes \<leftarrow> fs_call E (read_staged (sg_path staged));
         case bytes of
           Inl e \<Rightarrow> return (Inl e)
         | Inr bytes \<Rightarrow> await E (ob_put R (remote_path digest) bytes) } }"

text \<open>\<open>get\<close> followed by \<open>bytes\<close>: an absent object is an error here.\<close>

definition read_back :: "'s env \<Rightarrow> 's Remote \<Rightarrow> string \<Rightarrow> ('s, string + string) act" where
  "read_back E R digest = do {
     got \<leftarrow> await E (ob_get R (remote_path digest));
     return (case got of
               Inl e \<Rightarrow> Inl e
             | Inr None \<Rightarrow> Inl (''read back object '' @ digest)
             | Inr (Some bytes) \<Rightarrow> Inr bytes) }"

definition commit_remote :: "'s env \<Rightarrow> Staged \<Rightarrow> string \<Rightarrow> int \<Rightarrow> ('s, string + unit) act" where
  "commit_remote E staged expected_digest expected_length =
     (case en_remote E of
        None \<Rightarrow> return (Inl ''no object-store tier is configured on this node'')
      | Some R \<Rightarrow>
          if sg_digest staged \<noteq> expected_digest
          then do { remove_staged E (sg_path staged); return (Inl ''object digest mismatch'') }
          else if sg_length staged \<noteq> expected_length
          then do { remove_staged E (sg_path staged); return (Inl ''object length mismatch'') }
          else do {
            uploaded \<leftarrow> upload E R staged expected_digest;
            case uploaded of
              Inl e \<Rightarrow> return (Inl e)
            | Inr _ \<Rightarrow> do {
                round_tripped \<leftarrow> read_back E R expected_digest;
                case round_tripped of
                  Inl e \<Rightarrow> return (Inl e)
                | Inr bytes \<Rightarrow>
                    if object_digest (en_sha E) bytes \<noteq> expected_digest \<or> int (length bytes) \<noteq> expected_length
                    then do {
                      _ \<leftarrow> await E (ob_delete R (remote_path expected_digest));
                      remove_staged E (sg_path staged);
                      return (Inl ''object failed durable verification'') }
                    else do { remove_staged E (sg_path staged); return (Inr ()) } } })"

section \<open>Reading\<close>

definition open_object :: "string \<Rightarrow> 's world \<Rightarrow> string + string option \<times> 's world" where
  "open_object digest w =
     (if is_path_safe_digest digest then Inr (map_of (w_objects w) digest, w)
      else Inl ''refusing to open object with unsafe digest'')"

definition read_verified :: "'s env \<Rightarrow> string \<Rightarrow> ('s, string + string option) act" where
  "read_verified E digest = do {
     opened \<leftarrow> fs_call E (open_object digest);
     return (case opened of
               Inl e \<Rightarrow> Inl e
             | Inr None \<Rightarrow> Inr None
             | Inr (Some bytes) \<Rightarrow>
                 if object_digest (en_sha E) bytes \<noteq> digest then Inl ''object is corrupt on disk''
                 else Inr (Some bytes)) }"

definition fetch_remote_verified :: "'s env \<Rightarrow> string \<Rightarrow> ('s, string + string option) act" where
  "fetch_remote_verified E digest =
     (case en_remote E of
        None \<Rightarrow> return (Inr None)
      | Some R \<Rightarrow> do {
          got \<leftarrow> await E (ob_get R (remote_path digest));
          case got of
            Inl e \<Rightarrow> return (Inl e)
          | Inr None \<Rightarrow> return (Inr None)
          | Inr (Some bytes) \<Rightarrow>
              if object_digest (en_sha E) bytes \<noteq> digest then return (Inl ''object is corrupt'')
              else do {
                staged \<leftarrow> stage E bytes;
                case staged of
                  Inl e \<Rightarrow> return (Inl e)
                | Inr staged \<Rightarrow> do {
                    committed \<leftarrow> commit E staged digest (int (length bytes));
                    return (case committed of Inl e \<Rightarrow> Inl e | Inr _ \<Rightarrow> Inr (Some bytes)) } } })"

definition fetch :: "'s env \<Rightarrow> string \<Rightarrow> ('s, string + string option) act" where
  "fetch E digest = do {
     local \<leftarrow> read_verified E digest;
     case local of
       Inl e \<Rightarrow> return (Inl e)
     | Inr (Some bytes) \<Rightarrow> return (Inr (Some bytes))
     | Inr None \<Rightarrow> fetch_remote_verified E digest }"

section \<open>Removing\<close>

definition remove :: "'s env \<Rightarrow> string \<Rightarrow> ('s, string + unit) act" where
  "remove E digest =
     (if is_path_safe_digest digest
      then fs_call E (\<lambda>w. Inr ((), w\<lparr>w_objects := AList.delete digest (w_objects w)\<rparr>))
      else return (Inl ''refusing to remove object with unsafe digest''))"

definition remove_remote :: "'s env \<Rightarrow> string \<Rightarrow> ('s, string + unit) act" where
  "remove_remote E digest =
     (case en_remote E of
        None \<Rightarrow> return (Inl ''no object-store tier is configured on this node'')
      | Some R \<Rightarrow> await E (ob_delete R (remote_path digest)))"

text \<open>A loop over a directory listing, counting what was removed and stopping at the first error.\<close>

fun sweep_files :: "(string \<Rightarrow> ('s, string + bool) act) \<Rightarrow> string list \<Rightarrow> nat \<Rightarrow> ('s, string + nat) act" where
  "sweep_files f [] swept = return (Inr swept)"
| "sweep_files f (name # names) swept = do {
     r \<leftarrow> f name;
     case r of
       Inl e \<Rightarrow> return (Inl e)
     | Inr removed \<Rightarrow> sweep_files f names (if removed then swept + 1 else swept) }"

text \<open>\<open>remove_file\<close> of a file that is no longer there is an error.\<close>

definition remove_staging_file :: "string \<Rightarrow> 's world \<Rightarrow> string + bool \<times> 's world" where
  "remove_staging_file name w =
     (if map_of (w_staging w) name = None then Inl ''sweep staging file''
      else Inr (True, w\<lparr>w_staging := AList.delete name (w_staging w)\<rparr>))"

definition sweep_staging :: "'s env \<Rightarrow> ('s, string + nat) act" where
  "sweep_staging E = do {
     listing \<leftarrow> fs_call E (\<lambda>w. Inr (map fst (w_staging w), w));
     case listing of
       Inl e \<Rightarrow> return (Inl e)
     | Inr names \<Rightarrow> sweep_files (\<lambda>name. fs_call E (remove_staging_file name)) names 0 }"

definition remove_object_file :: "string \<Rightarrow> 's world \<Rightarrow> string + bool \<times> 's world" where
  "remove_object_file name w =
     (if map_of (w_objects w) name = None then Inl ''sweep untracked object''
      else Inr (True, w\<lparr>w_objects := AList.delete name (w_objects w)\<rparr>))"

definition sweep_untracked_local :: "'s env \<Rightarrow> ('s, string + nat) act" where
  "sweep_untracked_local E = do {
     listing \<leftarrow> fs_call E (\<lambda>w. Inr (map fst (w_objects w), w));
     case listing of
       Inl e \<Rightarrow> return (Inl e)
     | Inr names \<Rightarrow> sweep_files (\<lambda>digest. do {
           r \<leftarrow> db_read E (\<lambda>db. object_ref db digest);
           case r of
             Inl _ \<Rightarrow> return (Inl ''journal'')
           | Inr (Some _) \<Rightarrow> return (Inr False)
           | Inr None \<Rightarrow> fs_call E (remove_object_file digest) }) names 0 }"

text \<open>The collecting loop of \<open>run_gc\<close>: the bytes first, then the row.\<close>

definition collect_object :: "'s env \<Rightarrow> string \<Rightarrow> ('s, string + bool) act" where
  "collect_object E digest = do {
     removed \<leftarrow> remove E digest;
     case removed of
       Inl e \<Rightarrow> return (Inl e)
     | Inr _ \<Rightarrow> do {
         r \<leftarrow> db_write E (\<lambda>_ db. finalize_object_gc db digest);
         return (case r of Inl _ \<Rightarrow> Inl ''journal'' | Inr _ \<Rightarrow> Inr True) } }"

definition run_gc :: "'s env \<Rightarrow> ('s, string + nat \<times> nat) act" where
  "run_gc E = do {
     swept \<leftarrow> sweep_staging E;
     case swept of
       Inl e \<Rightarrow> return (Inl e)
     | Inr swept \<Rightarrow> do {
         digests \<leftarrow> db_read E collectable_objects;
         case digests of
           Inl _ \<Rightarrow> return (Inl ''journal'')
         | Inr digests \<Rightarrow> do {
             collected \<leftarrow> sweep_files (collect_object E) digests 0;
             return (case collected of Inl e \<Rightarrow> Inl e | Inr n \<Rightarrow> Inr (swept, n)) } } }"

definition run_startup_gc :: "'s env \<Rightarrow> ('s, string + nat \<times> nat \<times> nat) act" where
  "run_startup_gc E = do {
     untracked \<leftarrow> sweep_untracked_local E;
     case untracked of
       Inl e \<Rightarrow> return (Inl e)
     | Inr untracked \<Rightarrow> do {
         r \<leftarrow> run_gc E;
         return (case r of Inl e \<Rightarrow> Inl e | Inr (staging, collectable) \<Rightarrow> Inr (staging, untracked, collectable)) } }"

section \<open>What the journal sees of it\<close>

lemma keeps_remove_staged [keep_rules]: "rely I E \<Longrightarrow> keeps (on_db I) (remove_staged E file)"
  unfolding remove_staged_def by (intro keep_rules) auto

lemma keeps_stage [keep_rules]: "rely I E \<Longrightarrow> keeps (on_db I) (stage E bytes)"
  unfolding stage_def by (intro keep_rules) auto

lemma keeps_commit [keep_rules]: "rely I E \<Longrightarrow> keeps (on_db I) (commit E staged digest len)"
  unfolding commit_def by (intro keep_rules) (auto simp: rename_staged_def split: option.splits)

lemma keeps_fetch_remote [keep_rules]: "rely I E \<Longrightarrow> keeps (on_db I) (fetch_remote_verified E digest)"
  unfolding fetch_remote_verified_def by (intro keep_rules)

lemma keeps_fetch [keep_rules]: "rely I E \<Longrightarrow> keeps (on_db I) (fetch E digest)"
  unfolding fetch_def read_verified_def
  by (intro keep_rules) (auto simp: open_object_def split: if_splits)

lemma keeps_commit_remote [keep_rules]: "rely I E \<Longrightarrow> keeps (on_db I) (commit_remote E staged digest len)"
  unfolding commit_remote_def upload_def read_back_def remote_contains_def
  by (intro keep_rules) (auto simp: read_staged_def split: option.splits)

section \<open>Only verified bytes\<close>

lemma yields_read_verified:
  "yields (read_verified E d) (\<lambda>r. \<forall>b. r = Inr (Some b) \<longrightarrow> object_digest (en_sha E) b = d)"
  unfolding read_verified_def
  by (intro yields_any yields_return) (auto split: sum.splits option.splits if_splits)

lemma yields_get: "yields (await E (ob_get R p)) (\<lambda>got. \<exists>x y. ob_get R p x = (got, y))"
  by (rule yields_await) (metis prod.collapse)

text \<open>What the bucket has served as \<open>d\<close>.\<close>

definition served :: "'s env \<Rightarrow> string \<Rightarrow> string \<Rightarrow> bool" where
  "served E d b \<longleftrightarrow> (\<exists>R x y. en_remote E = Some R \<and> ob_get R (remote_path d) x = (Inr (Some b), y))"

lemma yields_fetch_remote:
  "yields (fetch_remote_verified E d)
     (\<lambda>r. \<forall>b. r = Inr (Some b) \<longrightarrow> object_digest (en_sha E) b = d \<and> served E d b)"
  unfolding fetch_remote_verified_def
  by (rule yields_case_option, simp add: yields_return, rule yields_bind [OF yields_get])
    (intro yield_rules yields_return, auto simp: served_def split: sum.splits)

lemma yields_fetch:
  "yields (fetch E d) (\<lambda>r. \<forall>b. r = Inr (Some b) \<longrightarrow> object_digest (en_sha E) b = d)"
  unfolding fetch_def
  by (rule yields_bind [OF yields_read_verified])
    (intro yield_rules yields_return yields_post [OF yields_fetch_remote], auto)

text \<open>
  C19: nothing unverified is served or called durable.  Whatever \<open>fetch\<close> returns
  hashes to the digest it was asked for, whether it was read from disk or from the
  bucket; and when \<open>commit_remote\<close> succeeds, the bucket has answered a read of that very
  object with bytes of the expected digest and length.
\<close>

theorem verified_bytes_only:
  "(run_state (fetch E d) w = (Inr (Some b), w') \<longrightarrow> object_digest (en_sha E) b = d)
   \<and> (run_state (commit_remote E st d n) w = (Inr (), w') \<longrightarrow>
        sg_digest st = d \<and> sg_length st = n
      \<and> (\<exists>R x b y. en_remote E = Some R \<and> ob_get R (remote_path d) x = (Inr (Some b), y)
           \<and> object_digest (en_sha E) b = d \<and> int (length b) = n))"
proof -
  have "yields (read_back E R d)
      (\<lambda>r. \<forall>b. r = Inr b \<longrightarrow> (\<exists>x y. ob_get R (remote_path d) x = (Inr (Some b), y)))" for R
    unfolding read_back_def
    by (rule yields_bind [OF yields_get], rule yields_return) (auto split: sum.splits option.splits)
  note reads = this
  have "yields (commit_remote E st d n) (\<lambda>r. r = Inr () \<longrightarrow> sg_digest st = d \<and> sg_length st = n
      \<and> (\<exists>R x b y. en_remote E = Some R \<and> ob_get R (remote_path d) x = (Inr (Some b), y)
           \<and> object_digest (en_sha E) b = d \<and> int (length b) = n))"
    unfolding commit_remote_def
    by (rule yields_case_option, simp add: yields_return, (rule yields_if, simp add: yields_any yields_return)+,
        rule yields_any, rule yields_case_sum, simp add: yields_return, rule yields_bind [OF reads])
      (intro yield_rules yields_return, auto)
  with yields_fetch [of E d] show ?thesis by (auto dest: yieldsD)
qed

theorem verified_bytes_only_witness:
  "let w = (sample_world empty_journal ())\<lparr>w_objects := [(''sha256:61'', ''a'')]\<rparr>
   in run_state (fetch sample_env ''sha256:61'') w = (Inr (Some ''a''), w)
    \<and> object_digest (en_sha (sample_env :: unit env)) ''a'' = ''sha256:61''"
proof -
  let ?w = "(sample_world empty_journal ())\<lparr>w_objects := [(''sha256:61'', ''a'')]\<rparr>"
  have "run_state (fetch sample_env ''sha256:61'') ?w = (Inr (Some ''a''), ?w)"
    by (simp add: fetch_def read_verified_def open_object_def is_path_safe_digest_def fs_call_def
        action_defs sample_env_def sample_world_def object_digest_def to_lower_def HEX_def)
  with verified_bytes_only [of sample_env "''sha256:61''" ?w "''a''" ?w] show ?thesis
    by (simp only: Let_def)
qed

section \<open>Every name is its content's\<close>

definition addressed :: "(string \<Rightarrow> string) \<Rightarrow> 's world \<Rightarrow> bool" where
  "addressed sha w \<longleftrightarrow> (\<forall>d b. map_of (w_objects w) d = Some b \<longrightarrow> object_digest sha b = d)"

text \<open>A staged file holds what was staged, or has been swept.\<close>

definition staged_as :: "(string \<Rightarrow> string) \<Rightarrow> Staged \<Rightarrow> 's world \<Rightarrow> bool" where
  "staged_as sha st w \<longleftrightarrow> addressed sha w
     \<and> (\<forall>b. map_of (w_staging w) (sg_path st) = Some b \<longrightarrow> object_digest sha b = sg_digest st)"

lemmas file_simps = AList.update_conv' AList.delete_conv'

lemma addressed_delete: "addressed sha w \<Longrightarrow> addressed sha (w\<lparr>w_objects := AList.delete d (w_objects w)\<rparr>)"
  by (auto simp: addressed_def file_simps split: if_splits)

lemma staged_addressed: "staged_as sha st w \<Longrightarrow> addressed sha w"
  by (simp add: staged_as_def)

lemma triple_stage:
  assumes "undisturbed (addressed (en_sha E)) E"
  shows "triple (addressed (en_sha E)) (stage E b)
           (\<lambda>r w. case r of Inl e \<Rightarrow> addressed (en_sha E) w | Inr st \<Rightarrow> staged_as (en_sha E) st w)"
  unfolding stage_def Let_def
  by (rule triple_bind, rule stable_extern [OF assms, unfolded keeps_def], rule stable_fs_call [OF assms])
    (auto simp: staged_as_def addressed_def file_simps)

lemma keeps_staged_remove:
  assumes "undisturbed (staged_as (en_sha E) st) E"
  shows "keeps (staged_as (en_sha E) st) (remove_staged E (sg_path st))"
  unfolding remove_staged_def
  by (intro keep_rules stable_keeps_fs_call assms) (auto simp: staged_as_def addressed_def file_simps)

lemma keeps_staged_commit:
  assumes "undisturbed (staged_as (en_sha E) st) E"
  shows "keeps (staged_as (en_sha E) st) (commit E st d n)"
proof (cases "sg_digest st = d")
  case True
  have "keeps (staged_as (en_sha E) st) (fs_call E (rename_staged (sg_path st) d))"
    using True
    by (intro stable_keeps_fs_call assms)
      (auto simp: rename_staged_def staged_as_def addressed_def file_simps split: option.splits if_splits)
  thus ?thesis unfolding commit_def
    by (intro keep_rules keeps_staged_remove assms stable_others [OF assms])
next
  case False
  thus ?thesis unfolding commit_def by (simp add: keep_rules keeps_staged_remove assms)
qed

lemma keeps_triple: "keeps P m \<Longrightarrow> (\<And>w. P w \<Longrightarrow> Q w) \<Longrightarrow> triple P m (\<lambda>_. Q)"
  unfolding keeps_def by (rule triple_post)

lemma keeps_published:
  assumes "undisturbed (addressed (en_sha E)) E" and "\<And>st. undisturbed (staged_as (en_sha E) st) E"
    and "\<And>e. keeps (addressed (en_sha E)) (f e)" and "\<And>r. keeps (addressed (en_sha E)) (g r)"
  shows "keeps (addressed (en_sha E))
           (do { st \<leftarrow> stage E b; case st of Inl e \<Rightarrow> f e | Inr st \<Rightarrow> do { r \<leftarrow> commit E st d n; g r } })"
  unfolding keeps_def
  by (rule triple_bind [OF triple_stage [OF assms(1)]])
    (auto split: sum.split intro!: triple_bind [OF keeps_triple [OF keeps_staged_commit [OF assms(2)] staged_addressed]]
      assms(3,4) [unfolded keeps_def])

lemma keeps_addressed_fs:
  assumes "undisturbed (addressed sha) E" and "\<And>w a w'. f w = Inr (a, w') \<Longrightarrow> w_objects w' = w_objects w"
  shows "keeps (addressed sha) (fs_call E f)"
  using assms(2) by (intro stable_keeps_fs_call assms(1)) (metis addressed_def)

lemma keeps_sweep_files:
  "(\<And>x. keeps P (f x)) \<Longrightarrow> keeps P (sweep_files f xs n)"
  by (induction xs arbitrary: n) (auto intro!: keep_rules)

lemma keeps_addressed_gc:
  assumes "undisturbed (addressed sha) E"
  shows "keeps (addressed sha) (run_gc E)"
proof -
  have "keeps (addressed sha) (collect_object E d)" for d
    unfolding collect_object_def remove_def db_write_def
    by (intro keep_rules stable_db_call stable_keeps_fs_call assms)
      (auto simp: addressed_def file_simps split: if_splits)
  moreover have "keeps (addressed sha) (sweep_staging E)"
    unfolding sweep_staging_def
    by (intro keep_rules keeps_sweep_files keeps_addressed_fs assms)
      (auto simp: remove_staging_file_def split: if_splits)
  ultimately show ?thesis
    unfolding run_gc_def db_read_def
    by (intro keep_rules keeps_sweep_files stable_db_call assms) (auto simp: addressed_def)
qed

text \<open>
  A name in the object store is the digest of the bytes under it.  Reading through
  \<open>fetch\<close>, which may download and publish, staging and committing, and collecting
  garbage keep this, as long as the other tasks do: they leave named objects correct and
  never write other bytes into a file this task has staged, though they may sweep it.
\<close>

theorem names_are_digests:
  assumes "undisturbed (addressed (en_sha E)) E"
    and "\<forall>st. undisturbed (staged_as (en_sha E) st) E"
    and "addressed (en_sha E) w"
  shows "addressed (en_sha E) (snd (run_state (fetch E d) w))
       \<and> addressed (en_sha E) (snd (run_state
            (do { st \<leftarrow> stage E b; case st of Inl e \<Rightarrow> return (Inl e) | Inr st \<Rightarrow> commit E st d n }) w))
       \<and> addressed (en_sha E) (snd (run_state (run_gc E) w))"
proof -
  let ?P = "addressed (en_sha E)"
  note ud = assms(1) and st = assms(2) [THEN spec]
  have "keeps ?P (fetch E d)"
    unfolding fetch_def read_verified_def fetch_remote_verified_def
    by (intro keep_rules keeps_published keeps_addressed_fs stable_await [OF ud] ud st)
      (auto simp: open_object_def split: if_splits)
  moreover have "keeps ?P (do { st \<leftarrow> stage E b; case st of Inl e \<Rightarrow> return (Inl e) | Inr st \<Rightarrow> commit E st d n })"
    using keeps_published [OF ud st, of "\<lambda>e. return (Inl e)" return] by (simp add: keep_rules)
  moreover have "keeps ?P (run_gc E)" by (rule keeps_addressed_gc [OF ud])
  ultimately show ?thesis using assms(3) keepsD [of ?P] by (metis prod.collapse)
qed

lemma sample_undisturbed:
  "undisturbed (addressed sha) sample_env" "undisturbed (staged_as sha st) sample_env"
  by (simp_all add: undisturbed_def sample_env_def addressed_def staged_as_def)

theorem names_are_digests_witness:
  "addressed (\<lambda>b. b) (snd (run_state (fetch sample_env ''sha256:61'')
     ((sample_world empty_journal ())\<lparr>w_objects := [(''sha256:61'', ''a'')]\<rparr>)))"
proof -
  let ?w = "(sample_world empty_journal ())\<lparr>w_objects := [(''sha256:61'', ''a'')]\<rparr>"
  have sha: "en_sha (sample_env :: unit env) = (\<lambda>b. b)" by (simp add: sample_env_def)
  have "addressed (\<lambda>b. b) ?w"
    by (simp add: addressed_def object_digest_def to_lower_def HEX_def)
  thus ?thesis
    using names_are_digests [of sample_env ?w "''sha256:61''", unfolded sha] by (simp add: sample_undisturbed)
qed

section \<open>Garbage collection against the reference counts\<close>

definition referenced :: "string \<Rightarrow> 's world \<Rightarrow> bool" where
  "referenced d w \<longleftrightarrow> map_of (w_objects w) d \<noteq> None \<and> unique_keys rc_digest (j_object_refs (w_db w))
     \<and> 0 < counted (j_object_refs (w_db w)) d"

lemma counted_not_collectable:
  assumes "unique_keys rc_digest (j_object_refs db)" and "0 < counted (j_object_refs db) d"
  shows "d \<notin> set (collectable_objects db)"
proof
  assume "d \<in> set (collectable_objects db)"
  then obtain r where r: "r \<in> set (j_object_refs db)" "rc_digest r = d" "rc_refcount r \<le> 0"
    by (auto simp: collectable_objects_def)
  hence "row_with rc_digest d (j_object_refs db) = Some r"
    using assms(1) by (simp add: row_with_set)
  thus False using r(3) assms(2) by (simp add: counted_def)
qed

lemma counted_finalize_positive:
  "0 < counted t d \<Longrightarrow> counted (sql_delete (\<lambda>r. rc_digest r = x \<and> rc_refcount r \<le> 0 \<and> rc_gc_pending r) t) d = counted t d"
  by (induction t) (auto simp: counted_def sql_delete_def split: if_splits)

lemma triple_False [simp]: "triple (\<lambda>w. False) m Q"
  by (simp add: triple_def)



definition sample_racer :: "nat env" where
  "sample_racer = sample_env\<lparr>en_others :=
     (\<lambda>w. if w_ext w = 2 then w\<lparr>w_ext := 3, w_db := snd (register_capsule (w_db w) sample_capsule)\<rparr>
          else w\<lparr>w_ext := Suc (w_ext w)\<rparr>)\<rparr>"

definition sample_collectable :: "nat world" where
  "sample_collectable =
     (sample_world (delete_capsule (snd (register_capsule empty_journal sample_capsule)) ''c1'') 0)
       \<lparr>w_objects := [(''a'', ''x'')]\<rparr>"

lemmas gc_run_simps = run_gc_def sweep_staging_def collect_object_def remove_def fs_call_def action_defs
  is_path_safe_digest_def

lemma collected_while_referenced:
  "let w = snd (run_state (run_gc sample_racer) sample_collectable)
   in get_capsule (w_db w) ''c1'' \<noteq> None \<and> counted (j_object_refs (w_db w)) ''a'' = 2
    \<and> map_of (w_objects w) ''a'' = None"
  by (simp add: gc_run_simps sample_racer_def sample_env_def sample_collectable_def sample_world_def
      collectable_objects_def finalize_object_gc_def get_capsule_def counted_def
      delete_capsule_def register_capsule_def sample_capsule_def sample_manifest_def
      empty_journal_def take_reference_def drop_reference_def has_key_def sql_delete_def)

lemma swept_while_staged:
  "fst (run_state (do {
         st \<leftarrow> stage sample_env ''a'';
         _ \<leftarrow> run_gc sample_env;
         case st of Inl e \<Rightarrow> return (Inl e) | Inr st \<Rightarrow> commit sample_env st ''sha256:61'' 1 })
       (sample_world empty_journal ())) = Inl ''publish object sha256:61''"
  by (simp add: gc_run_simps sample_env_def sample_world_def stage_def commit_def rename_staged_def
      remove_staging_file_def collectable_objects_def empty_journal_def object_digest_def to_lower_def HEX_def
      Let_def AList.delete_eq)

text \<open>
  A collection races with uploads and imports.  When another task registers a
  capsule after the collection has listed an object and before it removes it, the bytes
  are deleted although the count is positive again; the row survives, because only the
  row is re-checked, so the journal keeps a live reference to an object that is gone.  And
  a collection that runs while an upload is staged sweeps its file, so that the commit
  of a sound upload fails.
\<close>

theorem gc_races_with_uploads:
  "(let w = snd (run_state (run_gc sample_racer) sample_collectable)
    in get_capsule (w_db w) ''c1'' \<noteq> None \<and> counted (j_object_refs (w_db w)) ''a'' = 2
     \<and> map_of (w_objects w) ''a'' = None)
   \<and> fst (run_state (do {
         st \<leftarrow> stage sample_env ''a'';
         _ \<leftarrow> run_gc sample_env;
         case st of Inl e \<Rightarrow> return (Inl e) | Inr st \<Rightarrow> commit sample_env st ''sha256:61'' 1 })
       (sample_world empty_journal ())) = Inl ''publish object sha256:61''"
  using collected_while_referenced swept_while_staged by blast

end
