(* ===== verification/Op_Submit.thy ===== *)
theory Op_Submit
  imports Agent_World
begin

text \<open>
  \<open>ops.rs\<close>, the submit path: what a caller is refused before anything is journaled, the
  one transaction a submission is, the check that a repeated key repeats its request,
  and the executor that is spawned for an accepted one.
\<close>

section \<open>Errors and outcomes\<close>

record SubmitError =
  se_reason :: error_reason
  se_message :: notice

definition submit_err :: "error_reason \<Rightarrow> string \<Rightarrow> arg list \<Rightarrow> SubmitError" where
  "submit_err reason words args = \<lparr>se_reason = reason, se_message = Notice words args\<rparr>"

definition internal :: "db_error \<Rightarrow> SubmitError" where
  "internal e = submit_err ER_Unspecified ''internal'' [A_Db e]"

datatype Claimed = Submitted OperationRow | Superseded

section \<open>Helpers\<close>

definition resolve_restore ::
  "'s env \<Rightarrow> instance_id \<Rightarrow> snapshot_id option \<Rightarrow> bool \<Rightarrow> ('s, InstanceRow option \<times> Restore) act" where
  "resolve_restore E iid snapshot_id require_memory = do {
     snapshot \<leftarrow>
       (case snapshot_id of
          Some sid \<Rightarrow> do { r \<leftarrow> db_read E (\<lambda>db. get_snapshot db sid); return (found r) }
        | None \<Rightarrow> do {
            row \<leftarrow> db_read E (\<lambda>db. get_instance db iid);
            case found row of
              None \<Rightarrow> return None
            | Some row \<Rightarrow>
                if ir_latest_snapshot_id row = [] then return None
                else do { r \<leftarrow> db_read E (\<lambda>db. get_snapshot db (ir_latest_snapshot_id row)); return (found r) } });
     row \<leftarrow> db_read E (\<lambda>db. get_instance db iid);
     return (found row,
       case found row of
         Some row \<Rightarrow> decide (en_sha E) snapshot row (en_cpu_class E) (rt_version (en_runtime E)) require_memory
       | None \<Rightarrow> Refuse ER_Unspecified (NotInJournal iid)) }"

text \<open>\<open>{b:02x}\<close> of each byte is what \<open>to_lower\<close> writes.\<close>

definition new_guest_token :: "'s env \<Rightarrow> ('s, SubmitError + string) act" where
  "new_guest_token E = do {
     r \<leftarrow> extern (en_random E);
     return (case r of
               Inl e \<Rightarrow> Inl (submit_err ER_Unspecified ''internal: reading /dev/urandom'' [A_Text e])
             | Inr bytes \<Rightarrow> Inr (to_lower bytes)) }"

fun create_spec_of :: "OpPayload \<Rightarrow> instance_spec option" where
  "create_spec_of (P_Create spec) = Some spec"
| "create_spec_of (P_Fork spec _ _ _ _ _ _) = Some spec"
| "create_spec_of (P_RestoreCapsule spec _ _ _) = Some spec"
| "create_spec_of _ = None"

fun lineage_of :: "OpPayload \<Rightarrow> lineage option" where
  "lineage_of (P_Fork _ _ _ lin _ _ _) = Some lin"
| "lineage_of (P_RestoreCapsule _ _ _ lin) = Some lin"
| "lineage_of _ = None"

fun guest_token_for :: "'s env \<Rightarrow> OpPayload \<Rightarrow> ('s, SubmitError + string) act" where
  "guest_token_for E (P_Fork _ _ _ _ _ token _) = return (Inr token)"
| "guest_token_for E (P_Create _) = new_guest_token E"
| "guest_token_for E (P_RestoreCapsule _ _ _ _) = new_guest_token E"
| "guest_token_for E _ = return (Inr [])"

fun fork_identity_of :: "OpPayload \<Rightarrow> identity option" where
  "fork_identity_of (P_Fork _ _ _ _ _ _ idn) = idn"
| "fork_identity_of _ = None"

definition mint_identity :: "'s env \<Rightarrow> 's \<Rightarrow> OpPayload \<Rightarrow> instance_id \<Rightarrow> string + identity option" where
  "mint_identity E x payload iid =
     (case fork_identity_of payload of
        Some idn \<Rightarrow> Inr (Some idn)
      | None \<Rightarrow> if rt_network_reachable (en_runtime E)
                then (case en_mint E x iid of Inl e \<Rightarrow> Inl e | Inr idn \<Rightarrow> Inr (Some idn))
                else Inr None)"

text \<open>The two refusals that are decided before the transaction.\<close>

definition preflight :: "'s env \<Rightarrow> instance_id \<Rightarrow> OpPayload \<Rightarrow> ('s, SubmitError option) act" where
  "preflight E iid payload =
     (case payload of
        P_Resume snapshot_id require_memory \<Rightarrow>
          if require_memory then do {
            decision \<leftarrow> resolve_restore E iid snapshot_id True;
            return (case decision of
                      (Some _, Refuse reason why) \<Rightarrow>
                        Some (submit_err reason ''require_memory was set, so this resume was refused'' [A_Restore why])
                    | _ \<Rightarrow> None) }
          else return None
      | P_CreateSnapshot (Some name) \<Rightarrow> do {
          r \<leftarrow> db_read E (\<lambda>db. snapshot_named db iid name);
          return (case found r of
                    Some existing \<Rightarrow>
                      Some (submit_err ER_SnapshotNameConflict ''already has a snapshot named''
                              [A_Text iid, A_Text name, A_Text (sr_snapshot_id existing)])
                  | None \<Rightarrow> None) }
      | _ \<Rightarrow> return None)"

text \<open>What a repeated key is answered with.\<close>

definition replay_outcome ::
  "'s env \<Rightarrow> instance_id \<Rightarrow> OpPayload \<Rightarrow> OperationRow \<Rightarrow> OperationRow \<Rightarrow> ('s, SubmitError + Claimed) act" where
  "replay_outcome E iid payload op original =
     (if or_kind original \<noteq> or_kind op \<or> or_instance_id original \<noteq> or_instance_id op
         \<or> or_payload original \<noteq> or_payload op
      then return (Inl (submit_err ER_InvalidSpec ''idempotency_key was already used for''
             [A_Text (describe (or_kind original) (or_payload original)), A_Text (or_instance_id original),
              A_Text (describe (or_kind op) (or_payload op)), A_Text (or_instance_id op)]))
      else (case payload of
              P_Create spec \<Rightarrow> do {
                r \<leftarrow> db_read E (\<lambda>db. get_instance db iid);
                return (case r of
                          Inl e \<Rightarrow> Inl (internal e)
                        | Inr (Some row) \<Rightarrow>
                            if ir_spec row \<noteq> spec
                            then Inl (submit_err ER_InvalidSpec
                                   ''idempotency_key was already used to create with a different spec'' [A_Text iid])
                            else Inr (Submitted original)
                        | Inr None \<Rightarrow> Inr (Submitted original)) }
            | _ \<Rightarrow> return (Inr (Submitted original))))"

section \<open>Submission\<close>

definition new_operation :: "op_id \<Rightarrow> OpKind \<Rightarrow> instance_id \<Rightarrow> OpPayload \<Rightarrow> ms \<Rightarrow> OperationRow" where
  "new_operation oid kind iid payload now =
     \<lparr>or_op_id = oid, or_kind = as_str kind, or_instance_id = iid, or_payload = payload_descriptor payload,
      or_state = Op_Queued, or_current_step = [], or_error_reason = ER_Unspecified, or_error_message = [],
      or_degraded = [], or_created_at_ms = now, or_finished_at_ms = None, or_froze_workload = False,
      or_actual_fork_mode = FM_Unspecified\<rparr>"

text \<open>The trigger's event, the transitional state if the instance moved, and the executor.\<close>

definition accept ::
  "'s env \<Rightarrow> OpKind \<Rightarrow> instance_id \<Rightarrow> OpPayload \<Rightarrow> (op_id \<Rightarrow> ('s, unit) act) \<Rightarrow> OperationRow \<Rightarrow> instance_state
   \<Rightarrow> ('s, SubmitError + Claimed) act" where
  "accept E kind iid payload announce op recorded = do {
     announce (or_op_id op);
     (if recorded = fst (states kind)
      then record_event E (state_changed iid (or_op_id op) recorded None) else return ());
     modify (w_tasks_update (\<lambda>tks. tks @ [\<lparr>tk_kind = kind, tk_op = op, tk_payload = payload, tk_recorded = recorded\<rparr>]));
     return (Inr (Submitted op)) }"

text \<open>What each outcome of the transaction is answered with.\<close>

definition settle_submission ::
  "'s env \<Rightarrow> OpKind \<Rightarrow> instance_id \<Rightarrow> OpPayload \<Rightarrow> (op_id \<Rightarrow> ('s, unit) act) \<Rightarrow> OperationRow \<Rightarrow> db_error + submission
   \<Rightarrow> ('s, SubmitError + Claimed) act" where
  "settle_submission E kind iid payload announce op outcome =
     (case outcome of
        Inl e \<Rightarrow> return (Inl (internal e))
      | Inr (Replay original) \<Rightarrow> replay_outcome E iid payload op original
      | Inr Conflict \<Rightarrow> return (Inl (submit_err ER_ConcurrentOperation
            ''an operation is already in flight for'' [A_Text iid]))
      | Inr (Rejected why) \<Rightarrow> return (Inl (submit_err ER_InvalidSpec ''rejected'' [A_Rejection why]))
      | Inr ClaimSuperseded \<Rightarrow> return (Inr Superseded)
      | Inr (Journaled recorded) \<Rightarrow> accept E kind iid payload announce op recorded)"

definition submit_claiming ::
  "'s env \<Rightarrow> OpKind \<Rightarrow> instance_id \<Rightarrow> idempotency_key \<Rightarrow> OpPayload \<Rightarrow> claim option \<Rightarrow> (op_id \<Rightarrow> ('s, unit) act)
   \<Rightarrow> ('s, SubmitError + Claimed) act" where
  "submit_claiming E kind iid key payload claim announce =
     (if key = [] then return (Inl (submit_err ER_InvalidSpec ''idempotency_key is required'' []))
      else do {
        token \<leftarrow> guest_token_for E payload;
        case token of
          Inl e \<Rightarrow> return (Inl e)
        | Inr token \<Rightarrow> do {
            oid \<leftarrow> extern (en_ulid E);
            created \<leftarrow> now_ms E;
            let op = new_operation oid kind iid payload created;
            refusal \<leftarrow> preflight E iid payload;
            case refusal of
              Some e \<Rightarrow> return (Inl e)
            | None \<Rightarrow> do {
                x \<leftarrow> gets w_ext;
                claimed \<leftarrow> now_ms E;
                outcome \<leftarrow> db_call E (\<lambda>now db.
                  submit_atomically db op key (fst (states kind)) (create_spec_of payload) (rt_name (en_runtime E))
                    token (mint_identity E x payload) claim (lineage_of payload)
                    (plan_transition kind (fst (states kind))) claimed now);
                settle_submission E kind iid payload announce op outcome } } })"

definition submit ::
  "'s env \<Rightarrow> OpKind \<Rightarrow> instance_id \<Rightarrow> idempotency_key \<Rightarrow> OpPayload \<Rightarrow> ('s, SubmitError + OperationRow) act" where
  "submit E kind iid key payload = do {
     r \<leftarrow> submit_claiming E kind iid key payload None (\<lambda>_. return ());
     return (case r of
               Inr (Submitted op) \<Rightarrow> Inr op
             | Inr Superseded \<Rightarrow>
                 Inl (submit_err ER_ConcurrentOperation ''a claimless submission cannot be superseded'' [])
             | Inl e \<Rightarrow> Inl e) }"

section \<open>Shape of a submission\<close>

text \<open>A condition on the journal and the spawned executors.\<close>

definition at_rest :: "(journal \<Rightarrow> bool) \<Rightarrow> task list \<Rightarrow> 's world \<Rightarrow> bool" where
  "at_rest I tks w \<longleftrightarrow> I (w_db w) \<and> w_tasks w = tks"

definition spawns_nothing :: "'s env \<Rightarrow> bool" where
  "spawns_nothing E \<longleftrightarrow> (\<forall>w. w_tasks (en_others E w) = w_tasks w)"

lemma undisturbed_at_rest: "rely I E \<Longrightarrow> spawns_nothing E \<Longrightarrow> undisturbed (at_rest I tks) E"
  by (simp add: undisturbed_def at_rest_def rely_def spawns_nothing_def)

lemma keeps_rest_read:
  "undisturbed P E \<Longrightarrow> keeps P (db_read E f)"
  unfolding db_read_def by (rule stable_db_call) auto

lemma keeps_resolve_restore:
  assumes "undisturbed P E"
  shows "keeps P (resolve_restore E iid sid req)"
  unfolding resolve_restore_def by (intro keep_rules keeps_rest_read assms)

lemma keeps_preflight:
  assumes "undisturbed P E"
  shows "keeps P (preflight E iid payload)"
  unfolding preflight_def
  by (cases payload) (auto intro!: keep_rules keeps_rest_read keeps_resolve_restore assms)

lemma keeps_guest_token:
  assumes "undisturbed P E"
  shows "keeps P (guest_token_for E payload)"
  by (cases payload) (auto simp: new_guest_token_def intro!: keep_rules stable_extern [OF assms])

lemma keeps_replay_outcome:
  assumes "undisturbed P E"
  shows "keeps P (replay_outcome E iid payload op original)"
  unfolding replay_outcome_def
  by (cases payload) (auto intro!: keep_rules keeps_rest_read assms)

lemma yields_replay_outcome:
  "yields (replay_outcome E iid payload op original)
     (\<lambda>r. \<forall>o'. r = Inr (Submitted o') \<longrightarrow> o' = original \<and> or_kind o' = or_kind op
        \<and> or_instance_id o' = or_instance_id op \<and> or_payload o' = or_payload op)"
  unfolding replay_outcome_def
  by (cases payload) (auto intro!: yield_rules yields_return split: sum.splits option.splits if_splits)

text \<open>Everything the answer of a submission can be, when it is not accepted anew.\<close>

definition repeats :: "OpKind \<Rightarrow> instance_id \<Rightarrow> OpPayload \<Rightarrow> OperationRow \<Rightarrow> bool" where
  "repeats kind iid payload op \<longleftrightarrow>
     or_kind op = as_str kind \<and> or_instance_id op = iid \<and> or_payload op = payload_descriptor payload"

lemma new_operation_simps [simp]:
  "or_kind (new_operation oid kind iid payload now) = as_str kind"
  "or_instance_id (new_operation oid kind iid payload now) = iid"
  "or_payload (new_operation oid kind iid payload now) = payload_descriptor payload"
  "or_op_id (new_operation oid kind iid payload now) = oid"
  "or_state (new_operation oid kind iid payload now) = Op_Queued"
  by (simp_all add: new_operation_def)

text \<open>The two ways a submission ends, as postconditions.\<close>

definition answered ::
  "(journal \<Rightarrow> bool) \<Rightarrow> task list \<Rightarrow> OpKind \<Rightarrow> instance_id \<Rightarrow> OpPayload \<Rightarrow> SubmitError + Claimed \<Rightarrow> 's world \<Rightarrow> bool" where
  "answered I tks kind iid payload r w \<longleftrightarrow>
     (I (w_db w) \<and> w_tasks w = tks \<and> (\<forall>op. r = Inr (Submitted op) \<longrightarrow> repeats kind iid payload op))
   \<or> (\<exists>op recorded. r = Inr (Submitted op) \<and> or_state op = Op_Queued \<and> repeats kind iid payload op
        \<and> w_tasks w = tks @ [\<lparr>tk_kind = kind, tk_op = op, tk_payload = payload, tk_recorded = recorded\<rparr>])"

lemma triple_case_sum:
  "(\<And>a. x = Inl a \<Longrightarrow> triple P (f a) Q) \<Longrightarrow> (\<And>a. x = Inr a \<Longrightarrow> triple P (g a) Q) \<Longrightarrow> triple P (case x of Inl a \<Rightarrow> f a | Inr a \<Rightarrow> g a) Q"
  by (cases x) simp_all

lemma triple_case_option:
  "(x = None \<Longrightarrow> triple P m Q) \<Longrightarrow> (\<And>a. x = Some a \<Longrightarrow> triple P (f a) Q) \<Longrightarrow> triple P (case x of None \<Rightarrow> m | Some a \<Rightarrow> f a) Q"
  by (cases x) simp_all

lemma answered_quiet:
  assumes "keeps (at_rest I tks) m"
    and "yields m (\<lambda>r. \<forall>op. r = Inr (Submitted op) \<longrightarrow> repeats kind iid payload op)"
  shows "triple (at_rest I tks) m (answered I tks kind iid payload)"
proof (rule tripleI)
  fix w r w' assume w: "at_rest I tks w" and run: "run_state m w = (r, w')"
  have "at_rest I tks w'" by (rule keepsD [OF assms(1) w run])
  moreover have "\<forall>op. r = Inr (Submitted op) \<longrightarrow> repeats kind iid payload op"
    by (rule yieldsD [OF assms(2) run])
  ultimately show "answered I tks kind iid payload r w'"
    unfolding answered_def at_rest_def by blast
qed

lemma answered_error: "triple (at_rest I tks) (return (Inl e)) (answered I tks kind iid payload)"
  by (rule answered_quiet) (simp_all add: keeps_return yields_return)

lemma answered_accept:
  assumes "spawns_nothing E" and "\<forall>oid. keeps (\<lambda>w. w_tasks w = tks) (announce oid)"
  shows "triple (\<lambda>w. w_tasks w = tks)
           (accept E kind iid payload announce (new_operation oid kind iid payload now) recorded)
           (answered I tks kind iid payload)"
proof -
  have ud: "undisturbed (\<lambda>w. w_tasks w = tks) E"
    using assms(1) by (simp add: undisturbed_def spawns_nothing_def)
  have ev: "keeps (\<lambda>w. w_tasks w = tks) (record_event E ev)" for ev
    unfolding record_event_def by (intro keep_rules stable_db_call ud) simp
  have "triple (\<lambda>w. w_tasks w = tks) (do {
      modify (w_tasks_update (\<lambda>ts. ts @ [\<lparr>tk_kind = kind, tk_op = new_operation oid kind iid payload now,
        tk_payload = payload, tk_recorded = recorded\<rparr>]));
      return (Inr (Submitted (new_operation oid kind iid payload now))) }) (answered I tks kind iid payload)"
    by (rule tripleI) (auto simp: modify_def answered_def repeats_def)
  thus ?thesis unfolding accept_def
    by (intro triple_bind [OF assms(2) [rule_format, unfolded keeps_def]]
        triple_bind [OF keeps_if [OF ev keeps_return, unfolded keeps_def]])
qed

text \<open>After the transaction: the world is at rest unless the operation was journaled.\<close>

definition committed :: "(journal \<Rightarrow> bool) \<Rightarrow> task list \<Rightarrow> db_error + submission \<Rightarrow> 's world \<Rightarrow> bool" where
  "committed I tks r w \<longleftrightarrow> w_tasks w = tks \<and> (I (w_db w) \<or> (\<exists>recorded. r = Inr (Journaled recorded)))"

lemma triple_committed:
  assumes "undisturbed (at_rest I tks) E"
  shows "triple (at_rest I tks) (db_call E (\<lambda>now db. submit_atomically db op key tr sp rt tok mint claim lin plan nc now))
           (committed I tks)"
proof (rule triple_db_call [OF assms])
  fix now w a db
  assume "at_rest I tks w"
    "submit_atomically (w_db w) op key tr sp rt tok mint claim lin plan nc now = Inr (a, db)"
  from this(2) this(1) show "committed I tks (Inr a) (w\<lparr>w_db := db\<rparr>)"
    by (cases rule: submit_atomically_Inr) (auto simp: committed_def at_rest_def)
qed (simp add: committed_def at_rest_def)

lemma submit_answered:
  assumes "rely I E" and "spawns_nothing E" and "\<forall>oid. keeps (\<lambda>w. w_tasks w = tks) (announce oid)"
  shows "triple (at_rest I tks) (submit_claiming E kind iid key payload claim announce)
           (answered I tks kind iid payload)"
proof -
  note ud = undisturbed_at_rest [OF assms(1,2), of tks]
  have rest: "triple (committed I tks out) m Q" if "triple (at_rest I tks) m Q" "\<And>rec. out \<noteq> Inr (Journaled rec)" for out m Q
    using that(1) by (rule triple_pre) (use that(2) in \<open>auto simp: committed_def at_rest_def\<close>)
  have finish: "triple (committed I tks out)
      (settle_submission E kind iid payload announce (new_operation oid kind iid payload created) out)
      (answered I tks kind iid payload)" for out oid created
  proof (cases out)
    case (Inr sub)
    show ?thesis
    proof (cases sub)
      case (Journaled recorded)
      show ?thesis unfolding settle_submission_def Inr Journaled sum.case submission.case
        by (rule triple_pre [OF answered_accept [OF assms(2,3)]]) (simp add: committed_def)
    next
      case (Replay original)
      have "yields (replay_outcome E iid payload (new_operation oid kind iid payload created) original)
              (\<lambda>r. \<forall>op. r = Inr (Submitted op) \<longrightarrow> repeats kind iid payload op)"
        using yields_replay_outcome [of E iid payload "new_operation oid kind iid payload created" original]
        by (simp add: yields_def repeats_def)
      thus ?thesis unfolding settle_submission_def Inr Replay sum.case submission.case
        by (intro rest answered_quiet keeps_replay_outcome ud) simp_all
    next
      case ClaimSuperseded
      show ?thesis unfolding settle_submission_def Inr ClaimSuperseded sum.case submission.case
        by (intro rest answered_quiet keeps_return yields_return) simp_all
    qed (simp_all add: settle_submission_def Inr rest answered_error)
  qed (simp add: settle_submission_def rest answered_error)
  have keeps_clock: "keeps (at_rest I tks) (now_ms E)"
    unfolding now_ms_def by (rule stable_extern [OF ud])
  have work: "triple (at_rest I tks) (do {
      x \<leftarrow> gets w_ext; claimed \<leftarrow> now_ms E; out \<leftarrow> db_call E (f x claimed); g out }) (answered I tks kind iid payload)"
    if "\<And>x c. triple (at_rest I tks) (db_call E (f x c)) (committed I tks)"
      "\<And>out. triple (committed I tks out) (g out) (answered I tks kind iid payload)" for f and g :: "db_error + submission \<Rightarrow> _"
    unfolding now_ms_def
    by (intro triple_bind [OF keeps_gets [unfolded keeps_def]]
        triple_bind [OF stable_extern [OF ud, unfolded keeps_def]] triple_bind [OF that(1)] that(2))
  show ?thesis
  proof (cases "key = []")
    case False
    show ?thesis unfolding submit_claiming_def Let_def if_not_P [OF False]
      by (rule triple_bind [OF keeps_guest_token [OF ud, unfolded keeps_def]], rule triple_case_sum, rule answered_error,
          rule triple_bind [OF stable_extern [OF ud, unfolded keeps_def]],
          rule triple_bind [OF keeps_clock [unfolded keeps_def]],
          rule triple_bind [OF keeps_preflight [OF ud, unfolded keeps_def]],
          rule triple_case_option, rule work, rule triple_committed [OF ud], rule finish, rule answered_error)
  qed (simp add: submit_claiming_def answered_error)
qed


lemmas submit_run_simps = submit_claiming_def settle_submission_def guest_token_for.simps new_guest_token_def new_operation_def
  preflight_def replay_outcome_def accept_def action_defs Let_def submit_atomically_def submit_recorded_def
  submit_writes_def insert_operation_def operation_insert_def get_operation_def has_inflight_op_def sql_changed_def
  has_key_def insert_event_def plan_transition_def can_transition_def TRANSITIONS_def get_instance_def
  operation_row_from_def mint_identity_def created_row_def

lemma sample_stop_accepted:
  "w_tasks (snd (run_state (submit_claiming sample_env K_Destroy ''i1'' ''k'' (P_Destroy True) None (\<lambda>_. return ()))
     (sample_world sample_journal ()))) \<noteq> []"
  by (simp add: submit_run_simps sample_env_def sample_runtime_def sample_world_def sample_simps sample_spec_def default_spec_def)


definition sample_lineage :: lineage where
  "sample_lineage = \<lparr>ln_lineage_id = ''l'', ln_source_snapshot_id = ''capsule:c'', ln_source_capsule_id = ''c'',
     ln_parent_instance_id = []\<rparr>"

text \<open>
  The target spec of a branch is not part of what its key binds.  A create with the
  key of an earlier create and another spec is refused; a capsule restore in the same
  position is answered with the first operation, although the comment on the descriptor
  says the target spec is compared in the instances table as a create's is.
\<close>

theorem restore_replay_ignores_spec:
  "let go = (\<lambda>payload kind w. run_state (submit_claiming sample_env kind ''i1'' ''k'' payload None (\<lambda>_. return ())) w);
       other = sample_spec\<lparr>sp_ttl_seconds := 60\<rparr>;
       w = sample_world empty_journal ();
       create = P_Create; restore = (\<lambda>sp. P_RestoreCapsule sp ''c'' ''capsule:c'' sample_lineage)
   in (\<exists>op. fst (go (restore sample_spec) K_Fork w) = Inr (Submitted op)
          \<and> fst (go (restore other) K_Fork (snd (go (restore sample_spec) K_Fork w))) = Inr (Submitted op))
    \<and> (\<exists>op. fst (go (create sample_spec) K_Create w) = Inr (Submitted op))
    \<and> map_sum se_reason id (fst (go (create other) K_Create (snd (go (create sample_spec) K_Create w)))) = Inl ER_InvalidSpec"
  by (simp add: submit_run_simps sample_env_def sample_runtime_def sample_world_def sample_lineage_def
      sample_spec_def default_spec_def empty_journal_def instance_row_from_def submit_err_def)

end
