(* ===== verification/Node_Invariant.thy ===== *)
theory Node_Invariant
  imports Op_Submit Object_Store
begin

text \<open>
  The invariant of a node's journal that every handler keeps: the keys of the schema,
  one executor per instance, and exact reference counts.  One lemma per statement of
  the journal; the handlers' lemmas are then instances of the rules for actions.
\<close>

definition node_ok :: "journal \<Rightarrow> bool" where
  "node_ok db \<longleftrightarrow> schema_ok db \<and> claims_ok (j_operations db) \<and> refs_ok db"

named_theorems node_intros

lemma node_ok_same:
  "node_ok db \<Longrightarrow> schema_ok db' \<Longrightarrow> j_operations db' = j_operations db \<Longrightarrow> j_object_refs db' = j_object_refs db
   \<Longrightarrow> j_capsules db' = j_capsules db \<Longrightarrow> node_ok db'"
  by (simp add: node_ok_def refs_ok_def)

lemma node_ok_ops:
  "node_ok db \<Longrightarrow> schema_ok db' \<Longrightarrow> claims_ok (j_operations db') \<Longrightarrow> j_object_refs db' = j_object_refs db
   \<Longrightarrow> j_capsules db' = j_capsules db \<Longrightarrow> node_ok db'"
  by (simp add: node_ok_def refs_ok_def)

lemma node_ok_schema: "node_ok db \<Longrightarrow> schema_ok db"
  and node_ok_claims: "node_ok db \<Longrightarrow> claims_ok (j_operations db)"
  and node_ok_refs: "node_ok db \<Longrightarrow> refs_ok db"
  by (simp_all add: node_ok_def)

lemma node_ok_empty: "node_ok empty_journal"
  by (simp add: node_ok_def refs_ok_empty) (simp add: empty_journal_def)

lemma schema_ok_events:
  "schema_ok db \<Longrightarrow> schema_ok (snd (insert_event db ev now))"
  "schema_ok db \<Longrightarrow> schema_ok (snd (prune_events db older chunk))"
  by (auto simp: schema_ok_def insert_event_def prune_events_def Let_def split: option.splits)

lemma node_ok_insert_event [node_intros]: "node_ok db \<Longrightarrow> node_ok (snd (insert_event db ev now))"
  by (rule node_ok_same, assumption, rule schema_ok_events(1), erule node_ok_schema)
    (simp_all add: insert_event_def Let_def)

lemma node_ok_prune_events [node_intros]: "node_ok db \<Longrightarrow> node_ok (snd (prune_events db older chunk))"
  by (rule node_ok_same, assumption, rule schema_ok_events(2), erule node_ok_schema)
    (simp_all add: prune_events_def Let_def split: option.splits)

lemma node_ok_set_instance_state [node_intros]: "node_ok db \<Longrightarrow> node_ok (set_instance_state db iid st now)"
  by (rule node_ok_same, assumption, rule schema_ok_set_instance_state, erule node_ok_schema)
    (simp_all add: set_instance_state_def Let_def)

lemma node_ok_issue_execution_epoch [node_intros]: "node_ok db \<Longrightarrow> node_ok (snd (issue_execution_epoch db))"
  by (rule node_ok_same, assumption, rule schema_ok_issue_execution_epoch, erule node_ok_schema)
    (simp_all add: issue_execution_epoch_def Let_def)

lemma node_ok_set_instance_epoch [node_intros]: "node_ok db \<Longrightarrow> set_instance_epoch db iid n now = Inr db' \<Longrightarrow> node_ok db'"
  by (rule node_ok_same, assumption, rule schema_ok_set_instance_epoch, erule node_ok_schema, assumption)
    (auto simp: set_instance_epoch_def split: if_splits)

lemma node_ok_set_instance_ready [node_intros]: "node_ok db \<Longrightarrow> node_ok (snd (set_instance_ready db iid b now))"
  by (rule node_ok_same, assumption, rule schema_ok_set_instance_ready, erule node_ok_schema)
    (simp_all add: set_instance_ready_def Let_def)

lemma node_ok_set_ttl_deadline [node_intros]: "node_ok db \<Longrightarrow> node_ok (set_ttl_deadline db iid d now)"
  by (rule node_ok_same, assumption, rule schema_ok_set_ttl_deadline, erule node_ok_schema)
    (simp_all add: set_ttl_deadline_def)

lemma node_ok_set_wake_at [node_intros]: "node_ok db \<Longrightarrow> node_ok (set_wake_at db iid d now)"
  by (rule node_ok_same, assumption, rule schema_ok_set_wake_at, erule node_ok_schema)
    (simp_all add: set_wake_at_def)

lemma node_ok_take_deadline [node_intros]: "node_ok db \<Longrightarrow> node_ok (snd (take_deadline db iid c now))"
  by (rule node_ok_same, assumption, rule schema_ok_take_deadline, erule node_ok_schema)
    (simp_all add: take_deadline_def split_beta)

lemma node_ok_claim_wake [node_intros]: "node_ok db \<Longrightarrow> node_ok (snd (claim_wake db iid d now))"
  unfolding claim_wake_def by (rule node_ok_take_deadline)

lemma node_ok_insert_snapshot [node_intros]: "node_ok db \<Longrightarrow> node_ok (insert_snapshot db row now)"
  by (rule node_ok_same, assumption, rule schema_ok_insert_snapshot, erule node_ok_schema)
    (simp_all add: insert_snapshot_def)

lemma node_ok_delete_snapshot [node_intros]: "node_ok db \<Longrightarrow> node_ok (delete_snapshot db sid)"
  by (rule node_ok_same, assumption, rule schema_ok_delete_snapshot, erule node_ok_schema)
    (simp_all add: delete_snapshot_def)

lemma node_ok_hold_lease [node_intros]: "node_ok db \<Longrightarrow> node_ok (hold_lease db name epoch iid now)"
  by (rule node_ok_same, assumption, rule schema_ok_leases(1), erule node_ok_schema)
    (simp_all add: hold_lease_def)

lemma node_ok_set_lease_instance [node_intros]: "node_ok db \<Longrightarrow> node_ok (set_lease_instance db name iid)"
  by (rule node_ok_same, assumption, rule schema_ok_leases(2), erule node_ok_schema)
    (simp_all add: set_lease_instance_def)

lemma node_ok_mark_lease_fencing [node_intros]: "node_ok db \<Longrightarrow> node_ok (mark_lease_fencing db name)"
  by (rule node_ok_same, assumption, rule schema_ok_leases(3), erule node_ok_schema)
    (simp_all add: mark_lease_fencing_def)

lemma node_ok_release_lease [node_intros]: "node_ok db \<Longrightarrow> node_ok (release_lease db name)"
  by (rule node_ok_same, assumption, rule schema_ok_leases(4), erule node_ok_schema)
    (simp_all add: release_lease_def)

lemma node_ok_set_op_step [node_intros]: "node_ok db \<Longrightarrow> node_ok (set_op_step db oid step)"
  by (rule node_ok_ops, assumption, rule schema_ok_set_op_step, erule node_ok_schema, rule claims_ok_set_op_step, erule node_ok_claims)
    (simp_all add: set_op_step_def)

lemma node_ok_set_op_froze_workload [node_intros]: "node_ok db \<Longrightarrow> node_ok (set_op_froze_workload db oid)"
  by (rule node_ok_ops, assumption, rule schema_ok_set_op_froze, erule node_ok_schema, rule claims_ok_set_op_froze, erule node_ok_claims)
    (simp_all add: set_op_froze_workload_def)

lemma node_ok_set_op_fork_mode [node_intros]: "node_ok db \<Longrightarrow> node_ok (set_op_fork_mode db oid mode)"
  by (rule node_ok_ops, assumption, rule schema_ok_set_op_fork_mode, erule node_ok_schema, rule claims_ok_set_op_fork_mode, erule node_ok_claims)
    (simp_all add: set_op_fork_mode_def)

lemma move_op_frame:
  "move_op db oid to guard f = Inr db' \<Longrightarrow> j_object_refs db' = j_object_refs db"
  "move_op db oid to guard f = Inr db' \<Longrightarrow> j_capsules db' = j_capsules db"
  by (auto simp: move_op_Inr_iff)

lemma node_ok_await_op_input [node_intros]: "node_ok db \<Longrightarrow> await_op_input db oid prompt = Inr db' \<Longrightarrow> node_ok db'"
  by (rule node_ok_ops, assumption, rule schema_ok_await_op_input, erule node_ok_schema, assumption,
      rule claims_ok_await_op_input, erule node_ok_claims, assumption)
    (unfold await_op_input_def, erule move_op_frame, erule move_op_frame)

lemma node_ok_resume_op_from_input [node_intros]: "node_ok db \<Longrightarrow> resume_op_from_input db oid step = Inr db' \<Longrightarrow> node_ok db'"
  by (rule node_ok_ops, assumption, rule schema_ok_resume_op_from_input, erule node_ok_schema, assumption,
      rule claims_ok_resume_op_from_input, erule node_ok_claims, assumption)
    (unfold resume_op_from_input_def, erule move_op_frame, erule move_op_frame)

lemma node_ok_finish_op_canceled [node_intros]: "node_ok db \<Longrightarrow> finish_op_canceled db oid reason now = Inr db' \<Longrightarrow> node_ok db'"
  by (rule node_ok_ops, assumption, rule schema_ok_finish_op_canceled, erule node_ok_schema, assumption,
      rule claims_ok_finish_op_canceled, erule node_ok_claims, assumption)
    (unfold finish_op_canceled_def, erule move_op_frame, erule move_op_frame)

lemma node_ok_fail_inflight_ops [node_intros]: "node_ok db \<Longrightarrow> node_ok (snd (fail_inflight_ops db msg now))"
  by (rule node_ok_ops, assumption, rule schema_ok_fail_inflight_ops, erule node_ok_schema,
      rule claims_ok_fail_inflight_ops, erule node_ok_schema, erule node_ok_claims)
    (simp_all add: fail_inflight_operations node_ok_schema)

lemma finish_operation_frame:
  assumes "finish_operation db oid iid st ttl why clear deg out now = Inr (fz, db')"
  shows "j_object_refs db' = j_object_refs db" and "j_capsules db' = j_capsules db"
proof -
  have writes: "j_object_refs (snd (finish_instance_writes db iid st ttl why clear now)) = j_object_refs db"
    "j_capsules (snd (finish_instance_writes db iid st ttl why clear now)) = j_capsules db"
    by (simp_all add: finish_instance_writes_def Let_def)
  show "j_object_refs db' = j_object_refs db" and "j_capsules db' = j_capsules db"
    using assms writes by (auto simp: finish_operation_def Let_def split_beta split: if_splits)
qed

lemma node_ok_finish_operation [node_intros]:
  "node_ok db \<Longrightarrow> finish_operation db oid iid st ttl why clear deg out now = Inr (fz, db') \<Longrightarrow> node_ok db'"
  by (rule node_ok_ops, assumption, rule schema_ok_finish_operation, erule node_ok_schema, assumption,
      rule claims_ok_finish_operation, erule node_ok_schema, erule node_ok_claims, assumption)
    (erule finish_operation_frame)+

lemma submit_frame:
  assumes "submit_atomically db op key tr sp rt tok mint claim lin plan nc now = Inr (res, db')"
  shows "j_object_refs db' = j_object_refs db \<and> j_capsules db' = j_capsules db"
  using assms
proof (cases rule: submit_atomically_Inr)
  case (journaled recorded db1)
  have "j_object_refs db1 = j_object_refs db \<and> j_capsules db1 = j_capsules db"
    using journaled(5) by (auto simp: take_deadline_def split_beta)
  thus ?thesis using journaled(6)
    by (auto simp: submit_writes_def insert_operation_def split: if_splits option.splits sum.splits)
qed simp

lemma node_ok_submit_atomically [node_intros]:
  "node_ok db \<Longrightarrow> submit_atomically db op key tr sp rt tok mint claim lin plan nc now = Inr (res, db') \<Longrightarrow> node_ok db'"
  by (rule node_ok_ops, assumption, rule schema_ok_submit_atomically, erule node_ok_schema, assumption,
      rule claims_ok_submit_atomically, erule node_ok_claims, assumption)
    (auto dest: submit_frame)

lemma node_ok_register_capsule [node_intros]: "node_ok db \<Longrightarrow> node_ok (snd (register_capsule db row))"
  by (simp add: node_ok_def schema_ok_register_capsule refs_ok_register_capsule)

lemma node_ok_delete_capsule [node_intros]: "node_ok db \<Longrightarrow> node_ok (delete_capsule db cid)"
  by (simp add: node_ok_def schema_ok_delete_capsule refs_ok_delete_capsule)

lemma node_ok_finalize_object_gc [node_intros]: "node_ok db \<Longrightarrow> node_ok (finalize_object_gc db d)"
  by (simp add: node_ok_def schema_ok_finalize_object_gc refs_ok_finalize_object_gc)

lemma node_ok_capsule_ops [node_intros]:
  "node_ok db \<Longrightarrow> node_ok (snd (recover_capsule_ops db now))"
  "node_ok db \<Longrightarrow> begin_capsule_op db oid kind request key now = Inr (b, db') \<Longrightarrow> node_ok db'"
  "node_ok db \<Longrightarrow> finish_capsule_op db oid cid state reason message now = Inr (r, db') \<Longrightarrow> node_ok db'"
proof -
  show "node_ok db \<Longrightarrow> node_ok (snd (recover_capsule_ops db now))"
    by (rule node_ok_same, assumption, rule schema_ok_recover_capsule_ops, erule node_ok_schema)
      (simp_all add: recover_capsule_ops_def Let_def)
  show "node_ok db \<Longrightarrow> begin_capsule_op db oid kind request key now = Inr (b, db') \<Longrightarrow> node_ok db'"
    by (rule node_ok_same, assumption, rule schema_ok_begin_capsule_op, erule node_ok_schema, assumption)
      (auto simp: begin_capsule_op_def Let_def split: option.splits if_splits)
  show "node_ok db \<Longrightarrow> finish_capsule_op db oid cid state reason message now = Inr (r, db') \<Longrightarrow> node_ok db'"
    by (rule node_ok_same, assumption, rule schema_ok_finish_capsule_op, erule node_ok_schema, assumption)
      (auto simp: finish_capsule_op_def Let_def split: option.splits)
qed

section \<open>Handlers that keep it\<close>

lemma keeps_node_event [keep_rules]: "rely node_ok E \<Longrightarrow> keeps (on_db node_ok) (record_event E ev)"
  by (rule keeps_record_event) (auto intro: node_intros)

lemma keeps_node_write:
  "rely node_ok E \<Longrightarrow> (\<And>now db. node_ok db \<Longrightarrow> node_ok (f now db)) \<Longrightarrow> keeps (on_db node_ok) (db_write E f)"
  by (rule keeps_db_write)

lemma keeps_node_submit [keep_rules]:
  assumes "rely node_ok E" and "\<And>oid. keeps (on_db node_ok) (announce oid)"
  shows "keeps (on_db node_ok) (submit_claiming E kind iid key payload claim announce)"
proof -
  have "keeps (on_db node_ok) (guest_token_for E payload)"
    by (cases payload) (auto simp: new_guest_token_def intro!: keep_rules)
  moreover have "keeps (on_db node_ok) (preflight E iid payload)"
    by (cases payload) (auto simp: preflight_def resolve_restore_def intro!: keep_rules assms(1))
  moreover have "keeps (on_db node_ok) (replay_outcome E iid payload op original)" for op original
    by (cases payload) (auto simp: replay_outcome_def intro!: keep_rules assms(1))
  moreover have "keeps (on_db node_ok) (accept E kind iid payload announce op recorded)" for op recorded
    unfolding accept_def by (intro keep_rules assms) auto
  ultimately show ?thesis
    unfolding submit_claiming_def settle_submission_def Let_def
    by (intro keep_rules keeps_db_call assms(1)) (auto intro: node_intros keep_rules split: submission.split)
qed

lemma keeps_node_submit_plain [keep_rules]:
  "rely node_ok E \<Longrightarrow> keeps (on_db node_ok) (submit E kind iid key payload)"
  unfolding submit_def by (intro keep_rules)

end
