(* ===== verification/Fleet_Stamp.thy ===== *)
theory Fleet_Stamp
  imports Node_Invariant
begin

text \<open>
  \<open>fleet_phase.rs\<close>, the run state stamped on a lease: what the journal says of the
  instance, written to the coordination bucket on both edges of a transition.
\<close>

section \<open>The leases a node holds\<close>

text \<open>The ordered map \<open>Fleet::held\<close>.\<close>

fun bt_insert :: "string \<Rightarrow> 'v \<Rightarrow> (string \<times> 'v) list \<Rightarrow> (string \<times> 'v) list" where
  "bt_insert k v [] = [(k, v)]"
| "bt_insert k v ((k', v') # m) =
     (if k < k' then (k, v) # (k', v') # m else if k = k' then (k, v) # m else (k', v') # bt_insert k v m)"

definition bt_remove :: "string \<Rightarrow> (string \<times> 'v) list \<Rightarrow> (string \<times> 'v) list" where
  "bt_remove k m = filter (\<lambda>(k', _). k' \<noteq> k) m"

definition with_fleet :: "(Fleet \<Rightarrow> Fleet) \<Rightarrow> ('s, unit) act" where
  "with_fleet f = modify (w_fleet_update (map_option f))"

definition hold_name :: "string \<Rightarrow> version Held \<Rightarrow> ('s, unit) act" where
  "hold_name name held = with_fleet (ft_held_update (bt_insert name held))"

definition drop_name :: "string \<Rightarrow> ('s, unit) act" where
  "drop_name name = with_fleet (ft_held_update (bt_remove name))"

definition held_names :: "('s, (string \<times> version Held) list) act" where
  "held_names = gets (\<lambda>w. case w_fleet w of Some f \<Rightarrow> ft_held f | None \<Rightarrow> [])"

section \<open>Stamping\<close>

definition lease_state_for :: "'s env \<Rightarrow> instance_id \<Rightarrow> ('s, string option) act" where
  "lease_state_for E iid =
     (if iid = [] then return (Some ''paused'')
      else do {
        r \<leftarrow> db_read E (\<lambda>db. get_instance db iid);
        return (case r of
                  Inr (Some row) \<Rightarrow> Some (if ir_state row = I_Running then ''running'' else ''paused'')
                | Inr None \<Rightarrow> Some ''paused''
                | Inl _ \<Rightarrow> None) })"

definition stamp_lease_state :: "'s env \<Rightarrow> instance_id \<Rightarrow> ('s, unit) act" where
  "stamp_lease_state E iid = do {
     fleet \<leftarrow> gets w_fleet;
     if fleet = None \<or> iid = [] then return ()
     else do {
       state \<leftarrow> lease_state_for E iid;
       case state of
         None \<Rightarrow> return ()
       | Some state \<Rightarrow> do {
           others E;
           held \<leftarrow> held_names;
           case List.find (\<lambda>(_, h). ls_instance_id (held_lease_of h) = iid) held of
             None \<Rightarrow> return ()
           | Some (name, h) \<Rightarrow>
               if ls_state (held_lease_of h) = Some state then return ()
               else do {
                 r \<leftarrow> await E (\<lambda>x. stamp_state (en_bucket E) x name h (Some state));
                 case r of
                   Inr (Ren_Held next) \<Rightarrow> hold_name name next
                 | Inr Ren_Fenced \<Rightarrow> return ()
                 | Inl _ \<Rightarrow> return () } } } }"

lemma keeps_with_fleet [keep_rules]: "keeps (on_db I) (with_fleet f)"
  unfolding with_fleet_def by (intro keep_rules) simp

lemma keeps_held_names [keep_rules]: "keeps P held_names"
  unfolding held_names_def by (rule keeps_gets)

lemma keeps_hold_name [keep_rules]: "keeps (on_db I) (hold_name name h)"
  unfolding hold_name_def by (rule keeps_with_fleet)

lemma keeps_drop_name [keep_rules]: "keeps (on_db I) (drop_name name)"
  unfolding drop_name_def by (rule keeps_with_fleet)

lemma keeps_lease_state_for [keep_rules]: "rely I E \<Longrightarrow> keeps (on_db I) (lease_state_for E iid)"
  unfolding lease_state_for_def by (intro keep_rules)

lemma keeps_case_renewed [keep_rules]:
  "(\<And>h. r = Ren_Held h \<Longrightarrow> keeps P (f h)) \<Longrightarrow> (r = Ren_Fenced \<Longrightarrow> keeps P m) \<Longrightarrow>
   keeps P (case r of Ren_Held h \<Rightarrow> f h | Ren_Fenced \<Rightarrow> m)"
  by (cases r) simp_all

lemma keeps_stamp_lease_state [keep_rules]: "rely I E \<Longrightarrow> keeps (on_db I) (stamp_lease_state E iid)"
  unfolding stamp_lease_state_def by (intro keep_rules)

end
