(* ===== verification/Op_Execute.thy ===== *)
theory Op_Execute
  imports Fleet_Stamp
begin

text \<open>
  \<open>ops.rs\<close>, the executor: the steps of each kind of operation against the runtime, the
  hooks and the restore duties, and the one transaction in which the outcome is
  recorded.  The downgrades an operation makes are collected in a list of texts that
  is written with the outcome.
\<close>

section \<open>Reporting\<close>

type_synonym op_error = "error_reason \<times> string"

text \<open>\<open>Degradations::record\<close> and \<open>joined\<close>.\<close>

definition degrade :: "'s env \<Rightarrow> instance_id \<Rightarrow> op_id \<Rightarrow> string list \<Rightarrow> string \<Rightarrow> ('s, string list) act" where
  "degrade E iid oid deg text = do {
     record_event E (degradation iid oid text);
     return (deg @ [text]) }"

definition joined :: "string list \<Rightarrow> string" where
  "joined deg = join ''; '' deg"

text \<open>The text of a message with the words and the data it is formatted from.\<close>

definition say :: "'s env \<Rightarrow> string \<Rightarrow> arg list \<Rightarrow> string" where
  "say E words args = en_text E (Notice words args)"

definition step :: "'s env \<Rightarrow> OperationRow \<Rightarrow> string \<Rightarrow> ('s, unit) act" where
  "step E op name = do {
     _ \<leftarrow> db_write E (\<lambda>_ db. set_op_step db (or_op_id op) name);
     record_event E (op_progress (or_instance_id op) (or_op_id op) name) }"

fun map_runtime_err :: "RuntimeError \<Rightarrow> op_error" where
  "map_runtime_err (RE_TemplateNotFound m) = (ER_TemplateNotFound, m)"
| "map_runtime_err (RE_SubstrateUnavailable m) = (ER_SubstrateUnavailable, m)"
| "map_runtime_err (RE_NameConflict m) = (ER_SnapshotNameConflict, m)"
| "map_runtime_err (RE_CapabilityMissing m) = (ER_CapabilityMissing, m)"
| "map_runtime_err (RE_Other m) = (ER_Unspecified, m)"

definition runtime_result :: "RuntimeError + 'a \<Rightarrow> op_error + unit" where
  "runtime_result r = (case r of Inl e \<Rightarrow> Inl (map_runtime_err e) | Inr _ \<Rightarrow> Inr ())"

definition bootstrap_of :: "InstanceRow \<Rightarrow> GuestBootstrap" where
  "bootstrap_of row = \<lparr>gb_token = ir_guest_token row, gb_identity = ir_identity row\<rparr>"

definition ttl_deadline_ms :: "'s env \<Rightarrow> int \<Rightarrow> ('s, ms) act" where
  "ttl_deadline_ms E ttl_seconds = do {
     now \<leftarrow> now_ms E;
     return (i64_saturating_add (i64_saturating_mul (min ttl_seconds i64_max) 1000) now) }"

section \<open>Epochs\<close>

text \<open>The epoch issued for this run, or why none could be.\<close>

definition issue_epoch :: "'s env \<Rightarrow> OpKind \<Rightarrow> instance_id \<Rightarrow> ('s, string + int option) act" where
  "issue_epoch E kind iid =
     (if kind \<in> {K_Start, K_Resume, K_Fork} then do {
        issued \<leftarrow> db_call E (\<lambda>_ db. Inr (issue_execution_epoch db));
        case issued of
          Inl e \<Rightarrow> return (Inl (say E ''an execution epoch could not be issued before'' [A_Op kind, A_Db e]))
        | Inr epoch \<Rightarrow> do {
            bound \<leftarrow> db_call E (\<lambda>now db. map_sum id (Pair ()) (set_instance_epoch db iid epoch now));
            return (case bound of
                      Inl e \<Rightarrow> Inl (say E ''execution epoch could not be bound before'' [A_Num epoch, A_Op kind, A_Db e])
                    | Inr _ \<Rightarrow> Inr (Some epoch)) } }
      else return (Inr None))"

section \<open>Hooks and restore duties\<close>

definition has_pre_snapshot :: "instance_spec \<Rightarrow> bool" where
  "has_pre_snapshot spec \<longleftrightarrow> (case sp_hooks spec of None \<Rightarrow> False | Some h \<Rightarrow> hk_pre_snapshot_cmd h \<noteq> [])"

definition has_post_restore :: "instance_spec \<Rightarrow> bool" where
  "has_post_restore spec \<longleftrightarrow> (case sp_hooks spec of None \<Rightarrow> False | Some h \<Rightarrow> hk_post_restore_cmd h \<noteq> [])"

definition connect :: "'s env \<Rightarrow> InstanceRow \<Rightarrow> instance_id \<Rightarrow> ('s, GuestError + unit) act" where
  "connect E row iid =
     (if gc_channel (en_guest E)
      then await E (gc_connect (en_guest E) iid (ir_guest_token row) (ir_identity row))
      else return (Inl (GE_Unsupported (rt_name (en_runtime E)))))"

definition run_pre_snapshot_hook ::
  "'s env \<Rightarrow> instance_id \<Rightarrow> op_id \<Rightarrow> string list \<Rightarrow> ('s, hook_outcome option \<times> string list) act" where
  "run_pre_snapshot_hook E iid oid deg = do {
     r \<leftarrow> db_read E (\<lambda>db. get_instance db iid);
     case found r of
       None \<Rightarrow> return (None, deg)
     | Some row \<Rightarrow>
         if \<not> has_pre_snapshot (ir_spec row)
         then return (Some \<lparr>ho_ran = False, ho_timed_out = False, ho_exit_code = 0\<rparr>, deg)
         else do {
           client \<leftarrow> connect E row iid;
           case client of
             Inl e \<Rightarrow> do {
               deg \<leftarrow> degrade E iid oid deg (say E ''pre-snapshot hook could not run'' [A_Guest e]);
               return (None, deg) }
           | Inr _ \<Rightarrow> do {
               response \<leftarrow> await E (gc_run_hook (en_guest E) iid PreSnapshot);
               case response of
                 Inl e \<Rightarrow> do {
                   deg \<leftarrow> degrade E iid oid deg (say E ''the pre-snapshot hook failed'' [A_Text e]);
                   return (None, deg) }
               | Inr response \<Rightarrow> do {
                   deg \<leftarrow> (if ho_timed_out response
                          then degrade E iid oid deg (say E ''the pre-snapshot hook timed out'' [])
                          else return deg);
                   return (Some response, deg) } } } }"

text \<open>The workload's own reconnect, last.\<close>

definition post_restore :: "'s env \<Rightarrow> OperationRow \<Rightarrow> bool \<Rightarrow> string list \<Rightarrow> ('s, string list) act" where
  "post_restore E op rebind_required deg = do {
     let iid = or_instance_id op;
     let severity = (\<lambda>args. say E (if rebind_required then ''the post-restore rebind'' else ''the post-restore hook'') args);
     step E op ''hook.post_restore'';
     response \<leftarrow> await E (gc_run_hook (en_guest E) iid PostRestore);
     case response of
       Inr response \<Rightarrow>
         if ho_timed_out response
         then degrade E iid (or_op_id op) deg (severity [A_Text ''hook timed out'']) else return deg
     | Inl e \<Rightarrow> degrade E iid (or_op_id op) deg (severity [A_Text ''hook failed'', A_Text e]) }"

definition restore_duties :: "'s env \<Rightarrow> OperationRow \<Rightarrow> int \<Rightarrow> string list \<Rightarrow> ('s, string list) act" where
  "restore_duties E op execution_epoch deg = do {
     let iid = or_instance_id op;
     r \<leftarrow> db_read E (\<lambda>db. get_instance db iid);
     case found r of
       None \<Rightarrow> return deg
     | Some row \<Rightarrow> do {
         step E op ''restore.duties'';
         client \<leftarrow> connect E row iid;
         case client of
           Inl e \<Rightarrow> degrade E iid (or_op_id op) deg (say E ''restore duties could not run'' [A_Guest e])
         | Inr _ \<Rightarrow> do {
             entropy \<leftarrow> extern (en_random E);
             case entropy of
               Inl e \<Rightarrow> degrade E iid (or_op_id op) deg (say E ''could not read host entropy'' [A_Text e])
             | Inr entropy \<Rightarrow> do {
                 host_time \<leftarrow> extern (en_host_time E);
                 report \<leftarrow> await E (gc_restore_duties (en_guest E) iid entropy host_time execution_epoch);
                 case report of
                   Inl e \<Rightarrow> degrade E iid (or_op_id op) deg (say E ''restore duties failed'' [A_Text e])
                 | Inr report \<Rightarrow> do {
                     deg \<leftarrow> (if rp_degraded report \<noteq> []
                            then degrade E iid (or_op_id op) deg (rp_degraded report) else return deg);
                     health \<leftarrow> await E (gc_health (en_guest E) iid False);
                     deg \<leftarrow> (case health of
                              Inl _ \<Rightarrow> degrade E iid (or_op_id op) deg
                                  (say E ''the guest stopped answering after its restore duties'' [])
                            | Inr _ \<Rightarrow> return deg);
                     record_event E (restored iid (or_op_id op) (say E ''restored'' [A_Report report]));
                     if has_post_restore (ir_spec row)
                     then post_restore E op (rp_grant_rebound report) deg else return deg } } } } }"

section \<open>Snapshots\<close>

definition record_snapshot ::
  "'s env \<Rightarrow> instance_id \<Rightarrow> SnapshotRef \<Rightarrow> hook_outcome option \<Rightarrow> string \<Rightarrow> ('s, db_error + unit) act" where
  "record_snapshot E iid snapshot hook name = do {
     r \<leftarrow> db_read E (\<lambda>db. get_instance db iid);
     created \<leftarrow> now_ms E;
     db_write E (\<lambda>now db. insert_snapshot db
       \<lparr>sr_snapshot_id = sn_snapshot_id snapshot, sr_instance_id = iid, sr_kind = sn_kind snapshot,
        sr_cpu_class = en_cpu_class E,
        sr_template_hash = (case found r of Some row \<Rightarrow> template_hash (en_sha E) (ir_spec row) | None \<Rightarrow> []),
        sr_runtime_bundle_ref = rt_version (en_runtime E), sr_tier = ST_Local,
        sr_size_bytes = sn_size_bytes snapshot, sr_created_at_ms = created, sr_pre_snapshot_hook = hook,
        sr_name = name\<rparr> now) }"

text \<open>One turn of the loop in \<open>forget_snapshots\<close>.\<close>

fun forget_each :: "'s env \<Rightarrow> instance_id \<Rightarrow> op_id \<Rightarrow> SnapshotRow list \<Rightarrow> string list \<Rightarrow> ('s, string list) act" where
  "forget_each E iid oid [] deg = return deg"
| "forget_each E iid oid (snapshot # snapshots) deg = do {
     let sid = sr_snapshot_id snapshot;
     gone \<leftarrow> await E (rt_delete_snapshot (en_runtime E) sid);
     deg \<leftarrow> (case gone of
              Inl e \<Rightarrow> degrade E iid oid deg (say E ''snapshot outlived the instance it belonged to'' [A_Text sid, A_Runtime e])
            | Inr _ \<Rightarrow> do {
                removed \<leftarrow> db_write E (\<lambda>_ db. delete_snapshot db sid);
                case removed of
                  Inl e \<Rightarrow> degrade E iid oid deg (say E ''snapshot was deleted but its journal row could not be removed'' [A_Text sid, A_Db e])
                | Inr _ \<Rightarrow> return deg });
     forget_each E iid oid snapshots deg }"

definition forget_snapshots :: "'s env \<Rightarrow> instance_id \<Rightarrow> op_id \<Rightarrow> string list \<Rightarrow> ('s, string list) act" where
  "forget_snapshots E iid oid deg = do {
     listed \<leftarrow> db_read E (\<lambda>db. list_snapshots db iid);
     case listed of
       Inl e \<Rightarrow> degrade E iid oid deg (say E ''snapshots of this instance could not be listed'' [A_Db e])
     | Inr snapshots \<Rightarrow> forget_each E iid oid snapshots deg }"

section \<open>Capsule objects\<close>

text \<open>The loop over the manifest, with the objects read so far.\<close>

fun load_each ::
  "'s env \<Rightarrow> string \<Rightarrow> capsule_object list \<Rightarrow> SnapshotObject list \<Rightarrow> ('s, op_error + SnapshotObject list) act" where
  "load_each E cid [] objects = return (Inr objects)"
| "load_each E cid (obj # objs) objects = do {
     r \<leftarrow> fetch E (ob_digest obj);
     case r of
       Inl e \<Rightarrow> return (Inl (ER_CapsuleVerificationFailed,
           say E ''object failed verification'' [A_Text (ob_digest obj), A_Text e]))
     | Inr None \<Rightarrow> return (Inl (ER_CapsuleVerificationFailed,
           say E ''object of capsule is no longer in the store of this node'' [A_Text (ob_digest obj), A_Text cid]))
     | Inr (Some bytes) \<Rightarrow>
         if int (length bytes) \<noteq> ob_length obj
         then return (Inl (ER_CapsuleVerificationFailed,
           say E ''object length differs from the claim of the capsule''
             [A_Text (ob_digest obj), A_Num (int (length bytes)), A_Text cid, A_Num (ob_length obj)]))
         else load_each E cid objs (objects @ [\<lparr>so_type = ob_type obj, so_bytes = bytes\<rparr>]) }"

definition load_capsule_objects :: "'s env \<Rightarrow> string \<Rightarrow> ('s, op_error + SnapshotObject list) act" where
  "load_capsule_objects E cid = do {
     r \<leftarrow> db_read E (\<lambda>db. get_capsule db cid);
     case r of
       Inl e \<Rightarrow> return (Inl (ER_Unspecified, say E ''reading capsule'' [A_Text cid, A_Db e]))
     | Inr None \<Rightarrow> return (Inl (ER_CapsuleIncompatible,
           say E ''capsule is no longer registered on this node'' [A_Text cid]))
     | Inr (Some row) \<Rightarrow> load_each E cid (mf_objects (cr_manifest row)) [] }"

section \<open>The work of each kind\<close>

type_synonym work = "(op_error + unit) \<times> string list"

text \<open>The row whose credentials the runtime is given, or why it cannot be read.\<close>

definition target_row :: "'s env \<Rightarrow> instance_id \<Rightarrow> string \<Rightarrow> string \<Rightarrow> ('s, op_error + InstanceRow) act" where
  "target_row E iid gone unreadable = do {
     r \<leftarrow> db_read E (\<lambda>db. get_instance db iid);
     return (case r of
               Inr (Some row) \<Rightarrow> Inr row
             | Inr None \<Rightarrow> Inl (ER_Unspecified, say E gone [A_Text iid])
             | Inl e \<Rightarrow> Inl (ER_Unspecified, say E unreadable [A_Text iid, A_Db e])) }"

definition create_work :: "'s env \<Rightarrow> OperationRow \<Rightarrow> instance_spec \<Rightarrow> string list \<Rightarrow> ('s, work) act" where
  "create_work E op spec deg = do {
     step E op ''runtime.create'';
     row \<leftarrow> target_row E (or_instance_id op) ''vanished from the journal before create'' ''could not read the guest token'';
     case row of
       Inl e \<Rightarrow> return (Inl e, deg)
     | Inr row \<Rightarrow> do {
         r \<leftarrow> await E (rt_create (en_runtime E) spec (bootstrap_of row));
         return (runtime_result r, deg) } }"

definition start_work :: "'s env \<Rightarrow> OperationRow \<Rightarrow> string list \<Rightarrow> ('s, work) act" where
  "start_work E op deg = do {
     step E op ''runtime.start'';
     row \<leftarrow> target_row E (or_instance_id op) ''vanished from the journal before start'' ''could not read the spec'';
     case row of
       Inl e \<Rightarrow> return (Inl e, deg)
     | Inr row \<Rightarrow> do {
         r \<leftarrow> await E (rt_start (en_runtime E) (or_instance_id op) (ir_spec row) (bootstrap_of row));
         return (runtime_result r, deg) } }"

definition stop_work :: "'s env \<Rightarrow> OperationRow \<Rightarrow> int \<Rightarrow> string list \<Rightarrow> ('s, work) act" where
  "stop_work E op grace deg = do {
     step E op ''runtime.stop'';
     r \<leftarrow> await E (rt_stop (en_runtime E) (or_instance_id op) grace);
     return (runtime_result r, deg) }"

definition pause_work :: "'s env \<Rightarrow> OperationRow \<Rightarrow> bool \<Rightarrow> string list \<Rightarrow> ('s, work) act" where
  "pause_work E op require_memory deg = do {
     let iid = or_instance_id op;
     step E op ''hook.pre_snapshot'';
     (hook, deg) \<leftarrow> run_pre_snapshot_hook E iid (or_op_id op) deg;
     step E op ''runtime.pause'';
     r \<leftarrow> await E (rt_pause (en_runtime E) iid);
     case r of
       Inl e \<Rightarrow> return (Inl (map_runtime_err e), deg)
     | Inr snapshot \<Rightarrow> do {
         let kept_memory = (sn_kind snapshot = SK_MemoryAndDisk);
         if require_memory \<and> \<not> kept_memory
         then return (Inl (ER_CapabilityMissing,
                say E ''require_memory was set but the runtime captured'' [A_Kind (sn_kind snapshot)]), deg)
         else do {
           step E op ''journal.snapshot'';
           recorded \<leftarrow> record_snapshot E iid snapshot hook [];
           deg \<leftarrow> (case recorded of
                    Inl e \<Rightarrow> degrade E iid (or_op_id op) deg (say E ''a snapshot was captured but could not be journaled'' [A_Db e])
                  | Inr _ \<Rightarrow> return deg);
           deg \<leftarrow> (if kept_memory then return deg
                  else degrade E iid (or_op_id op) deg (say E ''paused without preserving memory'' []));
           return (Inr (), deg) } } }"

definition resume_work ::
  "'s env \<Rightarrow> OperationRow \<Rightarrow> snapshot_id option \<Rightarrow> bool \<Rightarrow> int option \<Rightarrow> string list \<Rightarrow> ('s, work) act" where
  "resume_work E op snapshot_id require_memory epoch deg = do {
     let iid = or_instance_id op;
     step E op ''restore.preconditions'';
     (row, decision) \<leftarrow> resolve_restore E iid snapshot_id require_memory;
     case decision of
       FromMemory \<Rightarrow> do {
         step E op ''runtime.resume'';
         let latest = (case row of Some row \<Rightarrow> ir_latest_snapshot_id row | None \<Rightarrow> []);
         r \<leftarrow> await E (rt_resume (en_runtime E) iid (if snapshot_id = Some latest then None else snapshot_id));
         case r of
           Inl e \<Rightarrow> return (Inl (map_runtime_err e), deg)
         | Inr _ \<Rightarrow> do {
             deg \<leftarrow> restore_duties E op (case epoch of Some n \<Rightarrow> n | None \<Rightarrow> 0) deg;
             return (Inr (), deg) } }
     | ColdBoot reason why \<Rightarrow> do {
         step E op ''restore.cold_boot_fallback'';
         deg \<leftarrow> degrade E iid (or_op_id op) deg (say E ''resuming as a cold boot rather than from memory'' [A_Restore why]);
         case row of
           None \<Rightarrow> return (Inl (ER_Unspecified, say E ''vanished from the journal before its cold boot'' [A_Text iid]), deg)
         | Some row \<Rightarrow> do {
             r \<leftarrow> await E (rt_start (en_runtime E) iid (ir_spec row) (bootstrap_of row));
             return (runtime_result r, deg) } }
     | Refuse reason why \<Rightarrow>
         return (Inl (reason, say E ''require_memory was set, so this was not silently cold-booted'' [A_Restore why]), deg) }"

definition create_snapshot_work ::
  "'s env \<Rightarrow> OperationRow \<Rightarrow> instance_state \<Rightarrow> string option \<Rightarrow> string list \<Rightarrow> ('s, work) act" where
  "create_snapshot_work E op recorded name deg = do {
     let iid = or_instance_id op;
     let froze = (recorded = I_Checkpointing \<and> \<not> cap_live_checkpoint (rt_capabilities (en_runtime E)));
     step E op ''hook.pre_snapshot'';
     (hook, deg) \<leftarrow> run_pre_snapshot_hook E iid (or_op_id op) deg;
     (if froze then do {
        _ \<leftarrow> db_write E (\<lambda>_ db. set_op_froze_workload db (or_op_id op));
        step E op ''runtime.create_snapshot.frozen'' }
      else step E op ''runtime.create_snapshot'');
     r \<leftarrow> await E (rt_create_snapshot (en_runtime E) iid name);
     case r of
       Inl e \<Rightarrow> return (Inl (map_runtime_err e), deg)
     | Inr snapshot \<Rightarrow> do {
         step E op ''journal.snapshot'';
         recorded \<leftarrow> record_snapshot E iid snapshot hook (case name of Some n \<Rightarrow> n | None \<Rightarrow> []);
         case recorded of
           Inr _ \<Rightarrow> return (Inr (), deg)
         | Inl e \<Rightarrow> do {
             step E op ''compensate.delete_snapshot'';
             undo \<leftarrow> await E (rt_delete_snapshot (en_runtime E) (sn_snapshot_id snapshot));
             deg \<leftarrow> (case undo of
                      Inl u \<Rightarrow> degrade E iid (or_op_id op) deg
                        (say E ''snapshot was captured, could not be journaled and could not be deleted again''
                           [A_Text (sn_snapshot_id snapshot), A_Db e, A_Runtime u])
                    | Inr _ \<Rightarrow> return deg);
             return (Inl (ER_Unspecified, say E ''the snapshot was captured but could not be journaled'' [A_Db e]), deg) } } }"

definition delete_snapshot_work :: "'s env \<Rightarrow> OperationRow \<Rightarrow> snapshot_id \<Rightarrow> string list \<Rightarrow> ('s, work) act" where
  "delete_snapshot_work E op sid deg = do {
     step E op ''runtime.delete_snapshot'';
     r \<leftarrow> await E (rt_delete_snapshot (en_runtime E) sid);
     case r of
       Inl e \<Rightarrow> return (Inl (fst (map_runtime_err e),
                   say E ''deleting snapshot'' [A_Text sid, A_Text (snd (map_runtime_err e))]), deg)
     | Inr _ \<Rightarrow> do {
         step E op ''journal.delete_snapshot'';
         removed \<leftarrow> db_write E (\<lambda>_ db. delete_snapshot db sid);
         case removed of
           Inr _ \<Rightarrow> return (Inr (), deg)
         | Inl e \<Rightarrow> do {
             deg \<leftarrow> degrade E (or_instance_id op) (or_op_id op) deg
                      (say E ''snapshot was deleted from the substrate but its journal row could not be removed'' [A_Text sid, A_Db e]);
             return (Inl (ER_Unspecified, say E ''could not remove the journal row'' [A_Text sid, A_Db e]), deg) } } }"

definition destroy_work :: "'s env \<Rightarrow> OperationRow \<Rightarrow> bool \<Rightarrow> string list \<Rightarrow> ('s, work) act" where
  "destroy_work E op keep_snapshots deg = do {
     step E op ''runtime.destroy'';
     r \<leftarrow> await E (rt_destroy (en_runtime E) (or_instance_id op));
     case r of
       Inl e \<Rightarrow> return (Inl (map_runtime_err e), deg)
     | Inr _ \<Rightarrow>
         if keep_snapshots then return (Inr (), deg)
         else do {
           step E op ''snapshots.forget'';
           deg \<leftarrow> forget_snapshots E (or_instance_id op) (or_op_id op) deg;
           return (Inr (), deg) } }"

definition fork_work ::
  "'s env \<Rightarrow> OperationRow \<Rightarrow> instance_id \<Rightarrow> snapshot_id \<Rightarrow> bool \<Rightarrow> string list \<Rightarrow> ('s, work) act" where
  "fork_work E op source_instance_id source_snapshot_id require_cow deg = do {
     let iid = or_instance_id op;
     step E op ''runtime.fork'';
     row \<leftarrow> target_row E iid ''forked target vanished from the journal before its fork'' ''could not read the target row'';
     case row of
       Inl e \<Rightarrow> return (Inl e, deg)
     | Inr row \<Rightarrow> do {
         r \<leftarrow> await E (rt_fork (en_runtime E) source_instance_id source_snapshot_id (ir_spec row) (bootstrap_of row) require_cow);
         case r of
           Inl e \<Rightarrow> return (Inl (map_runtime_err e), deg)
         | Inr outcome \<Rightarrow> do {
             _ \<leftarrow> db_write E (\<lambda>_ db. set_op_fork_mode db (or_op_id op) (fo_mode outcome));
             deg \<leftarrow> (if fo_froze_source outcome
                    then degrade E iid (or_op_id op) deg
                      (say E ''the source was frozen while its state was copied'' [A_Mode (fo_mode outcome), A_Text source_instance_id])
                    else return deg);
             record_event E (lineage_recorded iid (or_op_id op)
               (say E ''forked from snapshot'' [A_Text source_snapshot_id, A_Text source_instance_id, A_Mode (fo_mode outcome)]));
             return (Inr (), deg) } } }"

definition restore_capsule_work ::
  "'s env \<Rightarrow> OperationRow \<Rightarrow> string \<Rightarrow> snapshot_id \<Rightarrow> string list \<Rightarrow> ('s, work) act" where
  "restore_capsule_work E op cid source_snapshot_id deg = do {
     let iid = or_instance_id op;
     step E op ''capsule.read_objects'';
     loaded \<leftarrow> load_capsule_objects E cid;
     case loaded of
       Inl e \<Rightarrow> return (Inl e, deg)
     | Inr objects \<Rightarrow> do {
         step E op ''runtime.restore_from_objects'';
         row \<leftarrow> target_row E iid ''restore target vanished from the journal before its restore'' ''could not read the target row'';
         case row of
           Inl e \<Rightarrow> return (Inl e, deg)
         | Inr row \<Rightarrow> do {
             r \<leftarrow> await E (rt_restore_from_objects (en_runtime E) objects (ir_spec row) (bootstrap_of row));
             case r of
               Inl e \<Rightarrow> return (Inl (map_runtime_err e), deg)
             | Inr _ \<Rightarrow> do {
                 record_event E (lineage_recorded iid (or_op_id op)
                   (say E ''restored from imported capsule'' [A_Text cid, A_Text source_snapshot_id]));
                 return (Inr (), deg) } } } }"

fun work_of ::
  "'s env \<Rightarrow> OperationRow \<Rightarrow> instance_state \<Rightarrow> int option \<Rightarrow> OpPayload \<Rightarrow> string list \<Rightarrow> ('s, work) act" where
  "work_of E op recorded epoch (P_Create spec) deg = create_work E op spec deg"
| "work_of E op recorded epoch P_Start deg = start_work E op deg"
| "work_of E op recorded epoch (P_Stop grace) deg = stop_work E op grace deg"
| "work_of E op recorded epoch (P_Pause require_memory) deg = pause_work E op require_memory deg"
| "work_of E op recorded epoch (P_Resume sid require_memory) deg = resume_work E op sid require_memory epoch deg"
| "work_of E op recorded epoch (P_CreateSnapshot name) deg = create_snapshot_work E op recorded name deg"
| "work_of E op recorded epoch (P_DeleteSnapshot sid) deg = delete_snapshot_work E op sid deg"
| "work_of E op recorded epoch (P_Destroy keep_snapshots) deg = destroy_work E op keep_snapshots deg"
| "work_of E op recorded epoch (P_Fork _ src sid _ require_cow _ _) deg = fork_work E op src sid require_cow deg"
| "work_of E op recorded epoch (P_RestoreCapsule _ cid sid _) deg = restore_capsule_work E op cid sid deg"

section \<open>The outcome\<close>

text \<open>Where the instance lands.\<close>

definition success_state :: "OpKind \<Rightarrow> instance_state \<Rightarrow> instance_state" where
  "success_state kind recorded = (if recorded = fst (states kind) then snd (states kind) else recorded)"

definition landing :: "OpKind \<Rightarrow> instance_state \<Rightarrow> op_error + unit \<Rightarrow> instance_state" where
  "landing kind recorded result =
     (case result of
        Inr _ \<Rightarrow> success_state kind recorded
      | Inl _ \<Rightarrow> if touches_instance_state kind then I_Failed else success_state kind recorded)"

text \<open>The lease of an instance on its way into \<open>RUNNING\<close>.\<close>

definition arm_ttl :: "'s env \<Rightarrow> instance_id \<Rightarrow> instance_state \<Rightarrow> ('s, ms option) act" where
  "arm_ttl E iid state =
     (if state = I_Running then do {
        r \<leftarrow> db_read E (\<lambda>db. get_instance db iid);
        case found r of
          Some row \<Rightarrow>
            if sp_ttl_seconds (ir_spec row) > 0
            then do { deadline \<leftarrow> ttl_deadline_ms E (sp_ttl_seconds (ir_spec row)); return (Some deadline) }
            else return None
        | None \<Rightarrow> return None }
      else return None)"

text \<open>\<open>ops::stop_reason\<close>.\<close>

definition stop_reason_of :: "'s env \<Rightarrow> OpKind \<Rightarrow> instance_id \<Rightarrow> ('s, stop_reason) act" where
  "stop_reason_of E kind iid = do {
     r \<leftarrow> await E (rt_stop_status (en_runtime E) iid);
     return (let requested = (kind = K_Stop) in
       case r of
         Inr (Some status) \<Rightarrow> \<lparr>rs_requested = requested, rs_exit_code = ss_exit_code status, rs_detail = ss_detail status\<rparr>
       | Inr None \<Rightarrow> \<lparr>rs_requested = requested, rs_exit_code = None, rs_detail = []\<rparr>
       | Inl e \<Rightarrow> \<lparr>rs_requested = requested, rs_exit_code = None,
                   rs_detail = say E ''the substrate could not be asked why it stopped'' [A_Runtime e]\<rparr>) }"

definition explain_stop ::
  "'s env \<Rightarrow> OpKind \<Rightarrow> instance_id \<Rightarrow> instance_state \<Rightarrow> ('s, stop_reason option) act" where
  "explain_stop E kind iid state =
     (if state = I_Stopped then
        (if touches_instance_state kind
         then do { why \<leftarrow> stop_reason_of E kind iid; return (Some why) }
         else do {
           r \<leftarrow> db_read E (\<lambda>db. get_instance db iid);
           return (Option.bind (found r) ir_stop_reason) })
      else return None)"

text \<open>What a failure is followed by before it is recorded.\<close>

definition compensate :: "'s env \<Rightarrow> OpKind \<Rightarrow> OperationRow \<Rightarrow> op_error + unit \<Rightarrow> string list \<Rightarrow> ('s, string list) act" where
  "compensate E kind op result deg =
     (case result of
        Inr _ \<Rightarrow> return deg
      | Inl (reason, message) \<Rightarrow> do {
          (if kind = K_Create \<or> kind = K_Fork
           then do { _ \<leftarrow> await E (rt_remove_orphan (en_substrate E) (or_instance_id op)); return () }
           else return ());
          if reason = ER_SubstrateUnavailable
          then degrade E (or_instance_id op) (or_op_id op) deg
                 (say E ''the substrate is not answering'' [A_Text (rt_name (en_runtime E)), A_Text message])
          else return deg })"

text \<open>The outcome's one transaction.\<close>

definition finish ::
  "'s env \<Rightarrow> OperationRow \<Rightarrow> instance_state \<Rightarrow> ms option \<Rightarrow> stop_reason option \<Rightarrow> bool \<Rightarrow> string \<Rightarrow> op_error + unit
   \<Rightarrow> ('s, db_error + finalized) act" where
  "finish E op state ttl why clear deg result =
     db_call E (\<lambda>now db. finish_operation db (or_op_id op) (or_instance_id op) state ttl why clear deg result now)"

text \<open>What is announced once it has committed.\<close>

definition announce_outcome ::
  "'s env \<Rightarrow> OperationRow \<Rightarrow> finalized \<Rightarrow> instance_state \<Rightarrow> stop_reason option \<Rightarrow> ('s, unit) act" where
  "announce_outcome E op fz state why = do {
     (if fz_readiness_changed fz then record_event E (ready_changed (or_instance_id op) False) else return ());
     record_event E (state_changed (or_instance_id op) (or_op_id op) state why);
     stamp_lease_state E (or_instance_id op) }"

definition fail_closed :: "'s env \<Rightarrow> OperationRow \<Rightarrow> string \<Rightarrow> ('s, unit) act" where
  "fail_closed E op message = do {
     step E op ''finalize'';
     r \<leftarrow> finish E op I_Failed None None True [] (Inl (ER_Unspecified, message));
     case r of
       Inr fz \<Rightarrow> announce_outcome E op fz I_Failed None
     | Inl _ \<Rightarrow> return () }"

text \<open>Everything from the work to the transaction, and what follows it.\<close>

definition conclude ::
  "'s env \<Rightarrow> OpKind \<Rightarrow> OperationRow \<Rightarrow> OpPayload \<Rightarrow> instance_state \<Rightarrow> int option
   \<Rightarrow> ('s, (op_error + unit) \<times> instance_state \<times> stop_reason option \<times> (db_error + finalized)) act" where
  "conclude E kind op payload recorded epoch = do {
     (result, deg) \<leftarrow> work_of E op recorded epoch payload [];
     step E op ''finalize'';
     let state = landing kind recorded result;
     ttl \<leftarrow> arm_ttl E (or_instance_id op) state;
     why \<leftarrow> explain_stop E kind (or_instance_id op) state;
     deg \<leftarrow> compensate E kind op result deg;
     r \<leftarrow> finish E op state ttl why (state \<noteq> I_Running) (joined deg) result;
     return (result, state, why, r) }"

definition execute :: "'s env \<Rightarrow> task \<Rightarrow> ('s, unit) act" where
  "execute E t = do {
     let op = tk_op t;
     let iid = or_instance_id op;
     issued \<leftarrow> issue_epoch E (tk_kind t) iid;
     stamp_lease_state E iid;
     case issued of
       Inl message \<Rightarrow> fail_closed E op message
     | Inr epoch \<Rightarrow> do {
         (result, state, why, r) \<leftarrow> conclude E (tk_kind t) op (tk_payload t) (tk_recorded t) epoch;
         case r of
           Inl e \<Rightarrow> record_event E (degradation iid (or_op_id op)
               (say E ''the journal could not record the outcome of this operation'' [A_Db e]))
         | Inr fz \<Rightarrow> do {
             announce_outcome E op fz state why;
             case (result, epoch) of
               (Inr _, Some n) \<Rightarrow> record_event E (epoch_rotated iid (or_op_id op)
                   (say E ''execution epoch issued for this run'' [A_Num n]))
             | _ \<Rightarrow> return () } } }"

end
