(* ===== verification/Op_Outcome.thy ===== *)
theory Op_Outcome
  imports Op_Execute
begin

text \<open>
  What the executor guarantees.  Every statement it makes before the final
  transaction leaves an operation claimed and its instance where it is; the
  transaction settles both or leaves both.  The first half is proved once, for every
  property of the journal that the executor's narration keeps.
\<close>

section \<open>The executor's narration\<close>

lemma keeps_case_Restore [keep_rules]:
  "(d = FromMemory \<Longrightarrow> keeps P m) \<Longrightarrow> (\<And>r y. d = ColdBoot r y \<Longrightarrow> keeps P (f r y)) \<Longrightarrow> (\<And>r y. d = Refuse r y \<Longrightarrow> keeps P (g r y))
   \<Longrightarrow> keeps P (case d of FromMemory \<Rightarrow> m | ColdBoot r y \<Rightarrow> f r y | Refuse r y \<Rightarrow> g r y)"
  by (cases d) simp_all

lemma keeps_db_resolve_restore [keep_rules]: "rely I E \<Longrightarrow> keeps (on_db I) (resolve_restore E iid sid req)"
  unfolding resolve_restore_def by (intro keep_rules)

lemma keeps_ttl_deadline_ms [keep_rules]: "keeps (on_db I) (ttl_deadline_ms E secs)"
  unfolding ttl_deadline_ms_def by (intro keep_rules)

lemma keeps_connect [keep_rules]: "rely I E \<Longrightarrow> keeps (on_db I) (connect E row iid)"
  unfolding connect_def by (intro keep_rules)

lemma keeps_load_each [keep_rules]: "rely I E \<Longrightarrow> keeps (on_db I) (load_each E cid objs objects)"
  by (induction objs arbitrary: objects) (auto intro!: keep_rules)

lemma keeps_load_capsule_objects [keep_rules]: "rely I E \<Longrightarrow> keeps (on_db I) (load_capsule_objects E cid)"
  unfolding load_capsule_objects_def by (intro keep_rules)

lemma keeps_target_row [keep_rules]: "rely I E \<Longrightarrow> keeps (on_db I) (target_row E iid gone unreadable)"
  unfolding target_row_def by (intro keep_rules)

lemma keeps_arm_ttl [keep_rules]: "rely I E \<Longrightarrow> keeps (on_db I) (arm_ttl E iid state)"
  unfolding arm_ttl_def by (intro keep_rules)

lemma keeps_stop_reason_of [keep_rules]: "rely I E \<Longrightarrow> keeps (on_db I) (stop_reason_of E kind iid)"
  unfolding stop_reason_of_def by (intro keep_rules)

lemma keeps_explain_stop [keep_rules]: "rely I E \<Longrightarrow> keeps (on_db I) (explain_stop E kind iid state)"
  unfolding explain_stop_def by (intro keep_rules)

lemma map_sum_pair [simp]: "map_sum id (Pair u) x = Inr (a, b) \<longleftrightarrow> a = u \<and> x = Inr b"
  by (cases x) auto

locale executor_invariant =
  fixes I :: "journal \<Rightarrow> bool"
  assumes on_step: "I db \<Longrightarrow> I (set_op_step db oid name)"
    and on_froze: "I db \<Longrightarrow> I (set_op_froze_workload db oid)"
    and on_mode: "I db \<Longrightarrow> I (set_op_fork_mode db oid mode)"
    and on_event: "I db \<Longrightarrow> I (snd (insert_event db ev now))"
    and on_issue: "I db \<Longrightarrow> I (snd (issue_execution_epoch db))"
    and on_bind: "I db \<Longrightarrow> set_instance_epoch db iid epoch now = Inr db' \<Longrightarrow> I db'"
    and on_snapshot: "I db \<Longrightarrow> I (insert_snapshot db row now)"
    and on_forget: "I db \<Longrightarrow> I (delete_snapshot db sid)"
begin

lemmas statements = on_step on_froze on_mode on_event on_snapshot on_forget

lemma event: "rely I E \<Longrightarrow> keeps (on_db I) (record_event E ev)"
  by (rule keeps_record_event) (assumption, rule on_event)

lemma degrade: "rely I E \<Longrightarrow> keeps (on_db I) (degrade E iid oid deg msg)"
  unfolding degrade_def by (intro keep_rules event)

lemma step: "rely I E \<Longrightarrow> keeps (on_db I) (step E op name)"
  unfolding step_def by (intro keep_rules keeps_db_write event statements)

lemmas base = event degrade step

lemma issue: "rely I E \<Longrightarrow> keeps (on_db I) (issue_epoch E kind iid)"
  unfolding issue_epoch_def
  by (intro keep_rules keeps_db_call) (auto dest: on_issue intro: on_bind split: sum.splits)

lemma pre_snapshot: "rely I E \<Longrightarrow> keeps (on_db I) (run_pre_snapshot_hook E iid oid deg)"
  unfolding run_pre_snapshot_hook_def by (intro keep_rules base)

lemma post_restore: "rely I E \<Longrightarrow> keeps (on_db I) (post_restore E op rebind deg)"
  unfolding post_restore_def by (intro keep_rules base)

lemma duties: "rely I E \<Longrightarrow> keeps (on_db I) (restore_duties E op epoch deg)"
  unfolding restore_duties_def by (intro keep_rules base post_restore)

lemma capture: "rely I E \<Longrightarrow> keeps (on_db I) (record_snapshot E iid snapshot hook name)"
  unfolding record_snapshot_def by (intro keep_rules keeps_db_write statements)

lemma forget_each: "rely I E \<Longrightarrow> keeps (on_db I) (forget_each E iid oid snapshots deg)"
  by (induction snapshots arbitrary: deg) (auto intro!: keep_rules base keeps_db_write statements)

lemma forget: "rely I E \<Longrightarrow> keeps (on_db I) (forget_snapshots E iid oid deg)"
  unfolding forget_snapshots_def by (intro keep_rules base forget_each)

lemma create: "rely I E \<Longrightarrow> keeps (on_db I) (create_work E op spec deg)"
  unfolding create_work_def by (intro keep_rules base)

lemma start: "rely I E \<Longrightarrow> keeps (on_db I) (start_work E op deg)"
  unfolding start_work_def by (intro keep_rules base)

lemma stop: "rely I E \<Longrightarrow> keeps (on_db I) (stop_work E op grace deg)"
  unfolding stop_work_def by (intro keep_rules base)

lemma pause: "rely I E \<Longrightarrow> keeps (on_db I) (pause_work E op require_memory deg)"
  unfolding pause_work_def by (intro keep_rules base pre_snapshot capture)

lemma resume: "rely I E \<Longrightarrow> keeps (on_db I) (resume_work E op sid require_memory epoch deg)"
  unfolding resume_work_def by (intro keep_rules base duties)

lemma create_snapshot: "rely I E \<Longrightarrow> keeps (on_db I) (create_snapshot_work E op recorded name deg)"
  unfolding create_snapshot_work_def by (intro keep_rules base pre_snapshot capture keeps_db_write statements)

lemma delete_snapshot_work: "rely I E \<Longrightarrow> keeps (on_db I) (delete_snapshot_work E op sid deg)"
  unfolding delete_snapshot_work_def by (intro keep_rules base keeps_db_write statements)

lemma destroy: "rely I E \<Longrightarrow> keeps (on_db I) (destroy_work E op keep_snapshots deg)"
  unfolding destroy_work_def by (intro keep_rules base forget)

lemma fork: "rely I E \<Longrightarrow> keeps (on_db I) (fork_work E op src sid require_cow deg)"
  unfolding fork_work_def by (intro keep_rules base keeps_db_write statements)

lemma restore_capsule: "rely I E \<Longrightarrow> keeps (on_db I) (restore_capsule_work E op cid sid deg)"
  unfolding restore_capsule_work_def by (intro keep_rules base)

lemma work: "rely I E \<Longrightarrow> keeps (on_db I) (work_of E op recorded epoch payload deg)"
  by (cases payload)
    (simp_all add: create start stop pause resume create_snapshot delete_snapshot_work destroy fork restore_capsule)

lemma compensation: "rely I E \<Longrightarrow> keeps (on_db I) (compensate E kind op result deg)"
  unfolding compensate_def by (intro keep_rules base)

lemma announced: "rely I E \<Longrightarrow> keeps (on_db I) (announce_outcome E op fz state why)"
  unfolding announce_outcome_def by (intro keep_rules base)

lemmas narration = base issue work compensation announced

end

interpretation node: executor_invariant node_ok
  by unfold_locales (auto intro: node_intros)

section \<open>An operation in hand\<close>

text \<open>
  The operation is claimed by its executor, in flight or called off meanwhile, and the
  instance is in the state the submission recorded.
\<close>

definition held_op :: "operations_row \<Rightarrow> bool" where
  "held_op r \<longleftrightarrow> oc_executor_active r \<and> (op_is_in_flight (oc_state r) \<or> oc_state r = Op_Canceled)"

definition in_hand :: "op_id \<Rightarrow> instance_id \<Rightarrow> instance_state \<Rightarrow> journal \<Rightarrow> bool" where
  "in_hand oid iid recorded db \<longleftrightarrow> schema_ok db
     \<and> (case row_with oc_op_id oid (j_operations db) of Some r \<Rightarrow> held_op r | None \<Rightarrow> False)
     \<and> (case row_with ic_instance_id iid (j_instances db) of Some i \<Rightarrow> ic_state i = recorded | None \<Rightarrow> False)"

lemma in_hand_updates:
  assumes "in_hand oid iid s db" and "schema_ok db'"
    and "j_operations db' = sql_update p f (j_operations db)" and "j_instances db' = sql_update q g (j_instances db)"
    and "\<And>r. oc_op_id (f r) = oc_op_id r" and "\<And>r. p r \<Longrightarrow> held_op r \<Longrightarrow> held_op (f r)"
    and "\<And>r. ic_instance_id (g r) = ic_instance_id r" and "\<And>r. ic_state (g r) = ic_state r"
  shows "in_hand oid iid s db'"
  using assms unfolding in_hand_def by (auto simp: row_with_sql_update split: option.splits)

lemma sql_update_nowhere: "sql_update (\<lambda>_. False) id t = t"
  by (induction t) simp_all

lemmas in_hand_schema = in_hand_def [THEN iffD1, THEN conjunct1]

lemma in_hand_ops:
  assumes "in_hand oid iid s db" and "schema_ok (j_operations_update (sql_update p f) db)"
    and "\<And>r. oc_op_id (f r) = oc_op_id r" and "\<And>r. p r \<Longrightarrow> held_op r \<Longrightarrow> held_op (f r)"
  shows "in_hand oid iid s (j_operations_update (sql_update p f) db)"
  by (rule in_hand_updates [OF assms(1,2), of p f "\<lambda>_. False" id]) (simp_all add: assms(3,4) sql_update_nowhere)

lemma in_hand_instances:
  assumes "in_hand oid iid s db" and "schema_ok db'" and "j_operations db' = j_operations db"
    and "j_instances db' = sql_update q g (j_instances db)"
    and "\<And>r. ic_instance_id (g r) = ic_instance_id r" and "\<And>r. ic_state (g r) = ic_state r"
  shows "in_hand oid iid s db'"
  by (rule in_hand_updates [OF assms(1,2), of "\<lambda>_. False" id q g]) (simp_all add: assms(3-) sql_update_nowhere)

lemma in_hand_frame:
  assumes "in_hand oid iid s db" and "schema_ok db'" and "j_operations db' = j_operations db"
    and "j_instances db' = j_instances db"
  shows "in_hand oid iid s db'"
  using assms by (simp add: in_hand_def)

interpretation hand: executor_invariant "in_hand oid iid s" for oid iid s
proof unfold_locales
  fix db
  assume h: "in_hand oid iid s db"
  note ok = in_hand_schema [OF h]
  show "in_hand oid iid s (set_op_step db oid' name)" for oid' name
    using schema_ok_set_op_step [OF ok, of oid' name] unfolding set_op_step_def
    by (intro in_hand_ops [OF h]) (simp_all add: held_op_def)
  show "in_hand oid iid s (set_op_froze_workload db oid')" for oid'
    using schema_ok_set_op_froze [OF ok, of oid'] unfolding set_op_froze_workload_def
    by (intro in_hand_ops [OF h]) (simp_all add: held_op_def)
  show "in_hand oid iid s (set_op_fork_mode db oid' mode)" for oid' mode
    using schema_ok_set_op_fork_mode [OF ok, of oid' mode] unfolding set_op_fork_mode_def
    by (intro in_hand_ops [OF h]) (simp_all add: held_op_def)
  show "in_hand oid iid s (snd (insert_event db ev now))" for ev now
    by (rule in_hand_frame [OF h schema_ok_events(1) [OF ok]]) (simp_all add: insert_event_def Let_def)
  show "in_hand oid iid s (snd (issue_execution_epoch db))"
    using h ok by (intro in_hand_frame [OF h]) (simp_all add: issue_execution_epoch_def Let_def schema_ok_def)
  show "in_hand oid iid s (insert_snapshot db row now)" for row now
    by (rule in_hand_instances [OF h schema_ok_insert_snapshot [OF ok], of row now "\<lambda>r. ic_instance_id r = sr_instance_id row"
          "\<lambda>r. r\<lparr>ic_latest_snapshot_id := sr_snapshot_id row, ic_updated_at_ms := now\<rparr>"])
      (simp_all add: insert_snapshot_def)
  show "in_hand oid iid s (delete_snapshot db sid)" for sid
    by (rule in_hand_instances [OF h schema_ok_delete_snapshot [OF ok], of sid "\<lambda>r. ic_latest_snapshot_id r = sid"
          "\<lambda>r. r\<lparr>ic_latest_snapshot_id := []\<rparr>"])
      (simp_all add: delete_snapshot_def)
  show "in_hand oid iid s db'" if b: "set_instance_epoch db iid' epoch now = Inr db'" for iid' epoch now db'
  proof -
    have "schema_ok db'" using schema_ok_set_instance_epoch [OF ok b] .
    moreover have "j_operations db' = j_operations db"
      and "j_instances db' = sql_update (\<lambda>r. ic_instance_id r = iid')
             (\<lambda>r. r\<lparr>ic_execution_epoch := as_i64 epoch, ic_updated_at_ms := now\<rparr>) (j_instances db)"
      using b by (auto simp: set_instance_epoch_def split: if_splits)
    ultimately show ?thesis by (rule in_hand_instances [OF h]) simp_all
  qed
qed

section \<open>An operation that is over\<close>

definition op_over :: "op_id \<Rightarrow> journal \<Rightarrow> bool" where
  "op_over oid db \<longleftrightarrow> schema_ok db
     \<and> (case row_with oc_op_id oid (j_operations db) of
          Some r \<Rightarrow> \<not> oc_executor_active r \<and> op_is_settled (oc_state r) | None \<Rightarrow> False)"

lemma op_over_ops:
  assumes "op_over oid db" and "schema_ok (j_operations_update (sql_update p f) db)"
    and "\<And>r. oc_op_id (f r) = oc_op_id r" and "\<And>r. oc_executor_active (f r) = oc_executor_active r"
    and "\<And>r. p r \<Longrightarrow> op_is_settled (oc_state r) \<Longrightarrow> op_is_settled (oc_state (f r))"
  shows "op_over oid (j_operations_update (sql_update p f) db)"
  using assms unfolding op_over_def by (auto simp: row_with_sql_update split: option.splits)

lemma op_over_frame:
  "op_over oid db \<Longrightarrow> schema_ok db' \<Longrightarrow> j_operations db' = j_operations db \<Longrightarrow> op_over oid db'"
  by (simp add: op_over_def)

interpretation over: executor_invariant "op_over oid" for oid
proof unfold_locales
  fix db
  assume h: "op_over oid db"
  hence ok: "schema_ok db" by (simp add: op_over_def)
  show "op_over oid (set_op_step db oid' name)" for oid' name
    using schema_ok_set_op_step [OF ok, of oid' name] unfolding set_op_step_def
    by (intro op_over_ops [OF h]) (auto elim: op_is_settled.elims)
  show "op_over oid (set_op_froze_workload db oid')" for oid'
    using schema_ok_set_op_froze [OF ok, of oid'] unfolding set_op_froze_workload_def
    by (intro op_over_ops [OF h]) simp_all
  show "op_over oid (set_op_fork_mode db oid' mode)" for oid' mode
    using schema_ok_set_op_fork_mode [OF ok, of oid' mode] unfolding set_op_fork_mode_def
    by (intro op_over_ops [OF h]) simp_all
  show "op_over oid (snd (insert_event db ev now))" for ev now
    by (rule op_over_frame [OF h schema_ok_events(1) [OF ok]]) (simp add: insert_event_def Let_def)
  show "op_over oid (snd (issue_execution_epoch db))"
    by (rule op_over_frame [OF h schema_ok_issue_execution_epoch [OF ok]]) (simp add: issue_execution_epoch_def Let_def)
  show "op_over oid db'" if "set_instance_epoch db iid epoch now = Inr db'" for iid epoch now db'
    by (rule op_over_frame [OF h schema_ok_set_instance_epoch [OF ok that]])
      (use that in \<open>auto simp: set_instance_epoch_def split: if_splits\<close>)
  show "op_over oid (insert_snapshot db row now)" for row now
    by (rule op_over_frame [OF h schema_ok_insert_snapshot [OF ok]]) (simp add: insert_snapshot_def)
  show "op_over oid (delete_snapshot db sid)" for sid
    by (rule op_over_frame [OF h schema_ok_delete_snapshot [OF ok]]) (simp add: delete_snapshot_def)
qed

section \<open>The final transaction\<close>

lemma undisturbed_on_db: "rely I E \<Longrightarrow> undisturbed (on_db I) E"
  by (simp add: undisturbed_def on_db_def rely_def)

text \<open>A statement that can be refused, with what each answer means.\<close>

lemma triple_db_call_cases:
  assumes "undisturbed P E"
    and "\<And>now w a db. P w \<Longrightarrow> f now (w_db w) = Inr (a, db) \<Longrightarrow> Q (Inr a) (w\<lparr>w_db := db\<rparr>)"
    and "\<And>now w e. P w \<Longrightarrow> f now (w_db w) = Inl e \<Longrightarrow> Q (Inl (DE_Refused e)) w"
    and "\<And>e w. P w \<Longrightarrow> Q (Inl (DE_Fault e)) w"
  shows "triple P (db_call E f) Q"
proof -
  have step: "triple P (State (\<lambda>w. case f now (w_db w) of
           Inl e \<Rightarrow> (Inl (DE_Refused e), w) | Inr (a, db) \<Rightarrow> (Inr a, w\<lparr>w_db := db\<rparr>))) Q" for now
    by (rule tripleI) (auto split: sum.splits prod.splits intro: assms)
  have "triple P (case fault of Some e \<Rightarrow> return (Inl (DE_Fault e))
          | None \<Rightarrow> State (\<lambda>w. case f now (w_db w) of
              Inl e \<Rightarrow> (Inl (DE_Refused e), w) | Inr (a, db) \<Rightarrow> (Inr a, w\<lparr>w_db := db\<rparr>))) Q" for now fault
    using step by (cases fault) (auto intro!: triple_return assms(4))
  thus ?thesis unfolding db_call_def now_ms_def
    by (intro triple_bind [where R = "\<lambda>_. P"])
      (simp_all add: stable_others [OF assms(1), unfolded keeps_def] stable_extern [OF assms(1), unfolded keeps_def])
qed

text \<open>Both rows after a finalize that committed.\<close>

definition concluded :: "op_id \<Rightarrow> instance_id \<Rightarrow> instance_state \<Rightarrow> op_error + unit \<Rightarrow> finalized \<Rightarrow> journal \<Rightarrow> bool" where
  "concluded oid iid state result fz db \<longleftrightarrow> schema_ok db
     \<and> (case row_with oc_op_id oid (j_operations db) of
          Some r \<Rightarrow> \<not> oc_executor_active r
            \<and> oc_state r = (if fz_outcome_recorded fz then case result of Inr _ \<Rightarrow> Op_Done | Inl _ \<Rightarrow> Op_Failed else Op_Canceled)
        | None \<Rightarrow> False)
     \<and> (case row_with ic_instance_id iid (j_instances db) of Some i \<Rightarrow> ic_state i = state | None \<Rightarrow> False)"

lemma concluded_over: "concluded oid iid state result fz db \<Longrightarrow> op_over oid db"
  by (auto simp: concluded_def op_over_def split: option.splits sum.splits if_splits)

lemma settle_op_row_state [simp]:
  "oc_state (settle_op_row now degraded outcome r) = (case outcome of Inr _ \<Rightarrow> Op_Done | Inl _ \<Rightarrow> Op_Failed)"
  by (cases outcome) (auto split: prod.splits)

lemma finish_concludes:
  assumes h: "in_hand oid iid s db"
    and run: "finish_operation db oid iid state ttl why clear deg result now = Inr (fz, db')"
  shows "concluded oid iid state result fz db'"
proof -
  from h obtain r i where r: "row_with oc_op_id oid (j_operations db) = Some r" "held_op r"
    and i: "row_with ic_instance_id iid (j_instances db) = Some i"
    by (auto simp: in_hand_def split: option.splits)
  note ids = row_with_Some_key [OF r(1)] row_with_Some_key [OF i]
  have "schema_ok db'" using schema_ok_finish_operation [OF in_hand_schema [OF h] run] .
  thus ?thesis
    using run r i ids
    by (auto simp: finish_operation_cases [OF in_hand_schema [OF h]] Let_def concluded_def held_op_def row_with_sql_update
        finish_instance_writes_row split: if_splits)
qed

lemma finish_refuses:
  assumes h: "in_hand oid iid s db"
    and run: "finish_operation db oid iid state ttl why clear deg result now = Inl e"
  shows "s \<noteq> state \<and> \<not> can_transition s state \<and> map_option or_state (get_operation db oid) = Some Op_Canceled"
  using assms by (auto simp: finish_operation_cases [OF in_hand_schema [OF h]] Let_def in_hand_def held_op_def
      get_operation_def operation_row_from_def split: if_splits option.splits)

lemma triple_keeps_then:
  "keeps P m \<Longrightarrow> (\<And>a. triple P (f a) Q) \<Longrightarrow> triple P (State_Monad.bind m f) Q"
  unfolding keeps_def by (rule triple_bind)

text \<open>What each answer of the finalize means.\<close>

definition ended ::
  "OperationRow \<Rightarrow> instance_state \<Rightarrow> instance_state \<Rightarrow> op_error + unit \<Rightarrow> db_error + finalized \<Rightarrow> journal \<Rightarrow> bool" where
  "ended op recorded state result r db \<longleftrightarrow>
     (case r of
        Inr fz \<Rightarrow> concluded (or_op_id op) (or_instance_id op) state result fz db
      | Inl e \<Rightarrow> in_hand (or_op_id op) (or_instance_id op) recorded db
          \<and> (\<forall>x. e = DE_Refused x \<longrightarrow> recorded \<noteq> state \<and> \<not> can_transition recorded state
                \<and> map_option or_state (get_operation db (or_op_id op)) = Some Op_Canceled))"

abbreviation handed :: "OperationRow \<Rightarrow> instance_state \<Rightarrow> journal \<Rightarrow> bool" where
  "handed op \<equiv> in_hand (or_op_id op) (or_instance_id op)"

lemma finish_triple:
  assumes "rely (handed op s) E"
  shows "triple (on_db (handed op s)) (finish E op state ttl why clear deg result)
           (\<lambda>r w. ended op s state result r (w_db w))"
  unfolding finish_def
  by (rule triple_db_call_cases [OF undisturbed_on_db [OF assms]])
    (auto simp: on_db_def ended_def dest: finish_concludes finish_refuses)

lemma conclude_triple:
  assumes "rely (handed op s) E"
  shows "triple (on_db (handed op s)) (conclude E kind op payload s epoch)
    (\<lambda>x w. fst (snd x) = landing kind s (fst x) \<and> ended op s (fst (snd x)) (fst x) (snd (snd (snd x))) (w_db w))"
  unfolding conclude_def Let_def case_prod_beta
  by (rule triple_keeps_then [OF hand.work [OF assms]], rule triple_keeps_then [OF hand.step [OF assms]],
      rule triple_keeps_then [OF keeps_arm_ttl [OF assms]], rule triple_keeps_then [OF keeps_explain_stop [OF assms]],
      rule triple_keeps_then [OF hand.compensation [OF assms]], rule triple_bind [OF finish_triple [OF assms]],
      rule triple_return, simp)

text \<open>After the transaction has committed, the operation stays over.\<close>

lemma announced_over:
  assumes "rely (op_over (or_op_id op)) E"
  shows "triple (\<lambda>w. ended op s state result (Inr fz) (w_db w)) (announce_outcome E op fz state why)
           (\<lambda>_ w. op_over (or_op_id op) (w_db w))"
  by (rule triple_pre [OF over.announced [OF assms, of op, unfolded keeps_def on_db_def]])
    (simp add: ended_def concluded_over)

definition resolved :: "OperationRow \<Rightarrow> instance_state \<Rightarrow> 's world \<Rightarrow> bool" where
  "resolved op s w \<longleftrightarrow> handed op s (w_db w) \<or> op_over (or_op_id op) (w_db w)"

lemma fail_closed_triple:
  assumes "rely (handed op s) E" and "rely (op_over (or_op_id op)) E"
  shows "triple (on_db (handed op s)) (fail_closed E op message) (\<lambda>_. resolved op s)"
proof -
  have "triple (\<lambda>w. ended op s I_Failed result r (w_db w))
      (case r of Inr fz \<Rightarrow> announce_outcome E op fz I_Failed None | Inl _ \<Rightarrow> return ()) (\<lambda>_. resolved op s)" for r result
  proof (cases r)
    case (Inl e)
    thus ?thesis by (auto intro!: triple_return simp: ended_def resolved_def)
  next
    case (Inr fz)
    show ?thesis unfolding Inr sum.case
      by (rule triple_post [OF announced_over [OF assms(2)]]) (simp add: resolved_def)
  qed
  thus ?thesis unfolding fail_closed_def
    by (rule triple_keeps_then [OF hand.step [OF assms(1)] triple_bind [OF finish_triple [OF assms(1)]]])
qed

lemma execute_triple:
  assumes "rely (handed (tk_op t) (tk_recorded t)) E" and "rely (op_over (or_op_id (tk_op t))) E"
  shows "triple (on_db (handed (tk_op t) (tk_recorded t))) (execute E t) (\<lambda>_. resolved (tk_op t) (tk_recorded t))"
proof -
  let ?op = "tk_op t" and ?s = "tk_recorded t"
  have ev: "triple (on_db (handed ?op ?s)) (record_event E ev) (\<lambda>_. resolved ?op ?s)" for ev
    by (rule triple_post [OF hand.event [OF assms(1), unfolded keeps_def]]) (simp add: on_db_def resolved_def)
  have ov: "triple (\<lambda>w. op_over (or_op_id ?op) (w_db w)) (record_event E ev) (\<lambda>_. resolved ?op ?s)" for ev
    by (rule triple_post [OF over.event [OF assms(2), unfolded keeps_def on_db_def]]) (simp add: resolved_def)
  have rotated: "triple (\<lambda>w. op_over (or_op_id ?op) (w_db w))
      (case (result, epoch) of (Inr _, Some n) \<Rightarrow> record_event E (f n) | _ \<Rightarrow> return ()) (\<lambda>_. resolved ?op ?s)"
    for result :: "op_error + unit" and epoch :: "int option" and f
    by (cases result; cases epoch) (auto intro: ov triple_return simp: resolved_def)
  have after: "triple (\<lambda>w. X w \<and> ended ?op ?s state result r (w_db w))
      (case r of
         Inl e \<Rightarrow> record_event E (g e)
       | Inr fz \<Rightarrow> do {
           announce_outcome E ?op fz state why;
           case (result, epoch) of (Inr _, Some n) \<Rightarrow> record_event E (f n) | _ \<Rightarrow> return () }) (\<lambda>_. resolved ?op ?s)"
    for r result state why f g and epoch :: "int option" and X :: "'a world \<Rightarrow> bool"
  proof (cases r)
    case (Inl e)
    show ?thesis unfolding Inl sum.case by (rule triple_pre [OF ev]) (simp add: on_db_def ended_def)
  next
    case (Inr fz)
    have "triple (\<lambda>w. X w \<and> ended ?op ?s state result (Inr fz) (w_db w)) (announce_outcome E ?op fz state why)
        (\<lambda>_ w. op_over (or_op_id ?op) (w_db w))"
      by (rule triple_pre [OF announced_over [OF assms(2)]]) (erule conjunct2)
    thus ?thesis unfolding Inr sum.case by (rule triple_bind) (rule rotated)
  qed
  show ?thesis unfolding execute_def Let_def
    by (rule triple_keeps_then [OF hand.issue [OF assms(1)]],
        rule triple_keeps_then [OF keeps_stamp_lease_state [OF assms(1)]],
        rule triple_case_sum, rule fail_closed_triple [OF assms],
        rule triple_bind [OF conclude_triple [OF assms(1)]], subst case_prod_unfold, subst case_prod_unfold,
        subst case_prod_unfold, rule after)
qed

text \<open>The executor keeps the invariant of the node.\<close>

lemma keeps_node_finish [keep_rules]:
  "rely node_ok E \<Longrightarrow> keeps (on_db node_ok) (finish E op state ttl why clear deg result)"
  unfolding finish_def by (rule keeps_db_call) (auto intro: node_intros)

lemma keeps_node_execute [keep_rules]:
  assumes "rely node_ok E"
  shows "keeps (on_db node_ok) (execute E t)"
proof -
  have rotated: "keeps (on_db node_ok) (case (result, epoch) of (Inr _, Some n) \<Rightarrow> record_event E (f n) | _ \<Rightarrow> return ())"
    for result :: "op_error + unit" and epoch :: "int option" and f
    by (cases result; cases epoch) (auto intro: keep_rules assms)
  have "keeps (on_db node_ok) (fail_closed E op message)" for op message
    unfolding fail_closed_def by (intro keep_rules node.narration assms)
  moreover have "keeps (on_db node_ok) (conclude E kind op payload recorded epoch)" for kind op payload recorded epoch
    unfolding conclude_def by (intro keep_rules node.narration assms)
  ultimately show ?thesis
    unfolding execute_def Let_def by (intro keep_rules node.narration rotated assms)
qed

section \<open>What a handler does not look at\<close>

text \<open>The primitive actions call nothing of the runtime or the guest themselves.\<close>

lemma blind_primitives [simp]:
  "others (en_runtime_update f E) = others E" "others (en_substrate_update g E) = others E" "others (en_guest_update h E) = others E"
  "await (en_runtime_update f E) x = await E x" "await (en_substrate_update g E) x = await E x" "await (en_guest_update h E) x = await E x"
  "now_ms (en_runtime_update f E) = now_ms E" "now_ms (en_substrate_update g E) = now_ms E" "now_ms (en_guest_update h E) = now_ms E"
  "db_call (en_runtime_update f E) c = db_call E c" "db_call (en_substrate_update g E) c = db_call E c"
  "db_call (en_guest_update h E) c = db_call E c"
  by (simp_all add: fun_eq_iff others_def await_def now_ms_def db_call_def)

lemma blind_statements [simp]:
  "db_read (en_runtime_update f E) c = db_read E c" "db_read (en_substrate_update g E) c = db_read E c"
  "db_read (en_guest_update h E) c = db_read E c"
  "db_write (en_runtime_update f E) d = db_write E d" "db_write (en_substrate_update g E) d = db_write E d"
  "db_write (en_guest_update h E) d = db_write E d"
  "record_event (en_runtime_update f E) ev = record_event E ev" "record_event (en_substrate_update g E) ev = record_event E ev"
  "record_event (en_guest_update h E) ev = record_event E ev"
  "say (en_runtime_update f E) words args = say E words args" "say (en_substrate_update g E) words args = say E words args"
  "say (en_guest_update h E) words args = say E words args"
  by (simp_all add: db_read_def db_write_def record_event_def say_def)

lemma blind_handlers:
  "step (E\<lparr>en_runtime := R, en_substrate := S, en_guest := G\<rparr>) op name = step E op name"
  "issue_epoch (E\<lparr>en_runtime := R, en_substrate := S, en_guest := G\<rparr>) kind iid = issue_epoch E kind iid"
  "stamp_lease_state (E\<lparr>en_runtime := R, en_substrate := S, en_guest := G\<rparr>) iid = stamp_lease_state E iid"
  "finish (E\<lparr>en_runtime := R, en_substrate := S, en_guest := G\<rparr>) op state ttl why clear deg result
   = finish E op state ttl why clear deg result"
  "fail_closed (E\<lparr>en_runtime := R, en_substrate := S, en_guest := G\<rparr>) op message = fail_closed E op message"
  by (simp_all add: step_def issue_epoch_def stamp_lease_state_def lease_state_for_def finish_def fail_closed_def announce_outcome_def
      cong: sum.case_cong option.case_cong if_cong)

section \<open>Properties\<close>

text \<open>
  C14: an executor settles its operation and its instance together, or leaves both as
  they were.  While the other tasks leave a claimed operation claimed and its instance
  where it is, the final transaction either commits, and then the claim is released,
  the operation is done or failed as the work was, or still cancelled, and the instance
  is in the state the outcome says; or it fails, and then everything is as before and a
  refusal means that the operation was cancelled and the measured state has no edge from
  the recorded one.  The announcements that follow undo none of it.
\<close>

theorem executor_settles:
  fixes E :: "'s env"
  assumes "rely (handed op recorded) E" and "rely (op_over (or_op_id op)) E"
  shows "triple (on_db (handed op recorded)) (conclude E kind op payload recorded epoch)
           (\<lambda>(result, state, why, r) w. state = landing kind recorded result \<and> ended op recorded state result r (w_db w))
       \<and> triple (on_db (handed op recorded))
           (execute E \<lparr>tk_kind = kind, tk_op = op, tk_payload = payload, tk_recorded = recorded\<rparr>) (\<lambda>_. resolved op recorded)"
proof
  show "triple (on_db (handed op recorded)) (conclude E kind op payload recorded epoch)
           (\<lambda>(result, state, why, r) w. state = landing kind recorded result \<and> ended op recorded state result r (w_db w))"
    by (rule triple_post [OF conclude_triple [OF assms(1)]]) (auto simp: case_prod_beta)
qed (use execute_triple [of "\<lparr>tk_kind = kind, tk_op = op, tk_payload = payload, tk_recorded = recorded\<rparr>" E] assms in simp)

definition sample_task :: task where
  "sample_task = \<lparr>tk_kind = K_Create, tk_op = sample_op, tk_payload = P_Create sample_spec, tk_recorded = I_Creating\<rparr>"

theorem executor_settles_witness:
  "\<exists>w'. run_state (execute sample_env sample_task) (sample_world sample_ops_journal ()) = ((), w')
      \<and> handed sample_op I_Creating sample_ops_journal \<and> resolved sample_op I_Creating w'"
proof -
  have start: "handed sample_op I_Creating sample_ops_journal"
    unfolding in_hand_def using sample_ops_journal_ok
    by (intro conjI) (assumption, simp_all add: held_op_def sample_ops_simps sample_op_def)
  have quiet: "rely I (sample_env :: unit env)" for I
    by (simp add: rely_def sample_env_def)
  obtain w' where w': "run_state (execute sample_env sample_task) (sample_world sample_ops_journal ()) = ((), w')"
    by (metis old.unit.exhaust surj_pair)
  have "resolved sample_op I_Creating w'"
    by (rule tripleD [OF executor_settles [OF quiet quiet, THEN conjunct2], OF _ w' [unfolded sample_task_def]])
      (simp add: on_db_def sample_world_def start)
  thus ?thesis using w' start by blast
qed

text \<open>
  C15: a run whose execution epoch could not be issued or bound never reaches the
  substrate: what the executor does is the same whatever the runtime and the guest
  would have answered.
\<close>

theorem epoch_failure_reaches_no_runtime:
  assumes "fst (run_state (issue_epoch E (tk_kind t) (or_instance_id (tk_op t))) w) = Inl message"
  shows "run_state (execute (E\<lparr>en_runtime := R, en_substrate := S, en_guest := G\<rparr>) t) w = run_state (execute E t) w"
  using assms
  by (auto simp: execute_def Let_def blind_handlers split: prod.splits)

theorem epoch_failure_reaches_no_runtime_witness:
  "\<exists>w'. run_state (execute (sample_env\<lparr>en_fault := (\<lambda>x. (Some ''io'', x)),
       en_runtime := sample_runtime\<lparr>rt_start := (\<lambda>_ _ _ x. (Inl (RE_Other ''no''), x + 1))\<rparr>, en_substrate := sample_substrate,
       en_guest := sample_guest\<rparr>) \<lparr>tk_kind = K_Start, tk_op = sample_op, tk_payload = P_Start, tk_recorded = I_Starting\<rparr>)
      (sample_world sample_ops_journal (0 :: nat)) = ((), w') \<and> w_ext w' = 0 \<and> w_db w' = sample_ops_journal"
proof -
  let ?E = "sample_env\<lparr>en_fault := (\<lambda>x. (Some ''io'', x))\<rparr> :: nat env"
  let ?t = "\<lparr>tk_kind = K_Start, tk_op = sample_op, tk_payload = P_Start, tk_recorded = I_Starting\<rparr>"
  have fails: "\<exists>m. run_state (issue_epoch ?E (tk_kind ?t) (or_instance_id (tk_op ?t))) (sample_world sample_ops_journal 0)
      = (Inl m, sample_world sample_ops_journal 0)"
    by (simp add: issue_epoch_def action_defs sample_env_def sample_world_def)
  then obtain m where m: "fst (run_state (issue_epoch ?E (tk_kind ?t) (or_instance_id (tk_op ?t))) (sample_world sample_ops_journal 0)) = Inl m"
    by auto
  have "run_state (execute ?E ?t) (sample_world sample_ops_journal 0) = ((), sample_world sample_ops_journal 0)"
    using fails by (auto simp: execute_def Let_def stamp_lease_state_def fail_closed_def step_def finish_def
        action_defs sample_env_def sample_world_def)
  thus ?thesis
    using epoch_failure_reaches_no_runtime [OF m, where R = "sample_runtime\<lparr>rt_start := (\<lambda>_ _ _ x. (Inl (RE_Other ''no''), x + 1))\<rparr>"
        and S = sample_substrate and G = sample_guest]
    by (simp add: sample_world_def)
qed

lemma run_bind_cong:
  assumes "yields m Q" and "\<And>a w. Q a \<Longrightarrow> run_state (f a) w = run_state (g a) w"
  shows "run_state (State_Monad.bind m f) w = run_state (State_Monad.bind m g) w"
  using assms by (auto simp: yields_def split: prod.splits) (metis fst_conv)

lemma yields_trivial: "yields m (\<lambda>_. True)"
  by (simp add: yields_def)

text \<open>
  C16: a resume that requires memory never boots cold: no answer of the runtime's start
  can make a difference to it.
\<close>

theorem required_memory_never_boots_cold:
  "run_state (resume_work (E\<lparr>en_runtime := (en_runtime E)\<lparr>rt_start := f\<rparr>\<rparr>) op sid True epoch deg) w
   = run_state (resume_work E op sid True epoch deg) w"
proof -
  let ?E = "E\<lparr>en_runtime := (en_runtime E)\<lparr>rt_start := f\<rparr>\<rparr>"
  have res: "resolve_restore ?E iid sid True = resolve_restore E iid sid True" for iid
    by (simp add: resolve_restore_def cong: option.case_cong if_cong)
  have hooks: "step ?E op name = step E op name" "degrade ?E iid oid deg msg = degrade E iid oid deg msg"
    "connect ?E row iid = connect E row iid" for name iid oid deg msg row
    by (simp_all add: step_def degrade_def connect_def)
  have duties: "restore_duties ?E op n deg = restore_duties E op n deg" for n deg
    by (simp add: restore_duties_def post_restore_def hooks cong: option.case_cong if_cong sum.case_cong)
  have warm: "yields (resolve_restore E iid sid True) (\<lambda>(_, d). \<forall>r y. d \<noteq> ColdBoot r y)" for iid
    unfolding resolve_restore_def
    by (intro yields_any yields_return) (auto simp: decide_def restore_fallback_def Let_def split: option.splits if_splits)
  show ?thesis
    unfolding resume_work_def Let_def res hooks duties
    by (rule run_bind_cong [OF yields_trivial], rule run_bind_cong [OF warm], subst case_prod_unfold, subst case_prod_unfold)
      (auto split: Restore.splits)
qed

text \<open>
  A cancelled fork has no way to finish: the branch comes up \<open>RUNNING\<close>, the target was
  recorded \<open>CREATING\<close>, and there is no such edge, so the finalize is refused and the claim
  stays until the next start of the node.
\<close>

lemma canceled_fork_cannot_finish:
  assumes "in_hand oid iid I_Creating db" and "map_option or_state (get_operation db oid) = Some Op_Canceled"
  shows "finish_operation db oid iid (landing K_Fork I_Creating (Inr ())) ttl why clear deg (Inr ()) now
         = Inl (CanceledMeasuredStateIllegal oid (Some I_Creating) I_Running)"
  using assms
  by (auto simp: finish_operation_cases [OF in_hand_schema [OF assms(1)]] Let_def in_hand_def get_operation_def operation_row_from_def
      landing_def success_state_def state_machine_defs split: option.splits)

end
