(* ===== verification/Op_Recover.thy ===== *)
theory Op_Recover
  imports Op_Outcome
begin

text \<open>
  \<open>ops.rs\<close>, the moves an operation makes outside its executor (waiting for input,
  being called off) and the recovery that runs before the server listens.
\<close>

section \<open>Waiting, resuming, cancelling\<close>

definition move_and_tell ::
  "'s env \<Rightarrow> OperationRow \<Rightarrow> (ms \<Rightarrow> journal \<Rightarrow> journal_error + journal) \<Rightarrow> string \<Rightarrow> ('s, db_error + unit) act" where
  "move_and_tell E op move msg = do {
     r \<leftarrow> db_call E (\<lambda>now db. map_sum id (Pair ()) (move now db));
     case r of
       Inl e \<Rightarrow> return (Inl e)
     | Inr _ \<Rightarrow> do {
         record_event E (op_progress (or_instance_id op) (or_op_id op) msg);
         return (Inr ()) } }"

definition await_input :: "'s env \<Rightarrow> OperationRow \<Rightarrow> string \<Rightarrow> ('s, db_error + unit) act" where
  "await_input E op prompt =
     move_and_tell E op (\<lambda>_ db. await_op_input db (or_op_id op) prompt) (''awaiting input: '' @ prompt)"

definition resume_with_input :: "'s env \<Rightarrow> OperationRow \<Rightarrow> string \<Rightarrow> ('s, db_error + unit) act" where
  "resume_with_input E op name =
     move_and_tell E op (\<lambda>_ db. resume_op_from_input db (or_op_id op) name) (''input received: '' @ name)"

definition cancel :: "'s env \<Rightarrow> OperationRow \<Rightarrow> string \<Rightarrow> ('s, db_error + unit) act" where
  "cancel E op reason =
     move_and_tell E op (\<lambda>now db. finish_op_canceled db (or_op_id op) reason now) (''canceled: '' @ reason)"

section \<open>Crash recovery\<close>

text \<open>Record a state and announce it; a failed statement ends the recovery.\<close>

definition settle_instance :: "'s env \<Rightarrow> instance_id \<Rightarrow> instance_state \<Rightarrow> ('s, db_error + unit) act" where
  "settle_instance E iid state = do {
     r \<leftarrow> db_write E (\<lambda>now db. set_instance_state db iid state now);
     case r of
       Inl e \<Rightarrow> return (Inl e)
     | Inr _ \<Rightarrow> do {
         record_event E (state_changed iid [] state None);
         return (Inr ()) } }"

definition recover_instance :: "'s env \<Rightarrow> InstanceRow \<Rightarrow> ('s, db_error + unit) act" where
  "recover_instance E row = do {
     let iid = ir_id row;
     case ir_state row of
       I_Stopping \<Rightarrow> do {
         r \<leftarrow> await E (rt_stop (en_runtime E) iid 0);
         case r of
           Inr _ \<Rightarrow> settle_instance E iid I_Stopped
         | Inl e \<Rightarrow> do {
             record_event E (degradation iid [] (say E ''crash recovery could not stop the sandbox'' [A_Runtime e]));
             settle_instance E iid I_Failed } }
     | I_Checkpointing \<Rightarrow> do {
         r \<leftarrow> settle_instance E iid I_Running;
         case r of
           Inl e \<Rightarrow> return (Inl e)
         | Inr _ \<Rightarrow> do {
             record_event E (degradation iid [] (say E ''the node restarted while a snapshot was being captured'' []));
             return (Inr ()) } }
     | I_Destroying \<Rightarrow> do {
         _ \<leftarrow> await E (rt_remove_orphan (en_substrate E) iid);
         settle_instance E iid I_Destroyed }
     | _ \<Rightarrow> do {
         _ \<leftarrow> await E (rt_remove_orphan (en_substrate E) iid);
         settle_instance E iid I_Failed } }"

fun recover_instances :: "'s env \<Rightarrow> InstanceRow list \<Rightarrow> ('s, db_error + unit) act" where
  "recover_instances E [] = return (Inr ())"
| "recover_instances E (row # rows) = do {
     r \<leftarrow> recover_instance E row;
     case r of Inl e \<Rightarrow> return (Inl e) | Inr _ \<Rightarrow> recover_instances E rows }"

text \<open>The zero-orphan sweep.\<close>

definition sweep_orphans :: "'s env \<Rightarrow> instance_id set \<Rightarrow> ('s, unit) act" where
  "sweep_orphans E known = do {
     r \<leftarrow> await E (rt_list_labeled (en_substrate E));
     case r of
       Inr labeled \<Rightarrow>
         for_each (\<lambda>iid. if iid \<in> known then return ()
                         else do { _ \<leftarrow> await E (rt_remove_orphan (en_substrate E) iid); return () }) labeled
     | Inl e \<Rightarrow> record_event E (degradation [] []
         (say E ''the zero-orphan sweep could not enumerate the substrate'' [A_Text (rt_name (en_runtime E)), A_Runtime e])) }"

definition known_instances :: "InstanceRow list \<Rightarrow> instance_id set" where
  "known_instances rows = set (map ir_id (filter (\<lambda>r. \<not> is_terminal (ir_state r)) rows))"

definition recover :: "'s env \<Rightarrow> ('s, db_error + unit) act" where
  "recover E = do {
     failed \<leftarrow> db_call E (\<lambda>now db. Inr (fail_inflight_ops db ''node agent restarted mid-operation'' now));
     case failed of
       Inl e \<Rightarrow> return (Inl e)
     | Inr ops \<Rightarrow> do {
         for_each (\<lambda>op. record_event E (op_progress (or_instance_id op) (or_op_id op) ''failed by crash recovery'')) ops;
         stuck \<leftarrow> db_read E transitional_instances;
         case stuck of
           Inl e \<Rightarrow> return (Inl e)
         | Inr rows \<Rightarrow> do {
             r \<leftarrow> recover_instances E rows;
             case r of
               Inl e \<Rightarrow> return (Inl e)
             | Inr _ \<Rightarrow> do {
                 listed \<leftarrow> db_read E list_instances;
                 case listed of
                   Inl e \<Rightarrow> return (Inl e)
                 | Inr rows \<Rightarrow> do {
                     sweep_orphans E (known_instances rows);
                     return (Inr ()) } } } } }"

section \<open>What recovery leaves behind\<close>

text \<open>The states recovery may leave an instance in, by the state it found.\<close>

fun recovery_states :: "instance_state \<Rightarrow> instance_state set" where
  "recovery_states I_Stopping = {I_Stopped, I_Failed}"
| "recovery_states I_Checkpointing = {I_Running}"
| "recovery_states I_Destroying = {I_Destroyed}"
| "recovery_states s = (if is_transitional s then {I_Failed} else {s})"

lemma recovery_rests: "s' \<in> recovery_states s \<Longrightarrow> \<not> is_transitional s'"
  by (cases s) auto

definition state_of :: "journal \<Rightarrow> instance_id \<Rightarrow> instance_state option" where
  "state_of db iid = map_option ir_state (get_instance db iid)"

lemma state_of_set_instance_state:
  "state_of (set_instance_state db iid s now) k = (if k = iid then map_option (\<lambda>_. s) (state_of db iid) else state_of db k)"
  using set_instance_state_effect [of db iid s now k]
  by (cases "get_instance db iid") (auto simp: state_of_def)

text \<open>Recovery under way: the instances in \<open>todo\<close> are as they were found, the others resolved.\<close>

definition recovered :: "bool \<Rightarrow> instance_state option \<Rightarrow> instance_state option \<Rightarrow> bool" where
  "recovered waits before after =
     (case before of
        None \<Rightarrow> after = None
      | Some s \<Rightarrow> if waits then after = Some s else (\<exists>s'. after = Some s' \<and> s' \<in> recovery_states s))"

definition recovering :: "journal \<Rightarrow> instance_id set \<Rightarrow> journal \<Rightarrow> bool" where
  "recovering db0 todo db \<longleftrightarrow> schema_ok db \<and> (\<forall>r \<in> set (j_operations db). \<not> op_is_in_flight (oc_state r) \<and> \<not> oc_executor_active r)
     \<and> (\<forall>iid. recovered (iid \<in> todo) (state_of db0 iid) (state_of db iid))"

definition alone :: "'s env \<Rightarrow> bool" where
  "alone E \<longleftrightarrow> (\<forall>w. en_others E w = w)"

lemma alone_rely: "alone E \<Longrightarrow> rely I E"
  by (simp add: alone_def rely_def)

lemma recovering_event:
  assumes "recovering db0 todo db"
  shows "recovering db0 todo (snd (insert_event db ev now))"
proof -
  have "state_of (snd (insert_event db ev now)) iid = state_of db iid" for iid
    by (simp add: state_of_def get_instance_def insert_event_def Let_def)
  moreover have "j_operations (snd (insert_event db ev now)) = j_operations db"
    by (simp add: insert_event_def Let_def)
  ultimately show ?thesis
    using assms schema_ok_events(1) [of db ev now] unfolding recovering_def by simp
qed

lemma keeps_recovering_event: "alone E \<Longrightarrow> keeps (on_db (recovering db0 todo)) (record_event E ev)"
  by (rule keeps_record_event) (simp_all add: alone_rely recovering_event)

lemma recovering_settled:
  assumes "recovering db0 (insert iid todo) db" and "iid \<notin> todo" and "state_of db0 iid = Some s" and "s' \<in> recovery_states s"
  shows "recovering db0 todo (set_instance_state db iid s' now)"
proof -
  let ?db = "set_instance_state db iid s' now"
  have inv: "recovered (k \<in> insert iid todo) (state_of db0 k) (state_of db k)" for k
    using assms(1) by (simp add: recovering_def)
  have "recovered (k \<in> todo) (state_of db0 k) (state_of ?db k)" for k
    using inv [of iid] inv [of k] assms(2-4) by (cases "k = iid") (simp_all add: recovered_def state_of_set_instance_state)
  moreover have "j_operations ?db = j_operations db"
    by (simp add: set_instance_state_def Let_def)
  ultimately show ?thesis
    using assms(1) unfolding recovering_def by (simp add: schema_ok_set_instance_state)
qed

text \<open>A recovery step ends well or not at all.\<close>

abbreviation when_done :: "('s world \<Rightarrow> bool) \<Rightarrow> db_error + unit \<Rightarrow> 's world \<Rightarrow> bool" where
  "when_done P r w \<equiv> r = Inr () \<longrightarrow> P w"

lemma settle_instance_triple:
  assumes "alone E" and "iid \<notin> todo" and "state_of db0 iid = Some s" and "s' \<in> recovery_states s"
  shows "triple (on_db (recovering db0 (insert iid todo))) (settle_instance E iid s') (when_done (on_db (recovering db0 todo)))"
proof -
  have "triple (on_db (recovering db0 (insert iid todo))) (db_write E (\<lambda>now db. set_instance_state db iid s' now))
      (\<lambda>r. if isl r then (\<lambda>_. True) else on_db (recovering db0 todo))"
    unfolding db_write_def
    by (rule triple_db_call [OF undisturbed_on_db [OF alone_rely [OF assms(1)]]])
      (auto simp: on_db_def intro: recovering_settled [OF _ assms(2-4)])
  moreover have "triple (if isl r then (\<lambda>_. True) else on_db (recovering db0 todo))
      (case r of Inl e \<Rightarrow> return (Inl e) | Inr _ \<Rightarrow> do { record_event E ev; return (Inr ()) })
      (when_done (on_db (recovering db0 todo)))" for r :: "db_error + unit" and ev
    using keeps_recovering_event [OF assms(1), of db0 todo ev]
    by (cases r) (auto intro!: triple_return triple_keeps_then)
  ultimately show ?thesis unfolding settle_instance_def by (rule triple_bind)
qed

lemma recover_instance_triple:
  assumes "alone E" and "ir_id row \<notin> todo" and "state_of db0 (ir_id row) = Some (ir_state row)" and "is_transitional (ir_state row)"
  shows "triple (on_db (recovering db0 (insert (ir_id row) todo))) (recover_instance E row) (when_done (on_db (recovering db0 todo)))"
proof -
  note settle = settle_instance_triple [OF assms(1-3)]
  note told = keeps_recovering_event [OF assms(1)]
  note wait = keeps_await [OF alone_rely [OF assms(1)]]
  have checkpoint: "triple (on_db (recovering db0 (insert (ir_id row) todo)))
      (do { r \<leftarrow> settle_instance E (ir_id row) I_Running;
            case r of Inl e \<Rightarrow> return (Inl e) | Inr _ \<Rightarrow> do { record_event E ev; return (Inr ()) } })
      (when_done (on_db (recovering db0 todo)))" if "ir_state row = I_Checkpointing" for ev
  proof (rule triple_bind [OF settle])
    show "triple (when_done (on_db (recovering db0 todo)) r)
        (case r of Inl e \<Rightarrow> return (Inl e) | Inr _ \<Rightarrow> do { record_event E ev; return (Inr ()) })
        (when_done (on_db (recovering db0 todo)))" for r
      by (cases r) (auto intro!: triple_return triple_keeps_then told)
  qed (simp add: that)
  show ?thesis unfolding recover_instance_def Let_def
    using assms(4)
    by (cases "ir_state row")
      (auto intro!: triple_keeps_then wait told settle checkpoint triple_case_sum split: sum.split)
qed

lemma recover_instances_triple:
  assumes "alone E" and "distinct (map ir_id rows)"
    and "\<forall>row \<in> set rows. state_of db0 (ir_id row) = Some (ir_state row) \<and> is_transitional (ir_state row)"
  shows "triple (on_db (recovering db0 (ir_id ` set rows))) (recover_instances E rows) (when_done (on_db (recovering db0 {})))"
  using assms(2,3)
proof (induction rows)
  case Nil
  show ?case by (auto intro: triple_return)
next
  case (Cons row rows)
  have first: "triple (on_db (recovering db0 (ir_id ` set (row # rows)))) (recover_instance E row)
      (when_done (on_db (recovering db0 (ir_id ` set rows))))"
    using recover_instance_triple [OF assms(1), of row "ir_id ` set rows" db0] Cons.prems by simp
  have rest: "triple (when_done (on_db (recovering db0 (ir_id ` set rows))) r)
      (case r of Inl e \<Rightarrow> return (Inl e) | Inr _ \<Rightarrow> recover_instances E rows) (when_done (on_db (recovering db0 {})))" for r
    using Cons by (cases r) (auto intro: triple_return)
  show ?case unfolding recover_instances.simps by (rule triple_bind [OF first rest])
qed

lemma stuck_instances:
  assumes "schema_ok db"
  shows "distinct (map ir_id (transitional_instances db))"
    and "row \<in> set (transitional_instances db) \<Longrightarrow> state_of db (ir_id row) = Some (ir_state row) \<and> is_transitional (ir_state row)"
    and "state_of db iid = Some s \<Longrightarrow> iid \<notin> ir_id ` set (transitional_instances db) \<Longrightarrow> \<not> is_transitional s"
proof -
  have "\<forall>r \<in> set (j_instances db). ir_id (instance_row_from r) = ic_instance_id r"
    using assms by (auto simp: instance_row_from_def schema_ok_def)
  hence "distinct (map ir_id (list_instances db))"
    using assms by (simp add: list_instances_def schema_ok_def unique_keys_def distinct_map comp_def inj_on_def)
  thus "distinct (map ir_id (transitional_instances db))"
    by (simp add: transitional_instances_def distinct_map_filter)
  show "row \<in> set (transitional_instances db) \<Longrightarrow> state_of db (ir_id row) = Some (ir_state row) \<and> is_transitional (ir_state row)"
    using list_instances_get [OF assms, of row] by (auto simp: transitional_instances_def state_of_def)
  show "\<not> is_transitional s" if "state_of db iid = Some s" "iid \<notin> ir_id ` set (transitional_instances db)"
  proof -
    from that(1) obtain i where i: "get_instance db iid = Some i" "ir_state i = s" by (auto simp: state_of_def)
    hence "i \<in> set (list_instances db)"
      using row_with_Some_in [of ic_instance_id iid "j_instances db"] by (auto simp: get_instance_def list_instances_def)
    thus ?thesis using that(2) i get_instance_id [OF assms i(1)] by (force simp: transitional_instances_def)
  qed
qed

text \<open>The instances recovery does not have to resolve are already where it would leave them.\<close>

lemma recovery_starts:
  assumes "schema_ok db0" and "schema_ok db" and "\<And>iid. state_of db iid = state_of db0 iid"
    and "\<forall>r \<in> set (j_operations db). \<not> op_is_in_flight (oc_state r) \<and> \<not> oc_executor_active r"
  shows "recovering db0 (ir_id ` set (transitional_instances db0)) db"
proof -
  have "recovered (iid \<in> ir_id ` set (transitional_instances db0)) (state_of db0 iid) (state_of db0 iid)" for iid
  proof (cases "state_of db0 iid")
    case (Some s)
    thus ?thesis using stuck_instances(3) [OF assms(1) Some] by (cases s) (auto simp: recovered_def)
  qed (simp add: recovered_def)
  thus ?thesis using assms(2-4) by (simp add: recovering_def)
qed

lemma triple_db_read:
  assumes "undisturbed P E" and "\<And>w. P w \<Longrightarrow> Q (Inr (f (w_db w))) w" and "\<And>e w. P w \<Longrightarrow> Q (Inl e) w"
  shows "triple P (db_read E f) Q"
proof -
  have same: "w\<lparr>w_db := w_db w\<rparr> = w" for w :: "'a world" by simp
  show ?thesis unfolding db_read_def
    by (rule triple_db_call [OF assms(1)]) (auto simp: same intro: assms(2,3))
qed

lemma keeps_recovering_sweep: "alone E \<Longrightarrow> keeps (on_db (recovering db0 todo)) (sweep_orphans E known)"
  unfolding sweep_orphans_def
  by (intro keep_rules keeps_recovering_event alone_rely) simp_all

lemma still_stuck:
  assumes "schema_ok db0" and "recovering db0 (ir_id ` set (transitional_instances db0)) db"
  shows "ir_id ` set (transitional_instances db) = ir_id ` set (transitional_instances db0)"
    and "row \<in> set (transitional_instances db) \<Longrightarrow> state_of db0 (ir_id row) = Some (ir_state row)"
proof -
  let ?todo = "\<lambda>db. ir_id ` set (transitional_instances db)"
  have ok: "schema_ok db" and inv: "recovered (k \<in> ?todo db0) (state_of db0 k) (state_of db k)" for k
    using assms(2) by (simp_all add: recovering_def)
  have found: "k \<in> ?todo d \<longleftrightarrow> (\<exists>s. state_of d k = Some s \<and> is_transitional s)" if "schema_ok d" for d k
    using stuck_instances(2,3) [OF that] by fastforce
  have same: "state_of db k = state_of db0 k \<or> (k \<notin> ?todo db0 \<and> k \<notin> ?todo db)" for k
    using inv [of k] recovery_rests found [OF ok, of k] by (auto simp: recovered_def split: option.splits if_splits)
  show eq: "?todo db = ?todo db0"
  proof (rule set_eqI)
    show "k \<in> ?todo db \<longleftrightarrow> k \<in> ?todo db0" for k
      using same [of k] unfolding found [OF ok] found [OF assms(1)]
      by (cases "state_of db k = state_of db0 k") auto
  qed
  show "state_of db0 (ir_id row) = Some (ir_state row)" if "row \<in> set (transitional_instances db)"
    using same [of "ir_id row"] stuck_instances(2) [OF ok that] that by auto
qed

text \<open>A step whose failure ends the recovery.\<close>

lemma triple_or_error:
  assumes "\<And>a. triple (X a) (g a) (when_done P)"
  shows "triple (\<lambda>w. isl r \<or> X (projr r) w) (case r of Inl e \<Rightarrow> return (Inl e) | Inr a \<Rightarrow> g a) (when_done P)"
  using assms by (cases r) (auto intro: triple_return)

lemma triple_done_or_error:
  assumes "triple Q m (when_done P)"
  shows "triple (when_done Q r) (case r of Inl e \<Rightarrow> return (Inl e) | Inr _ \<Rightarrow> m) (when_done P)"
  using assms by (cases r) (auto intro: triple_return)

lemma recover_triple:
  assumes "alone E" and "schema_ok db0" and "\<forall>r \<in> set (j_operations db0). oc_executor_active r \<longrightarrow> op_is_in_flight (oc_state r)"
  shows "triple (\<lambda>w. w_db w = db0) (recover E) (when_done (on_db (recovering db0 {})))"
proof -
  let ?todo = "ir_id ` set (transitional_instances db0)"
  let ?R = "recovering db0"
  note quiet = undisturbed_on_db [OF alone_rely [OF assms(1)]]
  have start: "undisturbed (\<lambda>w. w_db w = db0) E"
    using assms(1) by (simp add: undisturbed_def alone_def)
  have failed: "triple (\<lambda>w. w_db w = db0) (db_call E (\<lambda>now db. Inr (fail_inflight_ops db msg now))) (\<lambda>r w. isl r \<or> on_db (?R ?todo) w)" for msg
  proof (rule triple_db_call [OF start])
    have "?R ?todo (snd (fail_inflight_ops db0 msg now))" for now
      by (rule recovery_starts [OF assms(2) schema_ok_fail_inflight_ops [OF assms(2)]])
        (use assms(3) in \<open>auto simp: fail_inflight_operations [OF assms(2)] state_of_def get_instance_def set_sql_update\<close>)
    thus "isl (Inr a) \<or> on_db (?R ?todo) (w\<lparr>w_db := db\<rparr>)"
      if "w_db w = db0" "Inr (fail_inflight_ops (w_db w) msg now) = Inr (a, db)" for now w a db
      using that by (metis Inr_inject on_db_def snd_conv world.select_convs(1) world.surjective world.update_convs(1))
  qed simp
  have stuck: "triple (on_db (?R ?todo)) (db_read E transitional_instances)
      (\<lambda>r w. isl r \<or> (on_db (?R (ir_id ` set (projr r))) w \<and> distinct (map ir_id (projr r))
         \<and> (\<forall>row \<in> set (projr r). state_of db0 (ir_id row) = Some (ir_state row) \<and> is_transitional (ir_state row))))"
  proof (rule triple_db_read [OF quiet])
    fix w :: "'a world"
    assume "on_db (?R ?todo) w"
    hence R: "?R ?todo (w_db w)" and ok: "schema_ok (w_db w)" by (simp_all add: on_db_def recovering_def)
    show "isl (Inr (transitional_instances (w_db w))) \<or> (on_db (?R (ir_id ` set (projr (Inr (transitional_instances (w_db w)))))) w
        \<and> distinct (map ir_id (projr (Inr (transitional_instances (w_db w)))))
        \<and> (\<forall>row \<in> set (projr (Inr (transitional_instances (w_db w)))).
             state_of db0 (ir_id row) = Some (ir_state row) \<and> is_transitional (ir_state row)))"
      using R still_stuck [OF assms(2) R] stuck_instances(1,2) [OF ok] by (simp add: on_db_def)
  qed simp
  have sweep: "triple (on_db (?R {})) (do { sweep_orphans E known; return (Inr ()) }) (when_done (on_db (?R {})))" for known
    by (rule triple_keeps_then [OF keeps_recovering_sweep [OF assms(1)]]) (simp add: triple_return)
  have listed: "triple (on_db (?R {})) (db_read E list_instances) (\<lambda>r w. isl r \<or> on_db (?R {}) w)"
    by (rule triple_db_read [OF quiet]) simp_all
  have tail: "triple (on_db (?R {})) (do { listed \<leftarrow> db_read E list_instances;
      case listed of Inl e \<Rightarrow> return (Inl e)
      | Inr rows \<Rightarrow> do { sweep_orphans E (known_instances rows); return (Inr ()) } }) (when_done (on_db (?R {})))"
    by (rule triple_bind [OF listed], rule triple_or_error [where X = "\<lambda>_. on_db (?R {})"]) (rule sweep)
  have resolve: "triple (\<lambda>w. on_db (?R (ir_id ` set rows)) w \<and> distinct (map ir_id rows)
        \<and> (\<forall>row \<in> set rows. state_of db0 (ir_id row) = Some (ir_state row) \<and> is_transitional (ir_state row)))
      (recover_instances E rows) (when_done (on_db (?R {})))" for rows
    using recover_instances_triple [OF assms(1), of rows db0] by (auto simp: triple_def)
  have ops: "keeps (on_db (?R ?todo)) (for_each (\<lambda>op. record_event E (f op)) ops)" for f and ops :: "OperationRow list"
    by (intro keep_rules keeps_recovering_event assms(1))
  show ?thesis unfolding recover_def
    by (rule triple_bind [OF failed], rule triple_or_error [where X = "\<lambda>_. on_db (?R ?todo)"],
        rule triple_keeps_then [OF ops], rule triple_bind [OF stuck], rule triple_or_error,
        rule triple_bind [OF resolve], rule triple_done_or_error, rule tail)
qed

lemma recovered_now:
  "recovered False before after \<longleftrightarrow>
     (case before of None \<Rightarrow> after = None | Some s \<Rightarrow> \<exists>s'. after = Some s' \<and> s' \<in> recovery_states s)"
  by (cases before) (simp_all add: recovered_def)

lemma recovering_final:
  assumes "recovering db0 {} db"
  shows "transitional_instances db = []" and "\<not> has_inflight_op db iid"
proof -
  have ok: "schema_ok db" and inv: "recovered False (state_of db0 k) (state_of db k)" for k
    using assms by (simp_all add: recovering_def)
  have "\<not> is_transitional s" if "state_of db k = Some s" for k s
    using inv [of k] that recovery_rests by (auto simp: recovered_def split: option.splits)
  thus "transitional_instances db = []"
    using stuck_instances(2) [OF ok] by (metis list.set_intros(1) neq_Nil_conv)
  show "\<not> has_inflight_op db iid"
    using assms by (auto simp: recovering_def has_inflight_op_iff)
qed

section \<open>Without faults\<close>

definition faultless :: "'s env \<Rightarrow> bool" where
  "faultless E \<longleftrightarrow> (\<forall>x. fst (en_fault E x) = None)"

lemma yields_db_call_total:
  assumes "faultless E" and "\<And>now db. \<exists>a db'. f now db = Inr (a, db')"
  shows "yields (db_call E f) (\<lambda>r. \<not> isl r)"
proof -
  have step: "yields (case fault of Some e \<Rightarrow> return (Inl (DE_Fault e))
          | None \<Rightarrow> State (\<lambda>w. case f now (w_db w) of
              Inl e \<Rightarrow> (Inl (DE_Refused e), w) | Inr (a, db) \<Rightarrow> (Inr a, w\<lparr>w_db := db\<rparr>))) (\<lambda>r. \<not> isl r)"
    if "fault = None" for fault now
    using assms(2) that unfolding yields_def by (auto split: sum.splits prod.splits) (metis Inl_Inr_False)+
  have sound: "yields (extern (en_fault E)) (\<lambda>fault. fault = None)"
    by (rule yields_extern) (use assms(1) in \<open>simp add: faultless_def\<close>)
  show ?thesis unfolding db_call_def
    by (rule yields_any, rule yields_any, rule yields_bind [OF sound], rule step)
qed

lemma yields_db_write_total: "faultless E \<Longrightarrow> yields (db_write E f) (\<lambda>r. r = Inr ())"
  unfolding db_write_def by (rule yields_post [OF yields_db_call_total]) (auto simp: isl_def, metis old.unit.exhaust sum.exhaust)

lemma yields_db_read_total: "faultless E \<Longrightarrow> yields (db_read E f) (\<lambda>r. \<not> isl r)"
  unfolding db_read_def by (rule yields_db_call_total) auto

lemma yields_settle_instance: "faultless E \<Longrightarrow> yields (settle_instance E iid s) (\<lambda>r. r = Inr ())"
  unfolding settle_instance_def by (rule yields_bind [OF yields_db_write_total]) (auto intro: yields_any yields_return)

lemma yields_recover_instance: "faultless E \<Longrightarrow> yields (recover_instance E row) (\<lambda>r. r = Inr ())"
proof -
  assume f: "faultless E"
  have "yields (do { r \<leftarrow> settle_instance E iid I_Running;
      case r of Inl e \<Rightarrow> return (Inl e) | Inr _ \<Rightarrow> do { record_event E ev; return (Inr ()) } }) (\<lambda>r. r = Inr ())" for iid ev
    by (rule yields_bind [OF yields_settle_instance [OF f]]) (simp add: yields_any yields_return)
  thus ?thesis unfolding recover_instance_def Let_def
    by (cases "ir_state row") (auto intro!: yields_any yields_case_sum yields_settle_instance f)
qed

lemma yields_recover_instances: "faultless E \<Longrightarrow> yields (recover_instances E rows) (\<lambda>r. r = Inr ())"
  by (induction rows) (auto intro!: yields_return yields_bind [OF yields_recover_instance])

lemma yields_recover:
  assumes "faultless E"
  shows "yields (recover E) (\<lambda>r. r = Inr ())"
proof -
  have unless: "yields (case r of Inl e \<Rightarrow> return (Inl e) | Inr a \<Rightarrow> g a) Q" if "\<not> isl r" "\<And>a. yields (g a) Q" for r g Q
    using that by (cases r) auto
  show ?thesis unfolding recover_def
    by (rule yields_bind [OF yields_db_call_total [OF assms]], simp, rule unless, assumption, rule yields_any,
        rule yields_bind [OF yields_db_read_total [OF assms]], rule unless, assumption,
        rule yields_bind [OF yields_recover_instances [OF assms]], simp,
        rule yields_bind [OF yields_db_read_total [OF assms]], rule unless, assumption, rule yields_any)
      (simp add: yields_return)
qed

section \<open>The node's invariant\<close>

lemma keeps_node_settle [keep_rules]: "rely node_ok E \<Longrightarrow> keeps (on_db node_ok) (settle_instance E iid s)"
  unfolding settle_instance_def by (intro keep_rules keeps_db_write node_ok_set_instance_state)

lemma keeps_node_recover_instance [keep_rules]: "rely node_ok E \<Longrightarrow> keeps (on_db node_ok) (recover_instance E row)"
  unfolding recover_instance_def Let_def by (cases "ir_state row") (auto intro!: keep_rules)

lemma keeps_node_recover [keep_rules]:
  assumes "rely node_ok E"
  shows "keeps (on_db node_ok) (recover E)"
proof -
  have "keeps (on_db node_ok) (recover_instances E rows)" for rows
    by (induction rows) (auto intro!: keep_rules assms)
  thus ?thesis
    unfolding recover_def sweep_orphans_def
    by (intro keep_rules keeps_db_call assms) (metis Inr_inject node_ok_fail_inflight_ops snd_conv)
qed

lemma keeps_node_moves [keep_rules]:
  assumes "rely node_ok E"
  shows "keeps (on_db node_ok) (await_input E op prompt)" and "keeps (on_db node_ok) (resume_with_input E op name)"
    and "keeps (on_db node_ok) (cancel E op reason)"
  unfolding await_input_def resume_with_input_def cancel_def move_and_tell_def
  by (intro keep_rules keeps_db_call assms, auto dest: node_ok_await_op_input node_ok_resume_op_from_input node_ok_finish_op_canceled)+

section \<open>Properties\<close>

lemma open_journal_claims: "\<forall>r \<in> set (j_operations (open_journal db)). oc_executor_active r \<longrightarrow> op_is_in_flight (oc_state r)"
  by (auto simp: open_journal_def set_sql_update)

lemma state_of_open [simp]: "state_of (open_journal db) iid = state_of db iid"
  by (simp add: state_of_def get_instance_def open_journal_def)

definition resolved_from :: "journal \<Rightarrow> journal \<Rightarrow> bool" where
  "resolved_from db db' \<longleftrightarrow>
     (\<forall>oid op. get_operation db' oid = Some op \<longrightarrow> \<not> op_is_in_flight (or_state op))
   \<and> (\<forall>iid. \<not> has_inflight_op db' iid) \<and> transitional_instances db' = []
   \<and> (\<forall>iid. case state_of db iid of
        None \<Rightarrow> state_of db' iid = None
      | Some s \<Rightarrow> \<exists>s'. state_of db' iid = Some s' \<and> s' \<in> recovery_states s)"

text \<open>
  C17: crash recovery resolves everything, in one way.  Started on a reopened journal
  before anything else runs, a recovery that returns leaves no operation in flight, no
  claim on any instance and no instance in a transitional state: a capture goes back to
  running, a destroy to destroyed, a stop to stopped or failed, everything else that was
  under way to failed, and an instance at rest stays where it was.  It returns whenever
  no statement on the journal fails, whatever the runtime answers.
\<close>

theorem crash_recovery_resolves:
  assumes "alone E" and "schema_ok db"
  shows "triple (\<lambda>w. w_db w = open_journal db) (recover E) (\<lambda>r w. r = Inr () \<longrightarrow> resolved_from db (w_db w))
       \<and> (faultless E \<longrightarrow> yields (recover E) (\<lambda>r. r = Inr ()))"
proof
  have "resolved_from db db'" if "recovering (open_journal db) {} db'" for db'
    using that recovering_final [OF that] row_with_Some_in [of oc_op_id _ "j_operations db'"]
    by (auto simp: resolved_from_def recovering_def recovered_now get_operation_def operation_row_from_def)
  thus "triple (\<lambda>w. w_db w = open_journal db) (recover E) (\<lambda>r w. r = Inr () \<longrightarrow> resolved_from db (w_db w))"
    by (intro triple_post [OF recover_triple [OF assms(1) schema_ok_open_journal [OF assms(2)] open_journal_claims]])
      (simp add: on_db_def)
qed (use yields_recover in blast)

theorem crash_recovery_resolves_witness:
  "\<exists>w'. run_state (recover sample_env) (sample_world (open_journal sample_ops_journal) ()) = (Inr (), w')
      \<and> has_inflight_op (open_journal sample_ops_journal) ''i1'' \<and> resolved_from sample_ops_journal (w_db w')"
proof -
  have quiet: "alone (sample_env :: unit env)" "faultless (sample_env :: unit env)"
    by (simp_all add: alone_def faultless_def sample_env_def)
  note main = crash_recovery_resolves [OF quiet(1) sample_ops_journal_ok]
  obtain r w' where run: "run_state (recover sample_env) (sample_world (open_journal sample_ops_journal) ()) = (r, w')"
    by (metis surj_pair)
  have "yields (recover (sample_env :: unit env)) (\<lambda>r. r = Inr ())" using main quiet(2) by blast
  hence r: "r = Inr ()" by (rule yieldsD [OF _ run])
  have "r = Inr () \<longrightarrow> resolved_from sample_ops_journal (w_db w')"
    by (rule tripleD [OF conjunct1 [OF main] _ run]) (simp add: sample_world_def)
  moreover have "has_inflight_op (open_journal sample_ops_journal) ''i1''"
    by (simp add: has_inflight_op_def open_journal_def sample_ops_simps sql_changed_def)
  ultimately show ?thesis using run r by blast
qed

text \<open>
  The sweep for orphans removes nothing the registry still knows: what the substrate
  would do on the removal of a known instance's sandbox makes no difference to it.
\<close>

theorem sweep_spares_known:
  assumes "\<forall>iid. iid \<notin> known \<longrightarrow> f iid = rt_remove_orphan (en_substrate E) iid"
  shows "run_state (sweep_orphans (E\<lparr>en_substrate := (en_substrate E)\<lparr>rt_remove_orphan := f\<rparr>\<rparr>) known) w
         = run_state (sweep_orphans E known) w"
proof -
  let ?E = "E\<lparr>en_substrate := (en_substrate E)\<lparr>rt_remove_orphan := f\<rparr>\<rparr>"
  have "for_each (\<lambda>iid. if iid \<in> known then return ()
            else do { _ \<leftarrow> await E (f iid); return () }) labeled
      = for_each (\<lambda>iid. if iid \<in> known then return ()
            else do { _ \<leftarrow> await E (rt_remove_orphan (en_substrate E) iid); return () }) labeled" for labeled
    using assms by (induction labeled) auto
  thus ?thesis by (simp add: sweep_orphans_def cong: sum.case_cong if_cong)
qed

theorem sweep_spares_known_witness:
  "run_state (sweep_orphans (sample_env\<lparr>en_substrate := sample_substrate\<lparr>rt_remove_orphan :=
      (\<lambda>iid x. (Inr (), if iid = ''i1'' then x + 1 else x))\<rparr>\<rparr>) {''i1''}) (sample_world sample_journal (0 :: nat))
   = run_state (sweep_orphans sample_env {''i1''}) (sample_world sample_journal (0 :: nat))"
proof -
  have "\<forall>iid. iid \<notin> {''i1''} \<longrightarrow>
      (\<lambda>x :: nat. (Inr (), if iid = ''i1'' then x + 1 else x)) = rt_remove_orphan (en_substrate sample_env) iid"
    by (simp add: sample_env_def sample_substrate_def)
  from sweep_spares_known [OF this, of "sample_world sample_journal 0"]
  show ?thesis by (simp add: sample_env_def)
qed

end
