(* ===== verification/Fleet_Phase.thy ===== *)
theory Fleet_Phase
  imports Fleet_Policy Op_Recover
begin

text \<open>
  \<open>fleet_phase.rs\<close>: one pass of a node over the sessions of its fleet (renew, fence,
  release, acquire, materialise) and the recovery of what it remembers to own.

  \<open>Fleet::lease_writes\<close> serialises the node's own writes to a lease; the tasks that may
  hold it run as \<open>others\<close> before it is taken.
\<close>

section \<open>Report\<close>

record PassReport =
  ps_renewed :: nat
  ps_fenced :: nat
  ps_acquired :: nat
  ps_materialised :: nat
  ps_held_without_materialising :: nat
  ps_refused :: nat
  ps_released :: nat
  ps_superseded :: nat
  ps_backend_unavailable :: bool

definition empty_report :: PassReport where
  "empty_report = \<lparr>ps_renewed = 0, ps_fenced = 0, ps_acquired = 0, ps_materialised = 0,
     ps_held_without_materialising = 0, ps_refused = 0, ps_released = 0, ps_superseded = 0,
     ps_backend_unavailable = False\<rparr>"

fun fold_each :: "('a \<Rightarrow> 'b \<Rightarrow> ('s, 'b) act) \<Rightarrow> 'a list \<Rightarrow> 'b \<Rightarrow> ('s, 'b) act" where
  "fold_each f [] b = return b"
| "fold_each f (x # xs) b = do { b' \<leftarrow> f x b; fold_each f xs b' }"

section \<open>Fencing\<close>

definition self_fence :: "'s env \<Rightarrow> string \<Rightarrow> instance_id \<Rightarrow> ('s, unit) act" where
  "self_fence E name iid = do {
     record_event E (fenced iid (say E ''session is owned by another node now'' [A_Text name]));
     if iid = []
     then record_event E (degradation [] [] (say E ''session was fenced but its lease named no instance'' [A_Text name]))
     else do {
       _ \<leftarrow> submit E K_Stop iid (''fence-'' @ name @ ''-'' @ iid) (P_Stop 5);
       return () } }"

definition fence_and_confirm :: "'s env \<Rightarrow> string \<Rightarrow> instance_id \<Rightarrow> ('s, unit) act" where
  "fence_and_confirm E name iid = do {
     _ \<leftarrow> db_write E (\<lambda>_ db. mark_lease_fencing db name);
     self_fence E name iid;
     if iid = [] then do { _ \<leftarrow> db_write E (\<lambda>_ db. release_lease db name); return () }
     else do {
       r \<leftarrow> db_read E (\<lambda>db. get_instance db iid);
       let stopped = (case found r of
                        Some row \<Rightarrow> ir_state row \<in> {I_Stopped, I_Destroyed, I_Paused} | None \<Rightarrow> True);
       if stopped then do { _ \<leftarrow> db_write E (\<lambda>_ db. release_lease db name); return () } else return () } }"

section \<open>Renewal\<close>

type_synonym renewals = "PassReport \<times> bool \<times> (string \<times> instance_id) list"

definition apply_renewal ::
  "string \<Rightarrow> version Held \<Rightarrow> renewals \<Rightarrow> fleet_error + version Renewed \<Rightarrow> ('s, renewals) act" where
  "apply_renewal name current acc outcome = (case acc of (report, reached, fenced_names) \<Rightarrow>
     (case outcome of
        Inr (Ren_Held next) \<Rightarrow> do {
          hold_name name next;
          return (report\<lparr>ps_renewed := ps_renewed report + 1\<rparr>, True, fenced_names) }
      | Inr Ren_Fenced \<Rightarrow> do {
          drop_name name;
          return (report\<lparr>ps_fenced := ps_fenced report + 1\<rparr>, True,
                  fenced_names @ [(name, ls_instance_id (held_lease_of current))]) }
      | Inl _ \<Rightarrow> return (report\<lparr>ps_backend_unavailable := True\<rparr>, reached, fenced_names)))"

definition renew_one :: "'s env \<Rightarrow> Fleet \<Rightarrow> string \<Rightarrow> renewals \<Rightarrow> ('s, renewals) act" where
  "renew_one E F name acc = do {
     others E;
     held \<leftarrow> held_names;
     case map_of held name of
       None \<Rightarrow> return acc
     | Some current \<Rightarrow> do {
         state \<leftarrow> lease_state_for E (ls_instance_id (held_lease_of current));
         now \<leftarrow> now_ms E;
         outcome \<leftarrow> await E (\<lambda>x. renew (en_bucket E) x name current (ft_timing F) now state);
         apply_renewal name current acc outcome } }"

text \<open>The unreachability episode, and the report of one that has outlasted the lease time.\<close>

definition advance_outage :: "'s env \<Rightarrow> Fleet \<Rightarrow> bool \<Rightarrow> ('s, bool) act" where
  "advance_outage E F reached = do {
     others E;
     outage \<leftarrow> gets (\<lambda>w. Option.bind (w_fleet w) ft_outage);
     now \<leftarrow> now_ms E;
     let (next, due) = outage_after_renewals outage reached now (ft_timing F);
     with_fleet (ft_outage_update (\<lambda>_. next));
     return due }"

definition report_outage :: "'s env \<Rightarrow> Fleet \<Rightarrow> bool \<Rightarrow> ('s, unit) act" where
  "report_outage E F reached = do {
     due \<leftarrow> advance_outage E F reached;
     if due then do {
       others E;
       held \<leftarrow> held_names;
       for_each (\<lambda>(name, h). record_event E (degradation (ls_instance_id (held_lease_of h)) []
         (say E ''the coordination bucket has been unreachable for longer than the lease TTL'' [A_Text name]))) held }
     else return () }"

section \<open>Release\<close>

text \<open>A remembered lease that is not in memory and not desired is taken up again.\<close>

definition readopt ::
  "'s env \<Rightarrow> Fleet \<Rightarrow> string set \<Rightarrow> HeldLeaseRow \<Rightarrow> (string \<times> version Held) list
   \<Rightarrow> ('s, bool \<times> (string \<times> version Held) list) act" where
  "readopt E F names row candidates =
     (if hl_fencing row \<or> hl_name row \<in> names \<or> hl_name row \<in> set (map fst candidates) then return (True, candidates)
      else do {
        others E;
        now \<leftarrow> now_ms E;
        r \<leftarrow> await E (\<lambda>x. acquire (en_bucket E) x (hl_name row) (ft_node_id F) (ft_advertise F) (ft_timing F) now);
        case r of
          Inr (Acq_Held h) \<Rightarrow> do { hold_name (hl_name row) h; return (True, candidates @ [(hl_name row, h)]) }
        | Inr _ \<Rightarrow> return (True, candidates)
        | Inl _ \<Rightarrow> return (False, candidates) })"

fun readopt_each ::
  "'s env \<Rightarrow> Fleet \<Rightarrow> string set \<Rightarrow> HeldLeaseRow list \<Rightarrow> (string \<times> version Held) list
   \<Rightarrow> ('s, (string \<times> version Held) list option) act" where
  "readopt_each E F names [] candidates = return (Some candidates)"
| "readopt_each E F names (row # rows) candidates = do {
     (reachable, candidates') \<leftarrow> readopt E F names row candidates;
     if reachable then readopt_each E F names rows candidates' else return None }"

definition release_one ::
  "'s env \<Rightarrow> string set \<Rightarrow> string \<times> version Held \<Rightarrow> PassReport \<Rightarrow> ('s, PassReport) act" where
  "release_one E names candidate report = (case candidate of (name, h) \<Rightarrow> do {
     let iid = ls_instance_id (held_lease_of h);
     r \<leftarrow> (if iid = [] then return (Inr None) else db_read E (\<lambda>db. map_option ir_state (get_instance db iid)));
     case r of
       Inl _ \<Rightarrow> return report
     | Inr state \<Rightarrow>
         (case release_intent (name \<in> names) False state of
            KeepLease \<Rightarrow> return report
          | DestroyFirst \<Rightarrow> do {
              _ \<leftarrow> submit E K_Destroy iid
                    (''fleet-delete-'' @ name @ ''-'' @ dec_u (ls_epoch (held_lease_of h)) @ ''-'' @ iid) (P_Destroy False);
              return report }
          | ReleaseLease \<Rightarrow> do {
              others E;
              gone \<leftarrow> await E (\<lambda>x. release (en_bucket E) x name h);
              case gone of
                Inr _ \<Rightarrow> do {
                  _ \<leftarrow> db_write E (\<lambda>_ db. release_lease db name);
                  others E;
                  drop_name name;
                  return (report\<lparr>ps_released := ps_released report + 1\<rparr>) }
              | Inl _ \<Rightarrow> return (report\<lparr>ps_backend_unavailable := True\<rparr>) }) })"

definition release_sweep :: "'s env \<Rightarrow> Fleet \<Rightarrow> string set \<Rightarrow> PassReport \<Rightarrow> ('s, PassReport) act" where
  "release_sweep E F names report = do {
     others E;
     in_memory \<leftarrow> held_names;
     journaled \<leftarrow> db_read E held_leases;
     found \<leftarrow> readopt_each E F names (case journaled of Inr rows \<Rightarrow> rows | Inl _ \<Rightarrow> []) in_memory;
     case found of
       None \<Rightarrow> return (report\<lparr>ps_backend_unavailable := True\<rparr>)
     | Some candidates \<Rightarrow> fold_each (release_one E names) candidates report }"

section \<open>Acquisition\<close>

text \<open>
  The lease this node works under, when it has one: \<open>Inl True\<close> is \<open>continue\<close> and
  \<open>Inl False\<close> is \<open>break\<close>.
\<close>

type_synonym taken = "(bool + version Held) \<times> PassReport"

definition apply_acquisition ::
  "'s env \<Rightarrow> string \<Rightarrow> PassReport \<Rightarrow> fleet_error + version Acquired \<Rightarrow> ('s, taken) act" where
  "apply_acquisition E name report outcome =
     (case outcome of
        Inr (Acq_Held h) \<Rightarrow> do {
          r \<leftarrow> db_write E (\<lambda>now db. hold_lease db name (ls_epoch (held_lease_of h))
                                  (ls_instance_id (held_lease_of h)) now);
          case r of
            Inl _ \<Rightarrow> do {
              _ \<leftarrow> await E (\<lambda>x. release (en_bucket E) x name h);
              return (Inl True, report\<lparr>ps_acquired := ps_acquired report + 1\<rparr>) }
          | Inr _ \<Rightarrow> do {
              others E;
              hold_name name h;
              return (Inr h, report\<lparr>ps_acquired := ps_acquired report + 1\<rparr>) } }
      | Inr _ \<Rightarrow> return (Inl True, report)
      | Inl _ \<Rightarrow> return (Inl False, report\<lparr>ps_backend_unavailable := True\<rparr>))"

definition take_lease :: "'s env \<Rightarrow> Fleet \<Rightarrow> string \<Rightarrow> PassReport \<Rightarrow> ('s, taken) act" where
  "take_lease E F name report = do {
     others E;
     held \<leftarrow> held_names;
     case map_of held name of
       Some h \<Rightarrow> return (Inr h, report)
     | None \<Rightarrow> do {
         others E;
         now \<leftarrow> now_ms E;
         outcome \<leftarrow> await E (\<lambda>x. acquire (en_bucket E) x name (ft_node_id F) (ft_advertise F) (ft_timing F) now);
         apply_acquisition E name report outcome } }"

definition journal_state :: "'s env \<Rightarrow> instance_id \<Rightarrow> ('s, db_error + instance_state option) act" where
  "journal_state E iid =
     (if iid = [] then return (Inr None) else db_read E (\<lambda>db. map_option ir_state (get_instance db iid)))"

section \<open>Materialisation\<close>

fun materialise_step :: "instance_spec \<Rightarrow> bool \<Rightarrow> instance_state option \<Rightarrow> (OpKind \<times> OpPayload \<times> string) option" where
  "materialise_step spec cold_boot None = Some (K_Create, P_Create spec, ''create'')"
| "materialise_step spec cold_boot (Some st) =
     (if st = I_Paused \<and> \<not> cold_boot then Some (K_Resume, P_Resume None False, ''resume'')
      else if st \<in> {I_Created, I_Stopped, I_Paused} then Some (K_Start, P_Start, ''start'')
      else None)"

definition fleet_key :: "string \<Rightarrow> string \<Rightarrow> int \<Rightarrow> instance_id \<Rightarrow> idempotency_key" where
  "fleet_key verb name epoch iid = ''fleet-'' @ verb @ ''-'' @ name @ ''-'' @ dec_u epoch @ ''-'' @ iid"

definition materialise :: "'s env \<Rightarrow> string \<Rightarrow> instance_spec \<Rightarrow> int \<Rightarrow> bool \<Rightarrow> ('s, bool) act" where
  "materialise E name spec epoch cold_boot = do {
     let iid = sp_instance_id spec;
     known \<leftarrow> db_read E (\<lambda>db. get_instance db iid);
     case materialise_step spec cold_boot (map_option ir_state (found known)) of
       None \<Rightarrow> return False
     | Some (kind, payload, verb) \<Rightarrow> do {
         r \<leftarrow> submit E kind iid (fleet_key verb name epoch iid) payload;
         case r of
           Inr _ \<Rightarrow> do {
             (if cold_boot \<and> verb = ''start''
             then record_event E (degradation iid []
                    (say E ''session was taken over from another node and cold-booted'' [A_Text name]))
             else return ());
             return True }
         | Inl _ \<Rightarrow> return False } }"

text \<open>The lease is made to name the instance before anything is started under it.\<close>

definition name_instance ::
  "'s env \<Rightarrow> string \<Rightarrow> version Held \<Rightarrow> instance_id \<Rightarrow> instance_id \<Rightarrow> bool \<Rightarrow> PassReport
   \<Rightarrow> ('s, bool \<times> PassReport) act" where
  "name_instance E name h iid record_iid fresh report =
     (if ls_instance_id (held_lease_of h) = iid then return (True, report)
      else do {
        others E;
        r \<leftarrow> await E (\<lambda>x. set_instance (en_bucket E) x name h iid);
        case r of
          Inr (Ren_Held next) \<Rightarrow> do {
            _ \<leftarrow> db_write E (\<lambda>_ db. set_lease_instance db name iid);
            others E;
            hold_name name next;
            if fresh then do {
              record_event E (degradation iid []
                (say E ''session is being realised by a new instance'' [A_Text name, A_Text iid, A_Text record_iid]));
              return (True, report\<lparr>ps_superseded := ps_superseded report + 1\<rparr>) }
            else return (True, report) }
        | Inr Ren_Fenced \<Rightarrow> do {
            drop_name name;
            self_fence E name (ls_instance_id (held_lease_of h));
            return (False, report\<lparr>ps_fenced := ps_fenced report + 1\<rparr>) }
        | Inl _ \<Rightarrow> return (False, report) })"

definition report_hold :: "'s env \<Rightarrow> string list \<Rightarrow> string \<Rightarrow> instance_id \<Rightarrow> ('s, unit) act" where
  "report_hold E holds_reported name iid =
     (if name \<in> set holds_reported then return ()
      else do {
        others E;
        with_fleet (ft_holds_reported_update (List.insert name));
        record_event E (degradation iid []
          (say E ''took over session but did not start it'' [A_Text name])) })"

text \<open>The instance that realises a session: the record's, the one on the lease, or a new one.\<close>

definition choose_instance ::
  "'s env \<Rightarrow> version Held \<Rightarrow> instance_spec \<Rightarrow> ('s, db_error + instance_spec \<times> bool) act" where
  "choose_instance E h spec = do {
     let named = ls_instance_id (held_lease_of h);
     record_state \<leftarrow> journal_state E (sp_instance_id spec);
     lease_state \<leftarrow> journal_state E named;
     case (record_state, lease_state) of
       (Inr rs, Inr ls) \<Rightarrow>
         (case realising_instance rs (named \<noteq> [] \<and> named \<noteq> sp_instance_id spec) ls of
            RealisedByRecord \<Rightarrow> return (Inr (spec, False))
          | RealisedByLease \<Rightarrow> return (Inr (spec\<lparr>sp_instance_id := named\<rparr>, False))
          | RealisedFresh \<Rightarrow> do {
              iid \<leftarrow> extern (en_ulid E);
              return (Inr (spec\<lparr>sp_instance_id := iid\<rparr>, True)) })
     | (Inl e, _) \<Rightarrow> return (Inl e)
     | (_, Inl e) \<Rightarrow> return (Inl e) }"

definition advance_session ::
  "'s env \<Rightarrow> string list \<Rightarrow> Desired \<Rightarrow> version Held \<Rightarrow> instance_spec \<Rightarrow> instance_id \<Rightarrow> bool \<Rightarrow> PassReport
   \<Rightarrow> ('s, PassReport) act" where
  "advance_session E holds_reported want h spec record_iid fresh report =
     (let name = ds_name want; epoch = ls_epoch (held_lease_of h); iid = sp_instance_id spec in
      case admit (en_is_ulid E) spec False (rt_capabilities (en_runtime E)) (rt_name (en_runtime E)) of
        Inl refusal \<Rightarrow> do {
          record_event E (degradation iid []
            (say E ''desired session was not started'' [A_Text name, A_Refusal (rf_why refusal)]));
          return (report\<lparr>ps_refused := ps_refused report + 1\<rparr>) }
      | Inr _ \<Rightarrow> do {
          r \<leftarrow> db_read E (\<lambda>db. get_instance db iid);
          let realised = (case found r of Some row \<Rightarrow> ir_state row \<in> {I_Running, I_Paused} | None \<Rightarrow> False);
          case intent_for (ds_on_owner_loss want) (epoch > 1) realised of
            HoldWithoutMaterialising \<Rightarrow> do {
              report_hold E holds_reported name iid;
              return (report\<lparr>ps_held_without_materialising := ps_held_without_materialising report + 1\<rparr>) }
          | Materialise cold_boot \<Rightarrow> do {
              (go, report) \<leftarrow> name_instance E name h iid record_iid fresh report;
              if go then do {
                m \<leftarrow> materialise E name spec epoch cold_boot;
                return (if m then report\<lparr>ps_materialised := ps_materialised report + 1\<rparr> else report) }
              else return report }
          | AlreadyRunning \<Rightarrow> return report
          | NotOurs \<Rightarrow> return report })"

text \<open>One desired record; the flag says whether the loop goes on.\<close>

definition realise_one ::
  "'s env \<Rightarrow> Fleet \<Rightarrow> string list \<Rightarrow> Desired \<Rightarrow> PassReport \<Rightarrow> ('s, bool \<times> PassReport) act" where
  "realise_one E F holds_reported want report = do {
     (taken, report) \<leftarrow> take_lease E F (ds_name want) report;
     case taken of
       Inl go \<Rightarrow> return (go, report)
     | Inr h \<Rightarrow>
         (case spec_of (en_decode_spec E) want of
            Inl _ \<Rightarrow> return (True, report)
          | Inr spec \<Rightarrow> do {
              chosen \<leftarrow> choose_instance E h spec;
              case chosen of
                Inl _ \<Rightarrow> return (True, report)
              | Inr (spec', fresh) \<Rightarrow> do {
                  report \<leftarrow> advance_session E holds_reported want h spec' (sp_instance_id spec) fresh report;
                  return (True, report) } }) }"

fun realise_each :: "'s env \<Rightarrow> Fleet \<Rightarrow> string list \<Rightarrow> Desired list \<Rightarrow> PassReport \<Rightarrow> ('s, PassReport) act" where
  "realise_each E F holds_reported [] report = return report"
| "realise_each E F holds_reported (want # wants) report = do {
     (go, report) \<leftarrow> realise_one E F holds_reported want report;
     if go then realise_each E F holds_reported wants report else return report }"

section \<open>A pass\<close>

definition acquire_and_materialise :: "'s env \<Rightarrow> Fleet \<Rightarrow> PassReport \<Rightarrow> ('s, PassReport) act" where
  "acquire_and_materialise E F report = do {
     others E;
     holds_reported \<leftarrow> gets (\<lambda>w. case w_fleet w of Some f \<Rightarrow> ft_holds_reported f | None \<Rightarrow> []);
     listing \<leftarrow> desired E;
     case listing of
       Inl _ \<Rightarrow> return (report\<lparr>ps_backend_unavailable := True\<rparr>)
     | Inr listing \<Rightarrow> do {
         report \<leftarrow> release_sweep E F (dt_names listing) report;
         realise_each E F holds_reported (dt_records listing) report } }"

text \<open>What follows the renewals; a pass that could not reach the bucket stops before acquiring.\<close>

definition after_renewals :: "'s env \<Rightarrow> Fleet \<Rightarrow> bool \<Rightarrow> renewals \<Rightarrow> ('s, PassReport) act" where
  "after_renewals E F attempted acc = (case acc of (report, reached_bucket, fenced_names) \<Rightarrow> do {
     (if attempted then report_outage E F reached_bucket else return ());
     for_each (\<lambda>(name, iid). fence_and_confirm E name iid) fenced_names;
     if ps_backend_unavailable report then return report else acquire_and_materialise E F report })"

definition pass :: "'s env \<Rightarrow> Fleet \<Rightarrow> ('s, PassReport) act" where
  "pass E F = do {
     others E;
     held \<leftarrow> held_names;
     acc \<leftarrow> fold_each (renew_one E F) (map fst held) (empty_report, False, []);
     after_renewals E F (held \<noteq> []) acc }"

section \<open>Recovery of what the journal remembers\<close>

definition confirm_lease :: "'s env \<Rightarrow> Fleet \<Rightarrow> HeldLeaseRow \<Rightarrow> Lease option \<Rightarrow> ('s, unit) act" where
  "confirm_lease E F row seen =
     (case seen of
        Some lease \<Rightarrow>
          if ls_owner lease = ft_node_id F \<and> ls_epoch lease = hl_epoch row then return ()
          else fence_and_confirm E (hl_name row) (hl_instance_id row)
      | None \<Rightarrow> fence_and_confirm E (hl_name row) (hl_instance_id row))"

fun fleet_recover_each :: "'s env \<Rightarrow> Fleet \<Rightarrow> HeldLeaseRow list \<Rightarrow> ('s, unit) act" where
  "fleet_recover_each E F [] = return ()"
| "fleet_recover_each E F (row # rows) = do {
     r \<leftarrow> await E (\<lambda>x. (resolve (en_bucket E) x (hl_name row), x));
     case r of
       Inr seen \<Rightarrow> do { confirm_lease E F row seen; fleet_recover_each E F rows }
     | Inl _ \<Rightarrow> return () }"

definition fleet_recover :: "'s env \<Rightarrow> Fleet \<Rightarrow> ('s, unit) act" where
  "fleet_recover E F = do {
     remembered \<leftarrow> db_read E held_leases;
     case remembered of
       Inl _ \<Rightarrow> return ()
     | Inr rows \<Rightarrow> fleet_recover_each E F rows }"

section \<open>Node invariant\<close>

lemma keeps_fold_each [keep_rules]: "(\<And>x b. keeps P (f x b)) \<Longrightarrow> keeps P (fold_each f xs b)"
  by (induction xs arbitrary: b) (auto intro!: keep_rules)

lemma keeps_case_acquired [keep_rules]:
  "(\<And>h. r = Acq_Held h \<Longrightarrow> keeps P (f h)) \<Longrightarrow> (\<And>o' e. r = Acq_HeldByOther o' e \<Longrightarrow> keeps P (g o' e)) \<Longrightarrow>
   (r = Acq_Contended \<Longrightarrow> keeps P m) \<Longrightarrow>
   keeps P (case r of Acq_Held h \<Rightarrow> f h | Acq_HeldByOther o' e \<Rightarrow> g o' e | Acq_Contended \<Rightarrow> m)"
  by (cases r) simp_all

lemma keeps_case_release [keep_rules]:
  "(i = KeepLease \<Longrightarrow> keeps P k) \<Longrightarrow> (i = DestroyFirst \<Longrightarrow> keeps P d) \<Longrightarrow> (i = ReleaseLease \<Longrightarrow> keeps P r) \<Longrightarrow>
   keeps P (case i of KeepLease \<Rightarrow> k | DestroyFirst \<Rightarrow> d | ReleaseLease \<Rightarrow> r)"
  by (cases i) simp_all

lemma keeps_case_intent [keep_rules]:
  "(i = NotOurs \<Longrightarrow> keeps P n) \<Longrightarrow> (i = AlreadyRunning \<Longrightarrow> keeps P a) \<Longrightarrow> (\<And>b. i = Materialise b \<Longrightarrow> keeps P (f b)) \<Longrightarrow>
   (i = HoldWithoutMaterialising \<Longrightarrow> keeps P h) \<Longrightarrow>
   keeps P (case i of NotOurs \<Rightarrow> n | AlreadyRunning \<Rightarrow> a | Materialise b \<Rightarrow> f b | HoldWithoutMaterialising \<Rightarrow> h)"
  by (cases i) simp_all

lemma keeps_case_realising [keep_rules]:
  "(i = RealisedByRecord \<Longrightarrow> keeps P n) \<Longrightarrow> (i = RealisedByLease \<Longrightarrow> keeps P a) \<Longrightarrow> (i = RealisedFresh \<Longrightarrow> keeps P h) \<Longrightarrow>
   keeps P (case i of RealisedByRecord \<Rightarrow> n | RealisedByLease \<Rightarrow> a | RealisedFresh \<Rightarrow> h)"
  by (cases i) simp_all

text \<open>
  What a pass keeps: a condition that events and the marks of the outage and of
  the reported holds do not touch, and then one that submissions keep as well.
\<close>

locale phase_observed =
  fixes P :: "'s world \<Rightarrow> bool"
  assumes events: "P w \<Longrightarrow> P (w\<lparr>w_db := snd (insert_event (w_db w) ev now)\<rparr>)"
    and marks: "P w \<Longrightarrow> P (w_fleet_update (map_option (ft_outage_update f)) w)"
      "P w \<Longrightarrow> P (w_fleet_update (map_option (ft_holds_reported_update g)) w)"
begin

lemma event: "undisturbed P E \<Longrightarrow> keeps P (record_event E ev)"
  unfolding record_event_def
  by (intro keep_rules stable_db_call) (assumption, metis Inr_inject events snd_conv)

lemma outside:
  assumes "undisturbed P E"
  shows "keeps P (others E)" "keeps P (await E f)" "keeps P (extern g)" "keeps P (now_ms E)"
  unfolding now_ms_def using assms by (auto intro: stable_rules)

lemma stamp_value: "undisturbed P E \<Longrightarrow> keeps P (lease_state_for E iid)"
  unfolding lease_state_for_def by (intro keep_rules keeps_rest_read)

lemma outage:
  assumes "undisturbed P E"
  shows "keeps P (report_outage E F reached)"
proof -
  have "keeps P (with_fleet (ft_outage_update f))" for f
    unfolding with_fleet_def modify_def by (rule keepsI) (use marks(1) in auto)
  thus ?thesis unfolding report_outage_def advance_outage_def
    by (intro keep_rules outside event assms)
qed

lemma hold_reported:
  assumes "undisturbed P E"
  shows "keeps P (report_hold E hs name iid)"
proof -
  have "keeps P (with_fleet (ft_holds_reported_update f))" for f
    unfolding with_fleet_def modify_def by (rule keepsI) (use marks(2) in auto)
  thus ?thesis unfolding report_hold_def by (intro keep_rules outside event assms)
qed

lemma choosing: "undisturbed P E \<Longrightarrow> keeps P (choose_instance E h spec)"
  unfolding choose_instance_def journal_state_def
  by (intro keep_rules keeps_rest_read outside)

end

locale phase_invariant = phase_observed P
  for P :: "'s world \<Rightarrow> bool" +
  assumes submits: "undisturbed P E \<Longrightarrow> keeps P (submit E kind iid key payload)"
begin

lemma fencing: "undisturbed P E \<Longrightarrow> keeps P (self_fence E name iid)"
  unfolding self_fence_def by (intro keep_rules event submits)

lemma materialising: "undisturbed P E \<Longrightarrow> keeps P (materialise E name spec epoch cold_boot)"
  unfolding materialise_def by (intro keep_rules keeps_rest_read event submits)

end

lemma undisturbed_on_db_rely: "undisturbed (on_db I) E \<Longrightarrow> rely I E"
  by (simp add: undisturbed_def on_db_def rely_def)

interpretation kept: phase_invariant "on_db node_ok"
proof unfold_locales
  fix E :: "'s env" and kind iid key payload assume "undisturbed (on_db node_ok) E"
  thus "keeps (on_db node_ok) (submit E kind iid key payload)"
    by (intro keeps_node_submit_plain undisturbed_on_db_rely)
qed (auto simp: on_db_def intro: node_ok_insert_event)

lemmas phase_node_rules = keeps_node_write node_ok_hold_lease node_ok_set_lease_instance
  node_ok_mark_lease_fencing node_ok_release_lease kept.fencing kept.materialising kept.choosing
  kept.hold_reported kept.outage kept.event undisturbed_on_db

lemma keeps_node_fence [keep_rules]:
  "rely node_ok E \<Longrightarrow> keeps (on_db node_ok) (fence_and_confirm E name iid)"
  unfolding fence_and_confirm_def by (intro keep_rules phase_node_rules)

lemma keeps_node_release_one [keep_rules]:
  "rely node_ok E \<Longrightarrow> keeps (on_db node_ok) (release_one E names c report)"
  unfolding release_one_def by (intro keep_rules phase_node_rules)

lemma keeps_node_readopt [keep_rules]:
  "rely node_ok E \<Longrightarrow> keeps (on_db node_ok) (readopt_each E F names rows cs)"
  by (induction rows arbitrary: cs) (auto simp: readopt_def intro!: keep_rules)

lemma keeps_node_realise [keep_rules]:
  assumes "rely node_ok E"
  shows "keeps (on_db node_ok) (realise_each E F hs wants report)"
proof -
  have "keeps (on_db node_ok) (take_lease E F name report)" for name report
    unfolding take_lease_def apply_acquisition_def by (intro keep_rules phase_node_rules assms)
  moreover have "keeps (on_db node_ok) (name_instance E name h iid rid fresh report)" for name h iid rid fresh report
    unfolding name_instance_def by (intro keep_rules phase_node_rules assms)
  ultimately have "keeps (on_db node_ok) (realise_one E F hs want report)" for want report
    unfolding realise_one_def advance_session_def by (intro keep_rules phase_node_rules assms)
  thus ?thesis by (induction wants arbitrary: report) (auto intro!: keep_rules)
qed

lemma keeps_node_pass [keep_rules]:
  assumes "rely node_ok E"
  shows "keeps (on_db node_ok) (pass E F)"
proof -
  have "keeps (on_db node_ok) (renew_one E F name acc)" for name acc
    unfolding renew_one_def apply_renewal_def by (intro keep_rules assms)
  moreover have "keeps (on_db node_ok) (release_sweep E F names report)" for names report
    unfolding release_sweep_def by (intro keep_rules assms)
  ultimately show ?thesis
    unfolding pass_def after_renewals_def acquire_and_materialise_def desired_def
    by (intro keep_rules phase_node_rules assms)
qed

lemma keeps_node_fleet_recover [keep_rules]:
  assumes "rely node_ok E"
  shows "keeps (on_db node_ok) (fleet_recover E F)"
proof -
  have "keeps (on_db node_ok) (fleet_recover_each E F rows)" for rows
    by (induction rows) (auto simp: confirm_lease_def intro!: keep_rules assms)
  thus ?thesis unfolding fleet_recover_def by (intro keep_rules assms)
qed

section \<open>An unreachable bucket\<close>

text \<open>What is running and what is owned: the executors, the instances, the operations, the leases.\<close>

definition held_of :: "'s world \<Rightarrow> (string \<times> version Held) list" where
  "held_of w = (case w_fleet w of Some f \<Rightarrow> ft_held f | None \<Rightarrow> [])"

definition workload :: "'s world \<Rightarrow> task list \<times> instances_row list \<times> operations_row list" where
  "workload w = (w_tasks w, j_instances (w_db w), j_operations (w_db w))"

definition footprint ::
  "'s world \<Rightarrow> (task list \<times> instances_row list \<times> operations_row list)
     \<times> fleet_leases_row list \<times> (string \<times> version Held) list" where
  "footprint w = (workload w, j_fleet_leases (w_db w), held_of w)"

definition bucket_down :: "'s env \<Rightarrow> bool" where
  "bucket_down E \<longleftrightarrow> (\<forall>x k b m. fst (be_put (en_bucket E) x k b m) = Inl PE_Other)
     \<and> (\<forall>x. isl (fst (en_list_desired E x)))"

interpretation still: phase_observed "\<lambda>w. footprint w = c" for c
  by unfold_locales
    (auto simp: footprint_def workload_def held_of_def insert_event_def Let_def split: option.splits)

lemma down_put:
  assumes "bucket_down E"
  shows "\<exists>e st. put (en_bucket E) x k lease mode = (Inl e, st)"
proof (cases "be_encode (en_bucket E) lease")
  case (Some b)
  obtain r st where "be_put (en_bucket E) x k b mode = (r, st)" by fastforce
  moreover from this have "r = Inl PE_Other" using assms unfolding bucket_down_def by (metis fst_conv)
  ultimately show ?thesis using Some by (simp add: put_def)
qed (simp add: put_def)

lemma down_renew:
  assumes "bucket_down E"
  shows "\<exists>e. fst (renew (en_bucket E) x name h timing now st) = Inl e"
proof -
  obtain e st' where "put (en_bucket E) x (session_key name)
     ((held_lease_of h)\<lparr>ls_expires_ms := as_i64 (now + ttl_ms timing), ls_state := st\<rparr>) (PutUpdate (held_version h)) = (Inl e, st')"
    using down_put [OF assms] by blast
  thus ?thesis by (simp add: renew_def fenced_put_def)
qed

definition sample_fleet :: Fleet where
  "sample_fleet = \<lparr>ft_bucket = ''b'', ft_node_id = ''n1'', ft_advertise = ''here'', ft_timing = default_timing,
     ft_held = [(''web'', \<lparr>held_lease_of = \<lparr>ls_owner = ''n1'', ls_epoch = 1, ls_expires_ms = 9, ls_endpoint = ''here'',
        ls_instance_id = ''i1'', ls_state = None\<rparr>, held_version = (None, None)\<rparr>)],
     ft_holds_reported = [], ft_outage = None\<rparr>"

text \<open>A node that holds \<open>web\<close> and remembers it, over a journal.\<close>

definition sample_holder :: "journal \<Rightarrow> unit world" where
  "sample_holder db = (sample_world (hold_lease db ''web'' 1 ''i1'' 2) ())\<lparr>w_fleet := Some sample_fleet\<rparr>"

lemma sample_quiet:
  "alone (sample_env :: unit env)" "faultless (sample_env :: unit env)" "bucket_down (sample_env :: unit env)"
  "undisturbed (\<lambda>v. footprint v = c) (sample_env :: unit env)"
  by (simp_all add: alone_def faultless_def bucket_down_def undisturbed_def footprint_def workload_def held_of_def
      sample_env_def sample_bucket_def)

definition cut_off :: PassReport where
  "cut_off = empty_report\<lparr>ps_backend_unavailable := True\<rparr>"

lemma triple_yields:
  assumes "keeps P m" and "yields m Q"
  shows "triple P m (\<lambda>a w. P w \<and> Q a)"
  using assms unfolding keeps_def triple_def yields_def by (auto split: prod.splits) (metis fst_conv)

lemma triple_assuming: "(b \<Longrightarrow> triple P m Q) \<Longrightarrow> triple (\<lambda>w. P w \<and> b) m Q"
  by (cases b) (simp_all add: triple_def)

lemma keeps_then: "keeps P m \<Longrightarrow> (\<And>a. triple P (f a) Q) \<Longrightarrow> triple P (State_Monad.bind m f) Q"
  unfolding keeps_def by (rule triple_bind)

definition no_contact :: "renewals \<Rightarrow> bool" where
  "no_contact acc \<longleftrightarrow> (case acc of (report, reached, fs) \<Rightarrow> report \<in> {empty_report, cut_off} \<and> \<not> reached \<and> fs = [])"

lemma still_renew_one:
  assumes "undisturbed (\<lambda>w. footprint w = c) E" and "bucket_down E" and "no_contact acc"
  shows "triple (\<lambda>w. footprint w = c) (renew_one E F name acc) (\<lambda>acc' w. footprint w = c \<and> no_contact acc')"
proof -
  obtain report where acc: "acc = (report, False, [])" and report: "report \<in> {empty_report, cut_off}"
    using assms(3) by (auto simp: no_contact_def)
  let ?P = "\<lambda>w. footprint w = c" and ?Q = "\<lambda>acc' w. footprint w = c \<and> no_contact acc'"
  have ret: "triple ?P (return acc') ?Q" if "no_contact acc'" for acc'
    by (rule triple_return) (simp add: that)
  have cut: "report\<lparr>ps_backend_unavailable := True\<rparr> = cut_off"
    using report by (auto simp: cut_off_def)
  have refused: "triple ?P (await E (\<lambda>x. renew (en_bucket E) x name h (ft_timing F) now st)) (\<lambda>r w. footprint w = c \<and> isl r)"
    for h now st
    by (rule triple_yields [OF stable_await [OF assms(1)] yields_await]) (use down_renew [OF assms(2)] in \<open>metis isl_def\<close>)
  show ?thesis unfolding acc renew_one_def
    by (intro keeps_then [OF still.outside(1) [OF assms(1)]] keeps_then [OF keeps_held_names]
        triple_case_option ret keeps_then [OF still.stamp_value [OF assms(1)]]
        keeps_then [OF still.outside(4) [OF assms(1)]] triple_bind [OF refused])
      (use report assms(3) in \<open>auto simp: apply_renewal_def no_contact_def cut split: sum.splits intro!: tripleI\<close>)
qed

lemma still_renewals:
  assumes "undisturbed (\<lambda>w. footprint w = c) E" and "bucket_down E"
  shows "no_contact acc \<Longrightarrow>
    triple (\<lambda>w. footprint w = c) (fold_each (renew_one E F) names acc) (\<lambda>acc' w. footprint w = c \<and> no_contact acc')"
proof (induction names arbitrary: acc)
  case Nil
  thus ?case by (auto intro: triple_return)
next
  case (Cons name names)
  have "triple (\<lambda>w. footprint w = c \<and> no_contact acc') (fold_each (renew_one E F) names acc')
          (\<lambda>acc' w. footprint w = c \<and> no_contact acc')" for acc'
    by (cases "no_contact acc'") (auto intro: triple_pre [OF Cons.IH] simp: triple_def [of "\<lambda>_. False"])
  thus ?case by (auto intro: triple_bind [OF still_renew_one [OF assms Cons.prems]])
qed

text \<open>
  C21: A pass on a node whose bucket refuses every write and every listing starts no executor
  and changes no instance, no operation, no remembered lease and no lease in memory, whatever
  the node holds; its report says the bucket was unavailable and claims nothing else.
\<close>

theorem unreachable_bucket_stops_nothing:
  assumes "bucket_down E" and "undisturbed (\<lambda>v. footprint v = footprint w) E"
    and "run_state (pass E F) w = (report, w')"
  shows "footprint w' = footprint w \<and> report = empty_report\<lparr>ps_backend_unavailable := True\<rparr>"
proof -
  let ?P = "\<lambda>v. footprint v = footprint w" and ?Q = "\<lambda>r v. footprint v = footprint w \<and> r = cut_off"
  note out = still.outside(1) [OF assms(2)]
  have listing: "triple ?P (await E (en_list_desired E)) (\<lambda>r v. footprint v = footprint w \<and> isl r)"
    by (rule triple_yields [OF stable_await [OF assms(2)] yields_await])
      (use assms(1) in \<open>simp add: bucket_down_def\<close>)
  have rest: "triple ?P (acquire_and_materialise E F empty_report) ?Q"
    unfolding acquire_and_materialise_def desired_def State_Monad.bind_assoc State_Monad.bind_left_identity
    by (intro keeps_then [OF out] keeps_then [OF keeps_gets] triple_bind [OF listing])
      (auto simp: cut_off_def triple_def isl_def split: sum.splits)
  have after: "triple (\<lambda>v. footprint v = footprint w \<and> no_contact acc) (after_renewals E F b acc) ?Q" for acc b
  proof (cases "no_contact acc")
    case True
    then obtain report where acc: "acc = (report, False, [])" and r: "report = empty_report \<or> report = cut_off"
      by (auto simp: no_contact_def)
    have "triple ?P (if ps_backend_unavailable report then return report else acquire_and_materialise E F report) ?Q"
      using r rest by (auto simp: cut_off_def empty_report_def intro: triple_return)
    hence "triple ?P (after_renewals E F b acc) ?Q"
      unfolding acc after_renewals_def prod.case for_each.simps State_Monad.bind_left_identity
      by (intro keeps_then [OF keeps_if [OF still.outage [OF assms(2)] keeps_return]])
    thus ?thesis by (rule triple_pre) simp
  qed (simp add: triple_def)
  have "triple ?P (pass E F) ?Q" unfolding pass_def
    by (intro keeps_then [OF out] keeps_then [OF keeps_held_names]
        triple_bind [OF still_renewals [OF assms(2,1)]] after) (simp add: no_contact_def)
  from tripleD [OF this _ assms(3)] show ?thesis by (simp add: cut_off_def)
qed

theorem unreachable_bucket_stops_nothing_witness:
  "\<exists>report w'. run_state (pass sample_env sample_fleet) (sample_holder sample_ops_journal) = (report, w')
     \<and> footprint w' = footprint (sample_holder sample_ops_journal) \<and> held_of w' \<noteq> [] \<and> ps_backend_unavailable report"
proof -
  obtain report w' where run: "run_state (pass sample_env sample_fleet) (sample_holder sample_ops_journal) = (report, w')"
    by (metis surj_pair)
  have "footprint w' = footprint (sample_holder sample_ops_journal) \<and> report = empty_report\<lparr>ps_backend_unavailable := True\<rparr>"
    by (rule unreachable_bucket_stops_nothing [OF sample_quiet(3,4) run])
  thus ?thesis using run by (auto simp: footprint_def held_of_def sample_holder_def sample_fleet_def)
qed

section \<open>Keys that were used before\<close>

lemma recorded_key_replays:
  assumes "schema_ok db" and "find_op_by_idempotency_key db key = Some original"
  shows "submit_atomically db op key tr sp rt tok mint claim lin plan nc now = Inr (Replay original, db)"
  by (rule find_op_by_key_Some [OF assms]) (simp add: submit_atomically_def)

text \<open>A submission that cannot be journaled leaves any condition on the world as it is.\<close>

lemma keeps_unjournaled_submit:
  assumes "undisturbed P E"
    and "\<And>w op tr sp rt tok mint lin plan nc now r db. P w \<Longrightarrow> or_instance_id op = iid \<Longrightarrow>
      submit_atomically (w_db w) op key tr sp rt tok mint claim lin plan nc now = Inr (r, db) \<Longrightarrow>
      db = w_db w \<and> (\<forall>recorded. r \<noteq> Journaled recorded)"
  shows "keeps P (submit_claiming E kind iid key payload claim announce)"
proof -
  note ext = stable_extern [OF assms(1)]
  have same: "w\<lparr>w_db := w_db w\<rparr> = w" for w :: "'a world" by simp
  have out: "triple P (db_call E (\<lambda>now db. submit_atomically db (new_operation oid kind iid payload at) key tr sp rt tok mint claim lin plan nc now))
      (\<lambda>r w. P w \<and> (\<forall>recorded. r \<noteq> Inr (Journaled recorded)))" for oid "at" tr sp rt tok mint lin plan nc
  proof (rule triple_db_call [OF assms(1)])
    fix now w a db assume w: "P w" and "submit_atomically (w_db w) (new_operation oid kind iid payload at) key tr sp rt tok mint claim lin plan nc now = Inr (a, db)"
    from assms(2) [OF this(1) _ this(2)] show "P (w\<lparr>w_db := db\<rparr>) \<and> (\<forall>recorded. Inr a \<noteq> Inr (Journaled recorded))"
      using w by (simp add: same)
  qed simp
  have quiet: "triple (\<lambda>w. P w \<and> (\<forall>recorded. r \<noteq> Inr (Journaled recorded)))
      (settle_submission E kind iid payload announce op r) (\<lambda>_. P)" for r op
    by (rule triple_assuming)
      (auto simp: settle_submission_def triple_return keeps_replay_outcome [OF assms(1), unfolded keeps_def]
        split: sum.splits submission.splits)
  note tail = triple_bind [OF out quiet, folded keeps_def]
  have now: "keeps P (now_ms E)" unfolding now_ms_def by (rule ext)
  show ?thesis unfolding submit_claiming_def
    by (intro keeps_if keeps_return keeps_bind [OF keeps_guest_token] keeps_case_sum keeps_case_option
        keeps_bind [OF ext] keeps_bind [OF now] keeps_bind [OF keeps_preflight] keeps_bind [OF keeps_gets]
        keeps_Let tail assms(1))
qed

lemma keeps_replayed_submit:
  assumes "undisturbed P E"
    and "\<And>w. P w \<Longrightarrow> schema_ok (w_db w) \<and> find_op_by_idempotency_key (w_db w) key = Some original"
  shows "keeps P (submit E kind iid key payload)"
  unfolding submit_def
  by (intro keep_rules keeps_unjournaled_submit [OF assms(1)])
    (auto simp: recorded_key_replays [where original = original] dest!: assms(2))

text \<open>The key is recorded and the workload is the given one.\<close>

definition recorded_for ::
  "idempotency_key \<Rightarrow> OperationRow \<Rightarrow> task list \<times> instances_row list \<times> operations_row list \<Rightarrow> 's world \<Rightarrow> bool" where
  "recorded_for key earlier c w \<longleftrightarrow> schema_ok (w_db w) \<and> find_op_by_idempotency_key (w_db w) key = Some earlier
     \<and> workload w = c"

lemma recorded_for_db:
  assumes "recorded_for key earlier c w" and "schema_ok db" and "j_operations db = j_operations (w_db w)"
    and "j_instances db = j_instances (w_db w)"
  shows "recorded_for key earlier c (w\<lparr>w_db := db\<rparr>)"
proof -
  have "find_op_by_idempotency_key db key = find_op_by_idempotency_key (w_db w) key"
    by (simp add: find_op_by_idempotency_key_def get_operation_def assms(3) cong: option.case_cong)
  thus ?thesis using assms by (simp add: recorded_for_def workload_def)
qed

interpretation replayed: phase_observed "recorded_for key earlier c" for key earlier c
proof unfold_locales
  fix w :: "'s world" and ev now assume w: "recorded_for key earlier c w"
  thus "recorded_for key earlier c (w\<lparr>w_db := snd (insert_event (w_db w) ev now)\<rparr>)"
    by (rule recorded_for_db) (use w in \<open>auto simp: recorded_for_def schema_ok_events\<close>, simp_all add: insert_event_def Let_def)
qed (simp_all add: recorded_for_def workload_def)

lemma undisturbed_alone: "alone E \<Longrightarrow> (\<And>w x. P w \<Longrightarrow> P (w\<lparr>w_ext := x\<rparr>)) \<Longrightarrow> undisturbed P E"
  by (simp add: undisturbed_def alone_def)

lemma undisturbed_recorded: "alone E \<Longrightarrow> undisturbed (recorded_for key earlier c) E"
  by (rule undisturbed_alone) (simp_all add: recorded_for_def workload_def)

text \<open>
  C24: Fencing a session stops its instance under a key made of the name and the instance
  only.  When that key was used before, by an earlier fence of the same pair, the fence starts
  no executor and changes no instance and no operation, whatever has happened since: an
  instance that was started again after the node won the name back keeps running.
\<close>

theorem second_fence_stops_nothing:
  assumes "alone E" and "schema_ok (w_db w)"
    and "find_op_by_idempotency_key (w_db w) (''fence-'' @ name @ ''-'' @ iid) = Some earlier"
    and "run_state (fence_and_confirm E name iid) w = (u, w')"
  shows "workload w' = workload w"
proof -
  let ?P = "recorded_for (''fence-'' @ name @ ''-'' @ iid) earlier (workload w)"
  note ud = undisturbed_recorded [OF assms(1)]
  have lease: "keeps ?P (db_write E (\<lambda>_ db. mark_lease_fencing db name))"
    "keeps ?P (db_write E (\<lambda>_ db. release_lease db name))"
    unfolding db_write_def
    by (auto intro!: stable_db_call [OF ud] recorded_for_db schema_ok_leases simp: recorded_for_def)
      (simp_all add: mark_lease_fencing_def release_lease_def)
  have "keeps ?P (submit E kind iid (''fence-'' @ name @ ''-'' @ iid) payload)" for kind payload
    by (rule keeps_replayed_submit [OF ud]) (simp add: recorded_for_def)
  hence "keeps ?P (self_fence E name iid)"
    unfolding self_fence_def by (intro keep_rules replayed.event ud)
  hence "keeps ?P (fence_and_confirm E name iid)"
    unfolding fence_and_confirm_def by (intro keep_rules keeps_rest_read lease ud)
  from keepsD [OF this _ assms(4)] show ?thesis
    using assms(2,3) by (simp add: recorded_for_def)
qed

text \<open>The sample instance, and one operation on it recorded under a key.\<close>

definition sample_keyed :: "OperationRow \<Rightarrow> idempotency_key \<Rightarrow> journal" where
  "sample_keyed op key =
     (case insert_operation (set_instance_state sample_journal ''i1'' I_Stopped 4) op key of
        Inr db \<Rightarrow> db | Inl _ \<Rightarrow> sample_journal)"

lemma sample_keyed_ok: "schema_ok (sample_keyed op key)"
proof -
  have "schema_ok (set_instance_state sample_journal ''i1'' I_Stopped 4)"
    using sample_journal_ok by (rule schema_ok_set_instance_state)
  from schema_ok_insert_operation [OF this, of op key] show ?thesis
    using sample_journal_ok by (auto simp: sample_keyed_def split: sum.splits)
qed

theorem second_fence_stops_nothing_witness:
  "\<exists>u w'. run_state (fence_and_confirm sample_env ''web'' ''i1'') (sample_world (sample_keyed sample_op ''fence-web-i1'') ()) = (u, w')
     \<and> workload w' = workload (sample_world (sample_keyed sample_op ''fence-web-i1'') ())"
proof -
  let ?w = "sample_world (sample_keyed sample_op ''fence-web-i1'') ()"
  obtain u w' where run: "run_state (fence_and_confirm sample_env ''web'' ''i1'') ?w = (u, w')"
    by (metis surj_pair)
  have "find_op_by_idempotency_key (w_db ?w) (''fence-'' @ ''web'' @ ''-'' @ ''i1'') = Some sample_op"
    by (simp add: sample_world_def sample_keyed_def find_op_by_idempotency_key_def set_instance_state_def sample_ops_simps)
  from second_fence_stops_nothing [OF sample_quiet(1) _ this run] show ?thesis
    using run sample_keyed_ok by (auto simp: sample_world_def)
qed

lemma triple_faultless_call:
  assumes "undisturbed P E" and "faultless E"
    and "\<And>now w. P w \<Longrightarrow> \<exists>a db. f now (w_db w) = Inr (a, db) \<and> Q (Inr a) (w\<lparr>w_db := db\<rparr>)"
  shows "triple P (db_call E f) Q"
proof -
  have "triple P (extern (en_fault E)) (\<lambda>fault w. P w \<and> fault = None)"
    by (rule triple_yields [OF stable_extern [OF assms(1)] yields_extern]) (use assms(2) in \<open>simp add: faultless_def\<close>)
  moreover have "triple (\<lambda>w. P w \<and> fault = None) (case fault of Some e \<Rightarrow> return (Inl (DE_Fault e))
          | None \<Rightarrow> State (\<lambda>w. case f now (w_db w) of
              Inl e \<Rightarrow> (Inl (DE_Refused e), w) | Inr (a, db) \<Rightarrow> (Inr a, w\<lparr>w_db := db\<rparr>))) Q" for now fault
    by (cases fault) (auto simp: triple_def dest!: assms(3) [of _ now])
  ultimately show ?thesis unfolding db_call_def now_ms_def
    by (intro keeps_then [OF stable_others [OF assms(1)]] keeps_then [OF stable_extern [OF assms(1)]]
        triple_bind [of P "extern (en_fault E)"])
qed

lemma replayed_start_answered:
  assumes "undisturbed P E" and "faultless E" and "key \<noteq> []"
    and "\<And>w. P w \<Longrightarrow> schema_ok (w_db w) \<and> find_op_by_idempotency_key (w_db w) key = Some original"
    and "repeats K_Start iid P_Start original"
  shows "triple P (submit E K_Start iid key P_Start) (\<lambda>r w. P w \<and> r = Inr original)"
proof -
  have replay: "triple P (db_call E (\<lambda>now db. submit_atomically db op key tr sp rt tok mint claim lin plan nc now))
      (\<lambda>r w. P w \<and> r = Inr (Replay original))" for op tr sp rt tok mint claim lin plan nc
    by (rule triple_faultless_call [OF assms(1,2)])
      (auto simp: assms(4) recorded_key_replays [where original = original])
  have answer: "triple (\<lambda>w. P w \<and> r = Inr (Replay original))
      (settle_submission E K_Start iid P_Start (\<lambda>_. return ()) (new_operation oid K_Start iid P_Start now) r)
      (\<lambda>r w. P w \<and> r = Inr (Submitted original))" for r oid now
    by (rule triple_assuming)
      (use assms(5) in \<open>auto simp: settle_submission_def triple_def replay_outcome_def repeats_def\<close>)
  have "triple P (submit_claiming E K_Start iid key P_Start None (\<lambda>_. return ()))
      (\<lambda>r w. P w \<and> r = Inr (Submitted original))"
    unfolding submit_claiming_def if_not_P [OF assms(3)] guest_token_for.simps State_Monad.bind_left_identity
      sum.case preflight_def OpPayload.case option.case Let_def now_ms_def
    by (intro keeps_then [OF stable_extern [OF assms(1)]] keeps_then [OF keeps_gets] triple_bind [OF replay] answer)
  thus ?thesis unfolding submit_def by (rule triple_bind) (auto intro: tripleI)
qed


definition sample_start :: OperationRow where
  "sample_start = sample_op\<lparr>or_kind := ''start'', or_payload := payload_descriptor P_Start\<rparr>"


section \<open>What is held is remembered\<close>

definition lease_names :: "journal \<Rightarrow> string set" where
  "lease_names db = fl_name ` set (j_fleet_leases db)"

definition names_held :: "'s world \<Rightarrow> string set" where
  "names_held w = fst ` set (held_of w)"

text \<open>No other task takes up a name or forgets a lease: only a pass does.\<close>

definition lease_quiet :: "'s env \<Rightarrow> bool" where
  "lease_quiet E \<longleftrightarrow> (\<forall>w. names_held (en_others E w) \<subseteq> names_held w \<and> lease_names (w_db w) \<subseteq> lease_names (w_db (en_others E w)))"

text \<open>Every name held in memory, but those of \<open>D\<close>, has its row; the names of \<open>G\<close> are not held, those of \<open>R\<close> have one.\<close>

definition journaled :: "string set \<Rightarrow> string set \<Rightarrow> string set \<Rightarrow> 's world \<Rightarrow> bool" where
  "journaled D G R w \<longleftrightarrow> names_held w - D \<subseteq> lease_names (w_db w) \<and> names_held w \<inter> G = {} \<and> R \<subseteq> lease_names (w_db w)"

lemma undisturbed_journaled: "lease_quiet E \<Longrightarrow> undisturbed (journaled D G R) E"
proof -
  have "names_held (w\<lparr>w_ext := x\<rparr>) = names_held w" for w :: "'a world" and x
    by (simp add: names_held_def held_of_def)
  moreover assume "lease_quiet E"
  ultimately show ?thesis unfolding undisturbed_def lease_quiet_def journaled_def by simp blast
qed

lemma set_bt_insert: "fst ` set (bt_insert k v m) = insert k (fst ` set m)"
proof (induction m)
  case (Cons p m)
  thus ?case by (cases p) (simp add: insert_commute)
qed simp

lemma set_bt_remove: "fst ` set (bt_remove k m) = fst ` set m - {k}"
  by (induction m) (auto simp: bt_remove_def)

lemma names_held_update:
  "names_held (w_fleet_update (map_option (ft_held_update f)) w) =
     (case w_fleet w of None \<Rightarrow> {} | Some F \<Rightarrow> fst ` set (f (ft_held F)))"
  by (cases "w_fleet w") (simp_all add: names_held_def held_of_def)

lemma names_hold_name:
  assumes "run_state (hold_name name h) w = (u, w')"
  shows "w_db w' = w_db w \<and> names_held w' \<subseteq> insert name (names_held w)"
proof -
  have w': "w' = w_fleet_update (map_option (ft_held_update (bt_insert name h))) w"
    using assms by (simp add: hold_name_def with_fleet_def modify_def)
  show ?thesis unfolding w' names_held_update
    by (cases "w_fleet w") (simp_all add: set_bt_insert names_held_def held_of_def)
qed

lemma names_drop_name:
  assumes "run_state (drop_name name) w = (u, w')"
  shows "w_db w' = w_db w \<and> names_held w' = names_held w - {name}"
proof -
  have w': "w' = w_fleet_update (map_option (ft_held_update (bt_remove name))) w"
    using assms by (simp add: drop_name_def with_fleet_def modify_def)
  show ?thesis unfolding w' names_held_update
    by (cases "w_fleet w") (simp_all add: set_bt_remove names_held_def held_of_def)
qed

lemma keeps_case_submission:
  "(\<And>a. x = Journaled a \<Longrightarrow> keeps P (f a)) \<Longrightarrow> (\<And>a. x = Replay a \<Longrightarrow> keeps P (g a)) \<Longrightarrow> (x = Conflict \<Longrightarrow> keeps P c) \<Longrightarrow>
   (\<And>a. x = Rejected a \<Longrightarrow> keeps P (h a)) \<Longrightarrow> (x = ClaimSuperseded \<Longrightarrow> keeps P s) \<Longrightarrow>
   keeps P (case x of Journaled a \<Rightarrow> f a | Replay a \<Rightarrow> g a | Conflict \<Rightarrow> c | Rejected a \<Rightarrow> h a | ClaimSuperseded \<Rightarrow> s)"
  by (cases x) simp_all

lemma submit_leases:
  assumes "submit_atomically db op key tr sp rt tok mint claim lin plan nc now = Inr (res, db')"
  shows "j_fleet_leases db' = j_fleet_leases db"
  using assms
proof (cases rule: submit_atomically_Inr)
  case (journaled recorded db1)
  have "j_fleet_leases db1 = j_fleet_leases db"
    using journaled(5) by (auto simp: take_deadline_def split_beta)
  thus ?thesis using journaled(6)
    by (auto simp: submit_writes_def insert_operation_def split: if_splits option.splits sum.splits)
qed simp

text \<open>A condition on the names in memory and the rows of the leases alone.\<close>

lemma phase_invariant_leases:
  fixes P :: "'s world \<Rightarrow> bool"
  assumes "\<And>w w'. P w \<Longrightarrow> held_of w' = held_of w \<Longrightarrow> j_fleet_leases (w_db w') = j_fleet_leases (w_db w) \<Longrightarrow> P w'"
  shows "phase_invariant P"
proof unfold_locales
  fix w :: "'s world" and ev now assume "P w"
  thus "P (w\<lparr>w_db := snd (insert_event (w_db w) ev now)\<rparr>)"
    by (rule assms) (simp_all add: held_of_def insert_event_def Let_def)
next
  fix w :: "'s world" and f g assume "P w"
  thus "P (w_fleet_update (map_option (ft_outage_update f)) w)"
    and "P (w_fleet_update (map_option (ft_holds_reported_update g)) w)"
    by (rule assms, simp_all add: held_of_def split: option.splits)+
next
  fix E :: "'s env" and kind iid key payload assume ud: "undisturbed P E"
  have event: "keeps P (record_event E ev)" for ev
    unfolding record_event_def by (intro keep_rules stable_db_call [OF ud])
      (erule assms, auto simp: held_of_def insert_event_def Let_def)
  have tasks: "keeps P (modify (w_tasks_update f))" for f
    unfolding modify_def by (rule keepsI) (auto elim!: assms simp: held_of_def)
  have commit: "keeps P (db_call E (\<lambda>now db. submit_atomically db op key tr sp rt tok mint claim lin plan nc now))"
    for op tr sp rt tok mint claim lin plan nc
    by (rule stable_db_call [OF ud]) (erule assms, auto simp: held_of_def dest: submit_leases)
  have "keeps P (submit_claiming E kind iid key payload None (\<lambda>_. return ()))"
    unfolding submit_claiming_def settle_submission_def accept_def now_ms_def
    by (intro keep_rules keeps_case_submission keeps_guest_token keeps_preflight keeps_replay_outcome commit event tasks
        stable_extern [OF ud] ud)
  thus "keeps P (submit E kind iid key payload)" unfolding submit_def by (intro keep_rules)
qed

interpretation remembered: phase_invariant "journaled D G R" for D G R
  by (rule phase_invariant_leases) (simp add: journaled_def names_held_def lease_names_def)

lemma journaled_hold: "name \<in> R \<Longrightarrow> name \<notin> G \<Longrightarrow> keeps (journaled D G R) (hold_name name h)"
  by (rule keepsI, drule names_hold_name) (auto simp: journaled_def)

lemma journaled_drop: "keeps (journaled D G R) (drop_name name)"
  by (rule keepsI, drule names_drop_name) (auto simp: journaled_def)

lemma journaled_dropped:
  "triple (journaled {} G R) (drop_name name) (\<lambda>_. journaled {} (insert name G) R)"
  "triple (journaled {name} G R) (drop_name name) (\<lambda>_. journaled {} G R)"
  by (rule tripleI, drule names_drop_name, auto simp: journaled_def)+

lemma names_sql_update: "(\<And>r. fl_name (f r) = fl_name r) \<Longrightarrow> fl_name ` set (sql_update p f t) = fl_name ` set t"
  by (induction t) (simp_all add: sql_update_def)

lemma names_lease_writes:
  "lease_names (mark_lease_fencing db name) = lease_names db"
  "lease_names (set_lease_instance db name iid) = lease_names db"
  "lease_names (release_lease db name) = lease_names db - {name}"
  "lease_names (hold_lease db name epoch iid now) = insert name (lease_names db)"
  by (simp_all add: lease_names_def lease_defs names_sql_update)
    (auto simp: sql_delete_def has_key_def)

lemma journaled_write:
  fixes E :: "'s env"
  assumes "undisturbed (journaled D G R) E"
    and "\<And>now w :: 's world. journaled D G R w \<Longrightarrow> journaled D' G' R' (w\<lparr>w_db := f now (w_db w)\<rparr>)"
    and "\<And>w :: 's world. journaled D G R w \<Longrightarrow> journaled D' G' R' w"
  shows "triple (journaled D G R) (db_write E f) (\<lambda>_. journaled D' G' R')"
  unfolding db_write_def by (rule triple_db_call [OF assms(1)]) (auto intro: assms(2,3))

lemma run_held_names: "run_state held_names w = (held_of w, w)"
  by (simp add: held_names_def gets_def held_of_def)

lemma held_lookup: "map_of (held_of w) name = Some h \<Longrightarrow> name \<in> names_held w"
  unfolding names_held_def by (rule image_eqI [of _ _ "(name, h)"]) (auto dest: map_of_SomeD)

lemma names_held_with_db [simp]: "names_held (w\<lparr>w_db := db\<rparr>) = names_held w"
  by (simp add: names_held_def held_of_def)

lemma journaled_with_db [simp]:
  "journaled D G R (w\<lparr>w_db := db\<rparr>) \<longleftrightarrow> names_held w - D \<subseteq> lease_names db \<and> names_held w \<inter> G = {} \<and> R \<subseteq> lease_names db"
  by (simp add: journaled_def names_held_def held_of_def)

lemma journaled_lease_writes:
  assumes "undisturbed (journaled D G R) E"
  shows "keeps (journaled D G R) (db_write E (\<lambda>_ db. mark_lease_fencing db name))"
    and "keeps (journaled D G R) (db_write E (\<lambda>_ db. set_lease_instance db name iid))"
    and "name \<in> G \<Longrightarrow> name \<notin> R \<Longrightarrow> keeps (journaled D G R) (db_write E (\<lambda>_ db. release_lease db name))"
  unfolding keeps_def
  by (rule journaled_write [OF assms]; auto simp: names_lease_writes journaled_def)+

lemma journaled_fence:
  assumes "lease_quiet E" and "name \<in> G"
  shows "keeps (journaled D G {}) (fence_and_confirm E name iid)"
  unfolding fence_and_confirm_def using assms(2)
  by (intro keep_rules journaled_lease_writes remembered.fencing keeps_rest_read undisturbed_journaled [OF assms(1)]) auto

lemma journaled_weaken:
  "journaled D G R w \<Longrightarrow> D \<subseteq> D' \<Longrightarrow> G' \<subseteq> G \<Longrightarrow> R' \<subseteq> R \<Longrightarrow> journaled D' G' R' w"
  unfolding journaled_def by blast

lemma journaled_looked_up:
  "triple (journaled {} G {}) held_names
     (\<lambda>held w. (case map_of held name of None \<Rightarrow> journaled {} G {} w | Some _ \<Rightarrow> journaled {} G {name} w \<and> name \<notin> G))"
  by (rule tripleI) (auto simp: run_held_names journaled_def dest!: held_lookup split: option.splits)

lemma journaled_apply_renewal:
  assumes "name \<notin> fst ` set fs"
  shows "triple (journaled {} (fst ` set fs) {name}) (apply_renewal name current (report, reached, fs) outcome)
           (\<lambda>(_, _, fs') w. journaled {} (fst ` set fs') {} w)"
proof -
  have same: "triple (journaled {} (fst ` set fs) {name}) (return (rep, b, fs))
      (\<lambda>(_, _, fs') w. journaled {} (fst ` set fs') {} w)" for rep :: PassReport and b :: bool
    by (rule triple_return) (auto intro: journaled_weaken)
  have gone: "triple (journaled {} (insert name (fst ` set fs)) {name}) (return (rep, b, fs @ [(name, iid)]))
      (\<lambda>(_, _, fs') w. journaled {} (fst ` set fs') {} w)" for rep :: PassReport and b :: bool and iid
    by (rule triple_return) (auto intro: journaled_weaken)
  show ?thesis
  proof (cases outcome)
    case (Inr r)
    thus ?thesis using assms
      by (cases r) (auto simp: apply_renewal_def intro: keeps_then [OF journaled_hold same]
          triple_bind [OF journaled_dropped(1) gone])
  qed (simp add: apply_renewal_def same)
qed

lemma journaled_renew_one:
  assumes "lease_quiet E"
  shows "triple (journaled {} (fst ` set fs) {}) (renew_one E F name (report, reached, fs))
           (\<lambda>(_, _, fs') w. journaled {} (fst ` set fs') {} w)"
proof -
  note ud = undisturbed_journaled [OF assms]
  have none: "triple (journaled {} (fst ` set fs) {}) (return (report, reached, fs))
      (\<lambda>(_, _, fs') w. journaled {} (fst ` set fs') {} w)"
    by (rule triple_return) simp
  show ?thesis unfolding renew_one_def
    apply (rule keeps_then [OF stable_others [OF ud]], rule triple_bind [OF journaled_looked_up [of _ name]])
    subgoal for u held
      by (cases "map_of held name")
        (auto intro!: none triple_assuming keeps_then [OF remembered.stamp_value [OF ud]]
          keeps_then [OF remembered.outside(4) [OF ud]] keeps_then [OF stable_await [OF ud]] journaled_apply_renewal)
    done
qed

lemma journaled_renewals:
  assumes "lease_quiet E"
  shows "triple (journaled {} (fst ` set fs) {}) (fold_each (renew_one E F) names (report, reached, fs))
           (\<lambda>(_, _, fs') w. journaled {} (fst ` set fs') {} w)"
proof (induction names arbitrary: report reached fs)
  case (Cons name names)
  show ?case unfolding fold_each.simps
    apply (rule triple_bind [OF journaled_renew_one [OF assms]])
    subgoal for acc using Cons.IH by (cases acc) auto
    done
qed (auto intro: triple_return)

lemma journaled_readopt:
  assumes "lease_quiet E"
  shows "hl_name ` set rows \<subseteq> R \<Longrightarrow> keeps (journaled {} {} R) (readopt_each E F names rows cs)"
proof (induction rows arbitrary: cs)
  case (Cons row rows)
  note ud = undisturbed_journaled [OF assms]
  have "keeps (journaled {} {} R) (readopt E F names row cs)"
    unfolding readopt_def
    by (intro keep_rules journaled_hold remembered.outside ud) (use Cons.prems in auto)
  thus ?case unfolding readopt_each.simps by (intro keep_rules Cons.IH) (use Cons.prems in auto)
qed (simp add: keeps_return)

lemma journaled_release_one:
  assumes "lease_quiet E"
  shows "keeps (journaled {} {} {}) (release_one E names c report)"
proof -
  note ud = undisturbed_journaled [OF assms]
  have "triple (journaled {} {} {}) (db_write E (\<lambda>_ db. release_lease db name)) (\<lambda>_. journaled {name} {} {})" for name
    by (rule journaled_write [OF ud]) (auto simp: names_lease_writes journaled_def)
  hence "keeps (journaled {} {} {}) (do {
      _ \<leftarrow> db_write E (\<lambda>_ db. release_lease db name); others E; drop_name name; return r })" for name and r :: PassReport
    unfolding keeps_def
    by (rule triple_bind)
      (intro keeps_then [OF stable_others [OF ud]] triple_bind [OF journaled_dropped(2)] triple_return)
  thus ?thesis unfolding release_one_def
    by (intro keeps_case_prod keeps_Let keeps_bind [OF keeps_if [OF keeps_return keeps_rest_read]] keeps_case_sum
        keeps_case_release keeps_return keeps_bind [OF remembered.submits] keeps_bind [OF stable_others]
        keeps_bind [OF stable_await] ud)
qed

lemma journaled_sweep:
  assumes "lease_quiet E"
  shows "keeps (journaled {} {} {}) (release_sweep E F names report)"
proof -
  note ud = undisturbed_journaled [OF assms]
  let ?rows = "\<lambda>r. case r of Inr rows \<Rightarrow> rows | Inl _ \<Rightarrow> []"
  have rows: "triple (journaled {} {} {}) (db_read E held_leases) (\<lambda>r. journaled {} {} (hl_name ` set (?rows r)))"
    by (rule triple_db_read [OF ud])
      (auto simp: journaled_def lease_names_def held_leases_def held_lease_from_def)
  have adopted: "triple (journaled {} {} (hl_name ` set rows)) (readopt_each E F names rows cs) (\<lambda>_. journaled {} {} {})" for rows cs
    by (rule triple_post [OF journaled_readopt [OF assms order_refl, unfolded keeps_def]]) (simp add: journaled_def)
  have "keeps (journaled {} {} {}) (fold_each (release_one E names) cs report)" for cs
    by (intro keep_rules journaled_release_one assms)
  thus ?thesis unfolding release_sweep_def keeps_def
    by (intro keeps_then [OF stable_others [OF ud]] keeps_then [OF keeps_held_names] triple_bind [OF rows]
        triple_bind [OF adopted] triple_case_option) (auto intro: triple_return)
qed

lemma journaled_apply_acquisition:
  assumes "lease_quiet E"
  shows "triple (journaled {} {} {}) (apply_acquisition E name report outcome)
     (\<lambda>(taken, _) w. journaled {} {} (if isl taken then {} else {name}) w)"
proof -
  note ud = undisturbed_journaled [OF assms]
  let ?Q = "\<lambda>(taken, _ :: PassReport) w. journaled {} {} (if isl taken then {} else {name}) w"
  have row: "triple (journaled {} {} {}) (db_write E (\<lambda>now db. hold_lease db name epoch iid now))
      (\<lambda>r. journaled {} {} (if isl r then {} else {name}))" for epoch iid
    unfolding db_write_def
    by (rule triple_db_call [OF ud]) (auto simp: names_lease_writes journaled_def)
  have "triple (journaled {} {} (if isl r then {} else {name})) (case r of
               Inl _ \<Rightarrow> do { _ \<leftarrow> await E (\<lambda>x. release (en_bucket E) x name h); return (Inl True, rep) }
             | Inr _ \<Rightarrow> do { others E; hold_name name h; return (Inr h, rep) }) ?Q" for r :: "db_error + unit" and h rep
    by (cases r) (auto intro!: keeps_then [OF stable_await [OF ud]] keeps_then [OF stable_others [OF ud]]
        keeps_then [OF journaled_hold] triple_return)
  thus ?thesis
    by (cases outcome; (cases "projr outcome")?)
      (auto simp: apply_acquisition_def intro!: triple_bind [OF row] triple_return)
qed

lemma journaled_take_lease:
  assumes "lease_quiet E"
  shows "triple (journaled {} {} {}) (take_lease E F name report)
     (\<lambda>(taken, _) w. journaled {} {} (if isl taken then {} else {name}) w)"
proof -
  note ud = undisturbed_journaled [OF assms]
  show ?thesis unfolding take_lease_def
    apply (rule keeps_then [OF stable_others [OF ud]], rule triple_bind [OF journaled_looked_up [of _ name]])
    subgoal for u held
      by (cases "map_of held name")
        (auto intro!: triple_return keeps_then [OF stable_others [OF ud]] keeps_then [OF remembered.outside(4) [OF ud]]
          keeps_then [OF stable_await [OF ud]] journaled_apply_acquisition assms)
    done
qed

lemma journaled_advance:
  assumes "lease_quiet E"
  shows "keeps (journaled {} {} {ds_name want}) (advance_session E hs want h spec rid fresh report)"
proof -
  note ud = undisturbed_journaled [OF assms]
  have "keeps (journaled {} {} {name}) (name_instance E name h iid rid fresh report)" for name iid
    unfolding name_instance_def
    by (intro keep_rules remembered.outside remembered.event remembered.fencing journaled_hold journaled_drop
        journaled_lease_writes ud) auto
  thus ?thesis unfolding advance_session_def
    by (intro keep_rules remembered.event remembered.hold_reported remembered.materialising keeps_rest_read ud)
qed

lemma journaled_realise:
  assumes "lease_quiet E"
  shows "keeps (journaled {} {} {}) (realise_each E F hs wants report)"
proof -
  note ud = undisturbed_journaled [OF assms]
  have weak: "triple (journaled {} {} R) m (\<lambda>_. journaled {} {} {})" if "keeps (journaled {} {} R) m"
    for R and m :: "('s, bool \<times> PassReport) act"
    by (rule triple_post [OF that [unfolded keeps_def]]) (rule journaled_weaken; auto)
  have rest: "keeps (journaled {} {} {ds_name want}) (case spec_of (en_decode_spec E) want of
            Inl _ \<Rightarrow> return (True, rep)
          | Inr spec \<Rightarrow> do {
              chosen \<leftarrow> choose_instance E h spec;
              case chosen of
                Inl _ \<Rightarrow> return (True, rep)
              | Inr (spec', fresh) \<Rightarrow> do {
                  report \<leftarrow> advance_session E hs want h spec' (sp_instance_id spec) fresh rep;
                  return (True, report) } })" for want rep h
    by (intro keep_rules remembered.choosing ud journaled_advance assms)
  have "keeps (journaled {} {} {}) (realise_one E F hs want report)" for want report
    unfolding realise_one_def keeps_def
    apply (rule triple_bind [OF journaled_take_lease [OF assms]])
    subgoal for a
      by (cases a; cases "fst a") (auto intro: triple_return weak [OF rest])
    done
  thus ?thesis by (induction wants arbitrary: report) (auto intro!: keep_rules)
qed

text \<open>
  C22: Whatever the bucket answers and whichever statements fail, a pass keeps every name held
  in memory remembered by a row of the journal: a name is journaled before it is held, and
  its row goes only once the name is no longer held.  A crash at the end of any pass finds a
  row for everything the node owned.
\<close>

theorem held_leases_are_remembered:
  assumes "lease_quiet E" and "names_held w \<subseteq> lease_names (w_db w)"
    and "run_state (pass E F) w = (report, w')"
  shows "names_held w' \<subseteq> lease_names (w_db w')"
proof -
  note ud = undisturbed_journaled [OF assms(1)]
  have acq: "keeps (journaled {} {} {}) (acquire_and_materialise E F rep)" for rep
    unfolding acquire_and_materialise_def desired_def
    by (intro keep_rules stable_rules journaled_sweep journaled_realise ud assms(1))
  have fences: "keeps (journaled {} G {}) (for_each (\<lambda>(name, iid). fence_and_confirm E name iid) fs)"
    if "fst ` set fs \<subseteq> G" for fs G
    using that by (induction fs) (auto intro!: keep_rules journaled_fence [OF assms(1)])
  have after: "triple (journaled {} (fst ` set fs) {}) (after_renewals E F b (rep, reached, fs)) (\<lambda>_. journaled {} {} {})"
    for rep reached fs b
    unfolding after_renewals_def prod.case
    by (intro keeps_then [OF keeps_if [OF remembered.outage [OF ud] keeps_return]] keeps_then [OF fences [OF order_refl]]
        triple_pre [of "journaled {} {} {}", OF keeps_if [OF keeps_return acq, unfolded keeps_def]])
      (rule journaled_weaken; auto)
  have "triple (journaled {} {} {}) (pass E F) (\<lambda>_. journaled {} {} {})" unfolding pass_def
    apply (intro keeps_then [OF stable_others [OF ud]] keeps_then [OF keeps_held_names])
    apply (rule triple_bind [OF journaled_renewals [OF assms(1), of "[]", simplified]])
    subgoal for u held acc using after by (cases acc) auto
    done
  from tripleD [OF this _ assms(3)] show ?thesis using assms(2) by (simp add: journaled_def)
qed

theorem held_leases_are_remembered_witness:
  "\<exists>report w'. run_state (pass sample_env sample_fleet) (sample_holder sample_ops_journal) = (report, w')
     \<and> names_held (sample_holder sample_ops_journal) = {''web''} \<and> names_held w' \<subseteq> lease_names (w_db w')"
proof -
  obtain report w' where run: "run_state (pass sample_env sample_fleet) (sample_holder sample_ops_journal) = (report, w')"
    by (metis surj_pair)
  have names: "names_held (sample_holder sample_ops_journal) = {''web''}"
    by (simp add: names_held_def held_of_def sample_holder_def sample_fleet_def)
  have "lease_quiet (sample_env :: unit env)" by (simp add: lease_quiet_def sample_env_def)
  moreover have "names_held (sample_holder sample_ops_journal) \<subseteq> lease_names (w_db (sample_holder sample_ops_journal))"
    unfolding names by (simp add: sample_holder_def sample_world_def names_lease_writes)
  ultimately show ?thesis using held_leases_are_remembered [OF _ _ run] run names by blast
qed

section \<open>Recovery\<close>

text \<open>What the bucket says of a name and an epoch: this node owns it still.\<close>

definition still_ours :: "(string \<Rightarrow> fleet_error + Lease option) \<Rightarrow> Fleet \<Rightarrow> string \<Rightarrow> int \<Rightarrow> bool" where
  "still_ours answer F name epoch \<longleftrightarrow>
     (\<exists>lease. answer name = Inr (Some lease) \<and> ls_owner lease = ft_node_id F \<and> ls_epoch lease = epoch)"

text \<open>Every remembered lease is ours, is being fenced, or is one of the rows still to be looked at.\<close>

definition accounted ::
  "(string \<Rightarrow> fleet_error + Lease option) \<Rightarrow> Fleet \<Rightarrow> HeldLeaseRow list \<Rightarrow> 's world \<Rightarrow> bool" where
  "accounted answer F rows w \<longleftrightarrow> (\<forall>r \<in> set (held_leases (w_db w)).
     hl_fencing r \<or> still_ours answer F (hl_name r) (hl_epoch r)
     \<or> (hl_name r, hl_epoch r) \<in> (\<lambda>h. (hl_name h, hl_epoch h)) ` set rows)"

interpretation accounted: phase_invariant "accounted answer F rows" for answer F rows
  by (rule phase_invariant_leases) (simp add: accounted_def held_leases_def)

lemma set_held_leases: "set (held_leases db) = held_lease_from ` set (j_fleet_leases db)"
  by (simp add: held_leases_def)

lemma held_leases_writes:
  "set (held_leases (mark_lease_fencing db name)) =
     (\<lambda>h. if hl_name h = name then h\<lparr>hl_fencing := True\<rparr> else h) ` set (held_leases db)"
  "set (held_leases (release_lease db name)) \<subseteq> set (held_leases db)"
proof -
  have "held_lease_from ` (\<lambda>r. if fl_name r = name then r\<lparr>fl_fencing := True\<rparr> else r) ` t
      = (\<lambda>h. if hl_name h = name then h\<lparr>hl_fencing := True\<rparr> else h) ` held_lease_from ` t" for t
    unfolding image_image by (rule image_cong) (simp_all add: held_lease_from_def)
  thus "set (held_leases (mark_lease_fencing db name)) =
     (\<lambda>h. if hl_name h = name then h\<lparr>hl_fencing := True\<rparr> else h) ` set (held_leases db)"
    unfolding set_held_leases mark_lease_fencing_def sql_update_def by simp
qed (auto simp: set_held_leases release_lease_def sql_delete_def)

lemma fence_accounts:
  assumes "alone E" and "faultless E"
  shows "triple (accounted answer F (row # rows)) (fence_and_confirm E (hl_name row) iid)
           (\<lambda>_. accounted answer F rows)"
proof -
  have ud: "undisturbed (accounted answer F rs) E" for rs
    by (rule undisturbed_alone [OF assms(1)]) (simp add: accounted_def)
  have mark: "triple (accounted answer F (row # rows)) (db_write E (\<lambda>_ db. mark_lease_fencing db (hl_name row)))
      (\<lambda>_. accounted answer F rows)"
    unfolding db_write_def
    by (rule triple_faultless_call [OF ud assms(2)]) (fastforce simp: accounted_def held_leases_writes)
  have forget: "keeps (accounted answer F rows) (db_write E (\<lambda>_ db. release_lease db name))" for name
    unfolding db_write_def
    by (rule stable_db_call [OF ud]) (use held_leases_writes(2) in \<open>fastforce simp: accounted_def\<close>)
  have "keeps (accounted answer F rows) (do {
     self_fence E (hl_name row) iid;
     if iid = [] then do { _ \<leftarrow> db_write E (\<lambda>_ db. release_lease db (hl_name row)); return () }
     else do {
       r \<leftarrow> db_read E (\<lambda>db. get_instance db iid);
       let stopped = (case found r of
                        Some row \<Rightarrow> ir_state row \<in> {I_Stopped, I_Destroyed, I_Paused} | None \<Rightarrow> True);
       if stopped then do { _ \<leftarrow> db_write E (\<lambda>_ db. release_lease db (hl_name row)); return () } else return () } })"
    by (intro keep_rules accounted.fencing forget keeps_rest_read ud)
  thus ?thesis unfolding fence_and_confirm_def keeps_def by (rule triple_bind [OF mark])
qed

text \<open>
  C23: Recovery of the leases a restarted node remembers, when the bucket answers: every row
  that is left is one the bucket still gives to this node at the remembered epoch, or is
  marked as being fenced.  No session that was taken over, or whose record is gone, is left
  looking owned.
\<close>

theorem recovery_disowns_what_was_taken:
  assumes "alone E" and "faultless E"
    and "\<forall>x name. resolve (en_bucket E) x name = answer name" and "\<forall>name. \<not> isl (answer name)"
    and "run_state (fleet_recover E F) w = (u, w')" and "row \<in> set (held_leases (w_db w'))"
  shows "hl_fencing row \<or> still_ours answer F (hl_name row) (hl_epoch row)"
proof -
  have ud: "undisturbed (accounted answer F rs) E" for rs
    by (rule undisturbed_alone [OF assms(1)]) (simp add: accounted_def)
  have each: "triple (accounted answer F rows) (fleet_recover_each E F rows) (\<lambda>_. accounted answer F [])" for rows
  proof (induction rows)
    case (Cons row rows)
    have kept: "accounted answer F rows v" if "accounted answer F (row # rows) v"
      "still_ours answer F (hl_name row) (hl_epoch row)" for v :: "'a world"
      using that by (auto simp: accounted_def)
    have heard: "triple (accounted answer F (row # rows)) (await E (\<lambda>x. (resolve (en_bucket E) x (hl_name row), x)))
        (\<lambda>r v. accounted answer F (row # rows) v \<and> r = answer (hl_name row))"
      by (rule triple_yields [OF stable_await [OF ud] yields_await]) (simp add: assms(3))
    have "triple (accounted answer F (row # rows)) (confirm_lease E F row seen) (\<lambda>_. accounted answer F rows)"
      if "answer (hl_name row) = Inr seen" for seen
      using that fence_accounts [OF assms(1,2)]
      by (cases seen) (auto simp: confirm_lease_def still_ours_def intro!: triple_return kept)
    hence "triple (\<lambda>v. accounted answer F (row # rows) v \<and> r = answer (hl_name row)) (case r of
        Inr seen \<Rightarrow> do { confirm_lease E F row seen; fleet_recover_each E F rows } | Inl _ \<Rightarrow> return ())
        (\<lambda>_. accounted answer F [])" for r
      using assms(4) [rule_format, of "hl_name row"]
      by (intro triple_assuming) (cases "answer (hl_name row)", auto intro: triple_bind [OF _ Cons.IH])
    thus ?case unfolding fleet_recover_each.simps by (rule triple_bind [OF heard])
  qed (simp add: triple_return)
  have start: "triple (\<lambda>_. True) (db_read E held_leases) (\<lambda>r v. \<exists>rows. r = Inr rows \<and> accounted answer F rows v)"
    unfolding db_read_def
    by (rule triple_faultless_call [OF _ assms(2)]) (auto simp: accounted_def undisturbed_def)
  have "triple (\<lambda>_. True) (fleet_recover E F) (\<lambda>_. accounted answer F [])"
    unfolding fleet_recover_def
    by (rule triple_bind [OF start]) (auto split: sum.splits intro: triple_pre [OF each] simp: triple_def [of "\<lambda>_. False"])
  from tripleD [OF this TrueI assms(5)] show ?thesis using assms(6) by (auto simp: accounted_def)
qed

text \<open>A bucket whose every read finds no record.\<close>

definition sample_lost_env :: "unit env" where
  "sample_lost_env = sample_env\<lparr>en_bucket := sample_bucket\<lparr>be_get := (\<lambda>_ _. Inr None)\<rparr>\<rparr>"

theorem recovery_disowns_what_was_taken_witness:
  "\<exists>u w'. run_state (fleet_recover sample_lost_env sample_fleet) (sample_holder sample_ops_journal) = (u, w')
     \<and> list_all hl_fencing (held_leases (w_db w'))"
proof -
  obtain u w' where run: "run_state (fleet_recover sample_lost_env sample_fleet) (sample_holder sample_ops_journal) = (u, w')"
    by (metis surj_pair)
  have quiet: "alone sample_lost_env" "faultless sample_lost_env"
    by (simp_all add: sample_lost_env_def alone_def faultless_def sample_env_def)
  have answer: "\<forall>x name. resolve (en_bucket sample_lost_env) x name = Inr None"
    by (simp add: sample_lost_env_def resolve_def read_lease_def)
  have "hl_fencing row" if "row \<in> set (held_leases (w_db w'))" for row
    using recovery_disowns_what_was_taken [OF quiet answer _ run that] by (simp add: still_ours_def)
  thus ?thesis using run by (auto simp: list_all_iff)
qed

end
