(* ===== verification/Reconcile.thy ===== *)
theory Reconcile
  imports Fleet_Phase
begin

text \<open>
  \<open>reconcile.rs\<close>: the duties of one tick.  Wake alarms and expired leases become
  operations; the journal's retention, leaked sandboxes, vanished sandboxes and orphaned
  credentials are swept; the fleet phase runs; running guests are probed.

  The probes of one tick run concurrently and each is abandoned after a time limit.  An
  abandoned probe is at one of its two awaited calls and has done nothing, which is what
  an error of that call does; the others are among \<open>others\<close>.
\<close>

section \<open>What a lease that ran out asks for\<close>

definition TTL_STOP_GRACE_SECONDS :: int where
  "TTL_STOP_GRACE_SECONDS = 5"

datatype Resolved = ResolvedStop "notice option" | ResolvedDestroy | ResolvedPause

definition resolve_ttl_action :: "ttl_action \<Rightarrow> string \<Rightarrow> bool \<Rightarrow> Resolved" where
  "resolve_ttl_action action runtime_name memory_snapshot =
     (case action of
        TA_Destroy \<Rightarrow> ResolvedDestroy
      | TA_Stop \<Rightarrow> ResolvedStop None
      | _ \<Rightarrow>
          if memory_snapshot then ResolvedPause
          else ResolvedStop (Some (Notice ''ttl_action PAUSE to STOP: no memory_snapshot capability'' [A_Text runtime_name])))"

fun resolved_request :: "Resolved \<Rightarrow> OpKind \<times> OpPayload" where
  "resolved_request (ResolvedStop _) = (K_Stop, P_Stop TTL_STOP_GRACE_SECONDS)"
| "resolved_request ResolvedDestroy = (K_Destroy, P_Destroy True)"
| "resolved_request ResolvedPause = (K_Pause, P_Pause False)"

fun downgrade_of :: "Resolved \<Rightarrow> notice option" where
  "downgrade_of (ResolvedStop degraded) = degraded"
| "downgrade_of _ = None"

definition announce_downgrade :: "'s env \<Rightarrow> instance_id \<Rightarrow> Resolved \<Rightarrow> ('s, unit) act" where
  "announce_downgrade E iid resolution =
     (case downgrade_of resolution of
        Some message \<Rightarrow> record_event E (degradation iid [] (en_text E message))
      | None \<Rightarrow> return ())"

definition resolve_for :: "'s env \<Rightarrow> ttl_action \<Rightarrow> Resolved" where
  "resolve_for E action =
     resolve_ttl_action action (rt_name (en_runtime E)) (cap_memory_snapshot (rt_capabilities (en_runtime E)))"

section \<open>Leases that ran out\<close>

definition enforce_ttl :: "'s env \<Rightarrow> InstanceRow \<Rightarrow> ('s, unit) act" where
  "enforce_ttl E row =
     (case ir_ttl_deadline_ms row of
        None \<Rightarrow> return ()
      | Some deadline \<Rightarrow> do {
          now \<leftarrow> now_ms E;
          if now < deadline then return ()
          else do {
            let resolution = resolve_for E (sp_ttl_action (ir_spec row));
            let (kind, payload) = resolved_request resolution;
            r \<leftarrow> submit_claiming E kind (ir_id row) (''ttl:'' @ ir_id row @ '':'' @ dec_i deadline) payload
                  (Some (TtlExpiry deadline)) (\<lambda>_. announce_downgrade E (ir_id row) resolution);
            case r of
              Inr _ \<Rightarrow> return ()
            | Inl e \<Rightarrow>
                if se_reason e = ER_ConcurrentOperation then return ()
                else record_event E (degradation (ir_id row) []
                       (say E ''TTL expired and its action could not be submitted'' [A_Op kind])) } })"

definition note_activity :: "'s env \<Rightarrow> instance_id \<Rightarrow> ('s, unit) act" where
  "note_activity E iid = do {
     r \<leftarrow> db_read E (\<lambda>db. get_instance db iid);
     case found r of
       None \<Rightarrow> return ()
     | Some row \<Rightarrow>
         if sp_ttl_seconds (ir_spec row) = 0 then return ()
         else do {
           deadline \<leftarrow> ttl_deadline_ms E (sp_ttl_seconds (ir_spec row));
           _ \<leftarrow> db_write E (\<lambda>now db. set_ttl_deadline db iid (Some deadline) now);
           return () } }"

section \<open>Wake alarms\<close>

definition wake_key :: "instance_id \<Rightarrow> ms \<Rightarrow> idempotency_key" where
  "wake_key iid wake_at = ''wake-'' @ iid @ ''-'' @ dec_i wake_at"

datatype WakeAction = WakeWith OpKind | WakeQuietly | WakeLater

definition wake_action :: "instance_state \<Rightarrow> WakeAction" where
  "wake_action st =
     (if st = I_Paused then WakeWith K_Resume
      else if st = I_Stopped then WakeWith K_Start
      else if st = I_Running \<or> is_terminal st then WakeQuietly
      else WakeLater)"

definition clear_wake :: "'s env \<Rightarrow> InstanceRow \<Rightarrow> ms \<Rightarrow> ('s, unit) act" where
  "clear_wake E row wake_at = do {
     r \<leftarrow> db_call E (\<lambda>now db. Inr (claim_wake db (ir_id row) wake_at now));
     case r of
       Inr True \<Rightarrow> record_event E (wake_fired (ir_id row) []
                       (say E ''wake fired without an operation'' [A_State (ir_state row)]))
     | Inr False \<Rightarrow> return ()
     | Inl _ \<Rightarrow> return () }"

definition wake_payload :: "OpKind \<Rightarrow> OpPayload" where
  "wake_payload kind = (if kind = K_Resume then P_Resume None False else P_Start)"

definition fire_due_wake :: "'s env \<Rightarrow> InstanceRow \<Rightarrow> ('s, unit) act" where
  "fire_due_wake E row =
     (case ir_wake_at_ms row of
        None \<Rightarrow> return ()
      | Some wake_at \<Rightarrow> do {
          now \<leftarrow> now_ms E;
          if now < wake_at then return ()
          else case wake_action (ir_state row) of
            WakeLater \<Rightarrow> return ()
          | WakeQuietly \<Rightarrow> clear_wake E row wake_at
          | WakeWith kind \<Rightarrow> do {
              r \<leftarrow> submit_claiming E kind (ir_id row) (wake_key (ir_id row) wake_at) (wake_payload kind)
                    (Some (Wake wake_at))
                    (\<lambda>oid. record_event E (wake_fired (ir_id row) oid
                       (say E ''wake fired'' [A_State (ir_state row), A_Op kind])));
              case r of
                Inr _ \<Rightarrow> return ()
              | Inl e \<Rightarrow>
                  if se_reason e = ER_ConcurrentOperation then return ()
                  else record_event E (degradation (ir_id row) []
                         (say E ''a wake alarm came due and could not be submitted'' [A_Op kind])) } })"

section \<open>Probes\<close>

definition READY_REPROBE_TICKS :: int where
  "READY_REPROBE_TICKS = 10"

definition should_probe :: "InstanceRow \<Rightarrow> int \<Rightarrow> bool" where
  "should_probe row tick_count \<longleftrightarrow>
     \<not> ir_ready row \<or> sp_idle_action (ir_spec row) \<noteq> None \<or> tick_count mod READY_REPROBE_TICKS = 0"

definition enforce_idle :: "'s env \<Rightarrow> InstanceRow \<Rightarrow> HealthResponse \<Rightarrow> ('s, unit) act" where
  "enforce_idle E row health =
     (case (sp_idle_action (ir_spec row), hr_idle_declared health) of
        (Some action, Some declared) \<Rightarrow>
          (let iid = ir_id row; declared_ms = ts_ms declared;
               run_epoch = (case ir_run_epoch_ms row of Some e \<Rightarrow> e | None \<Rightarrow> 0);
               last_activity = (case hr_last_user_activity health of Some t \<Rightarrow> ts_ms t | None \<Rightarrow> 0)
           in if declared_ms \<le> run_epoch \<or> declared_ms \<le> last_activity then return ()
              else do {
                let resolution = resolve_for E action;
                let (kind, payload) = resolved_request resolution;
                _ \<leftarrow> submit_claiming E kind iid (''idle:'' @ iid @ '':'' @ dec_i declared_ms) payload None
                      (\<lambda>oid. do {
                         announce_downgrade E iid resolution;
                         record_event E (idle_fired iid oid (say E ''workload declared idle'' [A_Op kind])) });
                return () })
      | _ \<Rightarrow> return ())"

definition probe_readiness :: "'s env \<Rightarrow> InstanceRow \<Rightarrow> ('s, unit) act" where
  "probe_readiness E row = do {
     client \<leftarrow> connect E row (ir_id row);
     case client of
       Inl _ \<Rightarrow> return ()
     | Inr _ \<Rightarrow> do {
         response \<leftarrow> await E (gc_health (en_guest E) (ir_id row) True);
         case response of
           Inl _ \<Rightarrow> return ()
         | Inr health \<Rightarrow> do {
             r \<leftarrow> db_call E (\<lambda>now db. Inr (set_instance_ready db (ir_id row) (hr_ready health) now));
             (case r of
                Inr True \<Rightarrow> record_event E (ready_changed (ir_id row) (hr_ready health))
              | _ \<Rightarrow> return ());
             enforce_idle E row health } } }"

section \<open>Retention\<close>

definition RETENTION_CHUNK :: int where
  "RETENTION_CHUNK = 1000"

text \<open>
  The loop of a sweep, with fuel for its iterations: \<open>None\<close> when it runs out, and otherwise
  what was removed, or the error that ended it.
\<close>

fun prune_loop :: "'s env \<Rightarrow> nat \<Rightarrow> ms \<Rightarrow> nat \<Rightarrow> ('s, (db_error + nat) option) act" where
  "prune_loop E 0 cutoff removed = return None"
| "prune_loop E (Suc fuel) cutoff removed = do {
     r \<leftarrow> db_call E (\<lambda>_ db. Inr (prune_events db cutoff RETENTION_CHUNK));
     case r of
       Inl e \<Rightarrow> return (Some (Inl e))
     | Inr n \<Rightarrow>
         if n = 0 then return (Some (Inr removed))
         else if int n < RETENTION_CHUNK then return (Some (Inr (removed + n)))
         else do { others E; prune_loop E fuel cutoff (removed + n) } }"

definition retention_due :: "'s env \<Rightarrow> ('s, bool) act" where
  "retention_due E = do {
     last \<leftarrow> gets w_retention_at;
     now \<leftarrow> extern (en_instant E);
     if case last of Some at \<Rightarrow> now - at < cf_retention_sweep_interval (en_config E) | None \<Rightarrow> False
     then return False
     else do { modify (w_retention_at_update (\<lambda>_. Some now)); return True } }"

text \<open>The checkpoint of the write-ahead log changes no content; a failed one is logged.\<close>

definition sweep_retention :: "'s env \<Rightarrow> nat \<Rightarrow> ('s, unit option) act" where
  "sweep_retention E fuel = do {
     due \<leftarrow> retention_due E;
     if \<not> due then return (Some ())
     else do {
       now \<leftarrow> now_ms E;
       swept \<leftarrow> prune_loop E fuel (now - cf_event_retention (en_config E)) 0;
       case swept of
         None \<Rightarrow> return None
       | Some (Inl _) \<Rightarrow> return (Some ())
       | Some (Inr removed) \<Rightarrow>
           if removed = 0 then return (Some ())
           else do {
             r \<leftarrow> db_read E journal_floor;
             record_event E (degradation [] [] (say E ''retention deleted events''
               [A_Num (int removed), A_Num (case r of Inr floor \<Rightarrow> floor | Inl _ \<Rightarrow> 0)]));
             return (Some ()) } } }"

section \<open>Leaked sandboxes\<close>

definition reap_sandbox :: "'s env \<Rightarrow> instance_id \<Rightarrow> string \<Rightarrow> Sandbox \<Rightarrow> ('s, unit) act" where
  "reap_sandbox E iid why sandbox = do {
     r \<leftarrow> await E (rt_remove_sandbox (en_substrate E) (sb_substrate_id sandbox));
     case r of
       Inr _ \<Rightarrow> record_event E (degradation iid []
                   (say E ''a sandbox was reaped by the instance sweep'' [A_Text (sb_substrate_id sandbox), A_Text why]))
     | Inl _ \<Rightarrow> return () }"

definition degraded_duplicate :: "'s env \<Rightarrow> instance_id \<Rightarrow> string list \<Rightarrow> ('s, unit) act" where
  "degraded_duplicate E iid ids = record_event E (degradation iid []
     (say E ''more than one running sandbox is tagged for this instance'' (map A_Text ids)))"

text \<open>The sandboxes of each instance, in the order of a \<open>BTreeMap\<close>.\<close>

definition by_instance :: "Sandbox list \<Rightarrow> (instance_id \<times> Sandbox list) list" where
  "by_instance sandboxes =
     map (\<lambda>iid. (iid, filter (\<lambda>s. sb_instance_id s = iid) sandboxes))
       (sort (remdups (map sb_instance_id sandboxes)))"

definition reduce_duplicates :: "'s env \<Rightarrow> instance_id \<Rightarrow> Sandbox list \<Rightarrow> ('s, unit) act" where
  "reduce_duplicates E iid boxes =
     (if length (filter sb_running boxes) > 1
      then degraded_duplicate E iid (map sb_substrate_id boxes)
      else let boxes = sort_key sb_running boxes
           in for_each (reap_sandbox E iid (sb_substrate_id (last boxes))) (butlast boxes))"

definition sweep_group ::
  "'s env \<Rightarrow> instance_id set \<Rightarrow> instance_id set option \<Rightarrow> instance_id \<times> Sandbox list \<Rightarrow> ('s, unit) act" where
  "sweep_group E live forking_sources entry = (case entry of (iid, boxes) \<Rightarrow>
     if iid \<notin> live then for_each (reap_sandbox E iid ''outlived its instance'') boxes
     else if length boxes > 1 then
       (if case forking_sources of None \<Rightarrow> True | Some sources \<Rightarrow> iid \<in> sources then return ()
        else reduce_duplicates E iid boxes)
     else return ())"

definition live_instances :: "InstanceRow list \<Rightarrow> instance_id set" where
  "live_instances rows = ir_id ` {r \<in> set rows. \<not> is_terminal (ir_state r)}"

definition sweep_sandboxes :: "'s env \<Rightarrow> Sandbox list \<Rightarrow> ('s, unit) act" where
  "sweep_sandboxes E sandboxes = do {
     rows \<leftarrow> db_read E list_instances;
     case rows of
       Inl _ \<Rightarrow> return ()
     | Inr rows \<Rightarrow> do {
         forks \<leftarrow> db_read E fork_source_instances_in_flight;
         for_each (sweep_group E (live_instances rows) (map_option set (ok forks))) (by_instance sandboxes) } }"

definition sweep_instances :: "'s env \<Rightarrow> ('s, unit) act" where
  "sweep_instances E = do {
     r \<leftarrow> await E (rt_list_sandboxes (en_substrate E));
     case r of
       Inl _ \<Rightarrow> return ()
     | Inr sandboxes \<Rightarrow> if sandboxes = [] then return () else sweep_sandboxes E sandboxes }"

section \<open>Vanished sandboxes\<close>

definition VANISHED_SANDBOX_THRESHOLD :: nat where
  "VANISHED_SANDBOX_THRESHOLD = 3"

text \<open>The count of one running instance; whether it is now to be failed.\<close>

definition count_absence :: "instance_id set \<Rightarrow> instance_id \<Rightarrow> (instance_id \<rightharpoonup> nat) \<Rightarrow> bool \<times> (instance_id \<rightharpoonup> nat)" where
  "count_absence present iid counts =
     (if iid \<in> present then (False, counts(iid := None))
      else let n = (case counts iid of Some n \<Rightarrow> n | None \<Rightarrow> 0) + 1
           in if n < VANISHED_SANDBOX_THRESHOLD then (False, counts(iid \<mapsto> n)) else (True, counts(iid := None)))"

definition fail_vanished :: "'s env \<Rightarrow> instance_id \<Rightarrow> ('s, bool) act" where
  "fail_vanished E iid = do {
     r \<leftarrow> db_write E (\<lambda>now db. set_instance_state db iid I_Failed now);
     case r of
       Inl _ \<Rightarrow> return False
     | Inr _ \<Rightarrow> do {
         record_event E (state_changed iid [] I_Failed None);
         record_event E (degradation iid [] (say E ''the substrate sandbox for this RUNNING instance has vanished'' []));
         return True } }"

fun check_running :: "'s env \<Rightarrow> instance_id set \<Rightarrow> instance_id list \<Rightarrow> ('s, instance_id list) act" where
  "check_running E present [] = return []"
| "check_running E present (iid # iids) = do {
     counts \<leftarrow> gets w_vanished;
     let (due, counts') = count_absence present iid counts;
     modify (w_vanished_update (\<lambda>_. counts'));
     failed \<leftarrow> (if due then fail_vanished E iid else return False);
     rest \<leftarrow> check_running E present iids;
     return (if failed then iid # rest else rest) }"

definition running_ids :: "journal \<Rightarrow> instance_id list" where
  "running_ids db = map ir_id (filter (\<lambda>r. ir_state r = I_Running) (list_instances db))"

definition reconcile_vanished_sandboxes :: "'s env \<Rightarrow> ('s, unit) act" where
  "reconcile_vanished_sandboxes E =
     (if \<not> rt_enumerates_sandboxes (en_runtime E) then return ()
      else do {
        r \<leftarrow> await E (rt_list_sandboxes (en_substrate E));
        case r of
          Inl _ \<Rightarrow> return ()
        | Inr sandboxes \<Rightarrow> do {
            running \<leftarrow> db_read E running_ids;
            case running of
              Inl _ \<Rightarrow> return ()
            | Inr running \<Rightarrow> do {
                modify (w_vanished_update (\<lambda>counts. counts |` set running));
                failed \<leftarrow> check_running E (sb_instance_id ` set sandboxes) running;
                for_each (stamp_lease_state E) failed } } })"

section \<open>Credentials\<close>

definition reap_credential :: "'s env \<Rightarrow> instance_id set \<Rightarrow> Credential \<Rightarrow> ('s, unit) act" where
  "reap_credential E live credential =
     (case cr_instance credential of
        None \<Rightarrow> return ()
      | Some iid \<Rightarrow>
          if iid \<in> live then return ()
          else do {
            r \<leftarrow> await E (rt_remove_credential (en_substrate E) (cr_id credential));
            case r of
              Inr _ \<Rightarrow> record_event E (degradation iid []
                          (say E ''credential outlived its instance'' [A_Text (cr_id credential)]))
            | Inl _ \<Rightarrow> return () })"

text \<open>The ordered set of the credentials no node claims.\<close>

definition unclaimed_of :: "Credential list \<Rightarrow> string list" where
  "unclaimed_of credentials = sort (remdups (map cr_id (filter (\<lambda>c. cr_instance c = None) credentials)))"

definition report_unclaimed :: "'s env \<Rightarrow> string list \<Rightarrow> ('s, unit) act" where
  "report_unclaimed E unclaimed = do {
     reported \<leftarrow> gets w_unclaimed;
     if unclaimed = reported then return ()
     else do {
       (if unclaimed = [] then return ()
        else record_event E (degradation [] [] (say E ''credentials carry no node claim'' (map A_Text unclaimed))));
       modify (w_unclaimed_update (\<lambda>_. unclaimed)) } }"

definition reap_credentials :: "'s env \<Rightarrow> ('s, unit) act" where
  "reap_credentials E = do {
     r \<leftarrow> await E (rt_list_credentials (en_substrate E));
     case r of
       Inl e \<Rightarrow> record_event E (degradation [] []
                   (say E ''the credential sweep could not enumerate'' [A_Text (rt_name (en_runtime E)), A_Runtime e]))
     | Inr credentials \<Rightarrow>
         if credentials = [] then return ()
         else do {
           rows \<leftarrow> db_read E list_instances;
           case rows of
             Inl _ \<Rightarrow> return ()
           | Inr rows \<Rightarrow> do {
               for_each (reap_credential E (live_instances rows)) credentials;
               report_unclaimed E (unclaimed_of credentials) } } }"

definition sweep_credentials :: "'s env \<Rightarrow> ('s, unit) act" where
  "sweep_credentials E = do {
     last \<leftarrow> gets w_credentials_at;
     now \<leftarrow> extern (en_instant E);
     if case last of Some at \<Rightarrow> now - at < cf_credential_sweep_interval (en_config E) | None \<Rightarrow> False
     then return ()
     else do { modify (w_credentials_at_update (\<lambda>_. Some now)); reap_credentials E } }"

section \<open>A tick\<close>

text \<open>\<open>None\<close> when the fuel of the retention sweep ran out.\<close>

definition tick :: "'s env \<Rightarrow> nat \<Rightarrow> int \<Rightarrow> ('s, unit option) act" where
  "tick E fuel tick_count = do {
     r \<leftarrow> db_read E list_instances;
     case r of
       Inl _ \<Rightarrow> return (Some ())
     | Inr rows \<Rightarrow> do {
         for_each (fire_due_wake E) rows;
         let running = filter (\<lambda>row. ir_state row = I_Running) rows;
         for_each (enforce_ttl E) running;
         swept \<leftarrow> sweep_retention E fuel;
         case swept of
           None \<Rightarrow> return None
         | Some _ \<Rightarrow> do {
             sweep_instances E;
             reconcile_vanished_sandboxes E;
             sweep_credentials E;
             fleet \<leftarrow> gets w_fleet;
             (case fleet of
                None \<Rightarrow> return ()
              | Some F \<Rightarrow> do { _ \<leftarrow> pass E F; return () });
             for_each (probe_readiness E) (filter (\<lambda>row. should_probe row tick_count) running);
             return (Some ()) } } }"

section \<open>Node invariant\<close>

lemma keeps_case_wake [keep_rules]:
  "(\<And>k. a = WakeWith k \<Longrightarrow> keeps P (f k)) \<Longrightarrow> (a = WakeQuietly \<Longrightarrow> keeps P q) \<Longrightarrow> (a = WakeLater \<Longrightarrow> keeps P l) \<Longrightarrow>
   keeps P (case a of WakeWith k \<Rightarrow> f k | WakeQuietly \<Rightarrow> q | WakeLater \<Rightarrow> l)"
  by (cases a) simp_all

lemma keeps_node_downgrade [keep_rules]:
  "rely node_ok E \<Longrightarrow> keeps (on_db node_ok) (announce_downgrade E iid resolution)"
  unfolding announce_downgrade_def by (intro keep_rules)

lemma keeps_node_enforce_ttl [keep_rules]: "rely node_ok E \<Longrightarrow> keeps (on_db node_ok) (enforce_ttl E row)"
  unfolding enforce_ttl_def by (intro keep_rules)

lemma keeps_node_fire_due_wake [keep_rules]:
  assumes "rely node_ok E"
  shows "keeps (on_db node_ok) (fire_due_wake E row)"
proof -
  have "keeps (on_db node_ok) (clear_wake E row wake_at)" for wake_at
    unfolding clear_wake_def
    by (intro keep_rules keeps_db_call assms) (auto dest: node_ok_claim_wake simp: prod_eq_iff)
  thus ?thesis unfolding fire_due_wake_def by (intro keep_rules assms)
qed

lemma keeps_node_note_activity [keep_rules]:
  "rely node_ok E \<Longrightarrow> keeps (on_db node_ok) (note_activity E iid)"
  unfolding note_activity_def ttl_deadline_ms_def
  by (intro keep_rules keeps_node_write node_ok_set_ttl_deadline)

lemma keeps_node_probe [keep_rules]:
  assumes "rely node_ok E"
  shows "keeps (on_db node_ok) (probe_readiness E row)"
proof -
  have "keeps (on_db node_ok) (enforce_idle E row health)" for health
    unfolding enforce_idle_def by (intro keep_rules assms)
  moreover have "keeps (on_db node_ok) (db_call E (\<lambda>now db. Inr (set_instance_ready db iid b now)))" for iid b
    by (rule keeps_db_call [OF assms]) (auto dest: node_ok_set_instance_ready simp: prod_eq_iff)
  ultimately show ?thesis unfolding probe_readiness_def connect_def by (intro keep_rules assms)
qed

lemma keeps_node_retention [keep_rules]:
  assumes "rely node_ok E"
  shows "keeps (on_db node_ok) (sweep_retention E fuel)"
proof -
  have "keeps (on_db node_ok) (db_call E (\<lambda>_ db. Inr (prune_events db cutoff chunk)))" for cutoff chunk
    by (rule keeps_db_call [OF assms]) (auto dest: node_ok_prune_events simp: prod_eq_iff)
  hence "keeps (on_db node_ok) (prune_loop E fuel cutoff removed)" for cutoff removed
    by (induction fuel arbitrary: removed) (auto intro!: keep_rules assms)
  thus ?thesis unfolding sweep_retention_def retention_due_def by (intro keep_rules assms) simp
qed

lemma keeps_node_sweeps [keep_rules]:
  assumes "rely node_ok E"
  shows "keeps (on_db node_ok) (sweep_instances E)" and "keeps (on_db node_ok) (sweep_credentials E)"
proof -
  have "keeps (on_db node_ok) (reap_sandbox E iid why s)" for iid why s
    unfolding reap_sandbox_def by (intro keep_rules assms)
  thus "keeps (on_db node_ok) (sweep_instances E)"
    unfolding sweep_instances_def sweep_sandboxes_def sweep_group_def reduce_duplicates_def degraded_duplicate_def
    by (intro keep_rules assms)
  show "keeps (on_db node_ok) (sweep_credentials E)"
    unfolding sweep_credentials_def reap_credentials_def reap_credential_def report_unclaimed_def
    by (intro keep_rules assms) simp_all
qed

lemma keeps_node_vanished [keep_rules]:
  assumes "rely node_ok E"
  shows "keeps (on_db node_ok) (reconcile_vanished_sandboxes E)"
proof -
  have "keeps (on_db node_ok) (fail_vanished E iid)" for iid
    unfolding fail_vanished_def by (intro keep_rules keeps_node_write node_ok_set_instance_state assms)
  hence "keeps (on_db node_ok) (check_running E present iids)" for present iids
    by (induction iids) (auto intro!: keep_rules)
  thus ?thesis unfolding reconcile_vanished_sandboxes_def
    by (intro keep_rules assms) simp_all
qed

lemma keeps_node_tick [keep_rules]: "rely node_ok E \<Longrightarrow> keeps (on_db node_ok) (tick E fuel n)"
  unfolding tick_def by (intro keep_rules)

section \<open>The retention sweep ends\<close>

lemma filter_take_distinct: "distinct xs \<Longrightarrow> filter (\<lambda>r. r \<notin> set (take k xs)) xs = drop k xs"
proof -
  assume d: "distinct xs"
  have "filter (\<lambda>r. r \<notin> set (take k xs)) (take k xs @ drop k xs) = drop k xs"
    using set_take_disj_set_drop_if_distinct [OF d order_refl, of k]
    by (auto simp: filter_empty_conv filter_id_conv simp del: append_take_drop_id)
  thus ?thesis by simp
qed

text \<open>What is old, and what is not.\<close>

definition swept_to :: "ms \<Rightarrow> events_row list \<Rightarrow> events_row list \<Rightarrow> 's world \<Rightarrow> bool" where
  "swept_to cutoff old young w \<longleftrightarrow> events_ok (w_db w)
     \<and> filter (\<lambda>r. ec_at_ms r < cutoff) (j_events (w_db w)) = old
     \<and> filter (\<lambda>r. \<not> ec_at_ms r < cutoff) (j_events (w_db w)) = young"

lemma prune_chunk:
  assumes "swept_to cutoff old young w"
  shows "\<exists>n db. prune_events (w_db w) cutoff RETENTION_CHUNK = (n, db) \<and> n = min (length old) 1000
    \<and> swept_to cutoff (drop 1000 old) young (w\<lparr>w_db := db\<rparr>)"
proof -
  let ?gone = "take 1000 old"
  have ok: "events_ok (w_db w)" and chunk: "in_i64 RETENTION_CHUNK" "0 < RETENTION_CHUNK"
    using assms by (auto simp: swept_to_def RETENTION_CHUNK_def machine_defs)
  have old: "filter (\<lambda>r. ec_at_ms r < cutoff) (j_events (w_db w)) = old" using assms by (simp add: swept_to_def)
  have eq: "prune_events (w_db w) cutoff RETENTION_CHUNK =
     (if old = [] then (0, w_db w)
      else (length ?gone, j_last_pruned_cursor_update (\<lambda>c. max c (ec_cursor (last ?gone)))
              (j_events_update (filter (\<lambda>r. r \<notin> set ?gone)) (w_db w))))"
    using prune_events_eq [OF ok chunk, of cutoff] by (simp add: old RETENTION_CHUNK_def)
  have after: "events_ok (snd (prune_events (w_db w) cutoff RETENTION_CHUNK))"
    by (rule events_ok_prune_events [OF ok chunk])
  have "distinct old"
    using ok unfolding old [symmetric] by (auto simp: events_ok_def strict_sorted_iff distinct_map intro: distinct_filter)
  hence left: "filter (\<lambda>r. r \<notin> set ?gone) old = drop 1000 old" by (rule filter_take_distinct)
  have young: "filter (\<lambda>r. \<not> ec_at_ms r < cutoff) (filter (\<lambda>r. r \<notin> set ?gone) (j_events (w_db w))) = young"
  proof -
    have "r \<notin> set ?gone" if "\<not> ec_at_ms r < cutoff" for r
      using that unfolding old [symmetric] by (auto dest: in_set_takeD)
    hence "filter (\<lambda>r. \<not> ec_at_ms r < cutoff) (filter (\<lambda>r. r \<notin> set ?gone) (j_events (w_db w)))
        = filter (\<lambda>r. \<not> ec_at_ms r < cutoff) (j_events (w_db w))"
      unfolding filter_filter by (intro filter_cong [OF refl]) blast
    thus ?thesis using assms by (simp add: swept_to_def)
  qed
  have rest: "filter (\<lambda>r. ec_at_ms r < cutoff) (filter (\<lambda>r. r \<notin> set ?gone) (j_events (w_db w))) = drop 1000 old"
    using left unfolding old [symmetric] filter_filter by (simp add: conj_commute)
  show ?thesis
  proof (cases "old = []")
    case True
    thus ?thesis using assms eq by simp
  next
    case False
    thus ?thesis using eq after young rest by (simp add: swept_to_def)
  qed
qed

lemma prune_loop_ends:
  assumes "alone E" and "faultless E"
  shows "length old div 1000 < fuel \<Longrightarrow> triple (swept_to cutoff old young) (prune_loop E fuel cutoff removed)
     (\<lambda>r w. r = Some (Inr (removed + length old)) \<and> j_events (w_db w) = young)"
proof (induction fuel arbitrary: old removed)
  case (Suc fuel)
  have ud: "undisturbed (swept_to cutoff old young) E" for old
    by (rule undisturbed_alone [OF assms(1)]) (simp add: swept_to_def)
  have step: "triple (swept_to cutoff old young) (db_call E (\<lambda>_ db. Inr (prune_events db cutoff RETENTION_CHUNK)))
      (\<lambda>r w. swept_to cutoff (drop 1000 old) young w \<and> r = Inr (min (length old) 1000))"
    by (rule triple_faultless_call [OF ud assms(2)]) (use prune_chunk in fastforce)
  have all_young: "j_events (w_db w) = young" if "swept_to cutoff (drop 1000 old) young w" "length old < 1000"
    for w :: "'a world"
    using that by (auto simp: swept_to_def filter_empty_conv filter_id_conv)
  have more: "triple (swept_to cutoff (drop 1000 old) young) (prune_loop E fuel cutoff (removed + 1000))
      (\<lambda>r w. r = Some (Inr (removed + length old)) \<and> j_events (w_db w) = young)" if "1000 \<le> length old"
    using Suc.IH [of "drop 1000 old" "removed + 1000"] Suc.prems that by simp
  show ?case unfolding prune_loop.simps
    apply (rule triple_bind [OF step], rule triple_assuming)
    using more by (cases "length old < 1000")
      (auto simp: RETENTION_CHUNK_def min_def all_young intro!: triple_return keeps_then [OF stable_others [OF ud]])
qed simp

text \<open>
  C30: On a node where nothing else runs, the loop of a retention sweep ends: with one
  iteration more than there are full chunks of old events it returns, having removed exactly
  the events older than the cutoff, all of them, and it reports how many.
\<close>

theorem retention_sweep_terminates:
  assumes "alone E" and "faultless E" and "events_ok (w_db w)"
    and "length (filter (\<lambda>r. ec_at_ms r < cutoff) (j_events (w_db w))) div 1000 < fuel"
    and "run_state (prune_loop E fuel cutoff 0) w = (r, w')"
  shows "r = Some (Inr (length (filter (\<lambda>r. ec_at_ms r < cutoff) (j_events (w_db w)))))
       \<and> j_events (w_db w') = filter (\<lambda>r. cutoff \<le> ec_at_ms r) (j_events (w_db w))"
  using tripleD [OF prune_loop_ends [OF assms(1,2,4)] _ assms(5)] assms(3)
  by (auto simp: swept_to_def not_less)

theorem retention_sweep_terminates_witness:
  "\<exists>w'. run_state (prune_loop sample_env 1 9 0)
       (sample_world (snd (insert_event (snd (insert_event empty_journal default_event 5)) default_event 9)) ())
     = (Some (Inr 1), w') \<and> length (j_events (w_db w')) = 1"
proof -
  let ?db = "snd (insert_event (snd (insert_event empty_journal default_event 5)) default_event 9)"
  obtain r w' where run: "run_state (prune_loop sample_env 1 9 0) (sample_world ?db ()) = (r, w')"
    by (metis surj_pair)
  have "events_ok ?db"
    by (intro events_ok_insert_event events_ok_empty) (simp_all add: insert_event_def Let_def empty_journal_def i64_max_def)
  hence "events_ok (w_db (sample_world ?db ()))" by (simp add: sample_world_def)
  note main = retention_sweep_terminates [OF sample_quiet(1,2) this _ run]
  have "r = Some (Inr 1) \<and> length (j_events (w_db w')) = 1"
    using main by (simp add: sample_world_def insert_event_def Let_def empty_journal_def)
  thus ?thesis using run by blast
qed

section \<open>The debounce of a vanished sandbox\<close>

lemma row_with_iff: "unique_keys key t \<Longrightarrow> row_with key k t = Some r \<longleftrightarrow> r \<in> set t \<and> key r = k"
  by (auto dest: row_with_Some_key row_with_Some_in row_with_unique)

lemma listed_instances:
  assumes "schema_ok db"
  shows "distinct (map ir_id (list_instances db))"
    and "row \<in> set (list_instances db) \<longleftrightarrow> get_instance db (ir_id row) = Some row"
proof -
  have key: "ir_id (instance_row_from r) = ic_instance_id r" if "r \<in> set (j_instances db)" for r
    using assms that by (auto simp: instance_row_from_def schema_ok_def)
  show "distinct (map ir_id (list_instances db))"
    using assms key by (simp add: list_instances_def schema_ok_def unique_keys_def distinct_map comp_def inj_on_def)
  have uniq: "unique_keys ic_instance_id (j_instances db)" using assms by (simp add: schema_ok_def)
  show "row \<in> set (list_instances db) \<longleftrightarrow> get_instance db (ir_id row) = Some row"
    using key row_with_iff [OF uniq] by (auto simp: list_instances_def get_instance_def)
qed

lemma running_ids_iff:
  assumes "schema_ok db"
  shows "iid \<in> set (running_ids db) \<longleftrightarrow> state_of db iid = Some I_Running" and "distinct (running_ids db)"
proof -
  have id: "ir_id row = iid" if "get_instance db iid = Some row" for row iid
    using that assms row_with_iff by (fastforce simp: get_instance_def instance_row_from_def schema_ok_def)
  show "iid \<in> set (running_ids db) \<longleftrightarrow> state_of db iid = Some I_Running"
    by (auto simp: running_ids_def state_of_def listed_instances(2) [OF assms] dest: id intro!: image_eqI)
  show "distinct (running_ids db)"
    using listed_instances(1) [OF assms] by (simp add: running_ids_def distinct_map_filter)
qed

lemma count_absence_local:
  "counts iid = counts' iid \<Longrightarrow> fst (count_absence present iid counts) = fst (count_absence present iid counts')
     \<and> snd (count_absence present iid counts) iid = snd (count_absence present iid counts') iid"
  "j \<noteq> iid \<Longrightarrow> snd (count_absence present iid counts) j = counts j"
  by (auto simp: count_absence_def Let_def)

text \<open>The counts of \<open>V\<close> and the states of \<open>S\<close> are as the pass leaves them, the others as it found them.\<close>

definition reckoned ::
  "instance_id set \<Rightarrow> (instance_id \<rightharpoonup> nat) \<Rightarrow> journal \<Rightarrow> instance_id set \<Rightarrow> instance_id set \<Rightarrow> 's world \<Rightarrow> bool" where
  "reckoned present counts db0 V S w \<longleftrightarrow> (\<forall>i.
     w_vanished w i = (if i \<in> V then snd (count_absence present i counts) i else counts i)
   \<and> state_of (w_db w) i = (if i \<in> S \<and> fst (count_absence present i counts) then Some I_Failed else state_of db0 i))"

lemma state_of_insert_event [simp]: "state_of (snd (insert_event db ev now)) i = state_of db i"
  by (simp add: state_of_def get_instance_def insert_event_def Let_def)

lemma keeps_reckoned_event:
  assumes "alone E"
  shows "keeps (reckoned present counts db0 V S) (record_event E ev)"
proof -
  have ud: "undisturbed (reckoned present counts db0 V S) E"
    by (rule undisturbed_alone [OF assms]) (simp add: reckoned_def)
  have "reckoned present counts db0 V S (w\<lparr>w_db := db\<rparr>)"
    if "reckoned present counts db0 V S w" "insert_event (w_db w) ev now = (a, db)" for w :: "'a world" and now a db
    using that(1) state_of_insert_event [of "w_db w" ev now] by (simp add: that(2) reckoned_def)
  thus ?thesis unfolding record_event_def by (intro keep_rules stable_db_call [OF ud]) auto
qed

lemma fail_vanished_reckons:
  assumes "alone E" and "faultless E" and "fst (count_absence present iid counts)"
    and "state_of db0 iid \<noteq> None" and "iid \<notin> S"
  shows "triple (reckoned present counts db0 V S) (fail_vanished E iid) (\<lambda>_. reckoned present counts db0 V (insert iid S))"
proof -
  have ud: "undisturbed (reckoned present counts db0 V S) E" for S
    by (rule undisturbed_alone [OF assms(1)]) (simp add: reckoned_def)
  have "triple (reckoned present counts db0 V S) (db_write E (\<lambda>now db. set_instance_state db iid I_Failed now))
      (\<lambda>_. reckoned present counts db0 V (insert iid S))"
    unfolding db_write_def
    by (rule triple_faultless_call [OF ud assms(2)])
      (use assms(3-5) in \<open>auto simp: reckoned_def state_of_set_instance_state\<close>)
  thus ?thesis unfolding fail_vanished_def
    by (rule triple_bind)
      (intro triple_case_sum triple_return keeps_then [OF keeps_reckoned_event [OF assms(1)]], simp_all)
qed

lemma count_reckons:
  assumes "iid \<notin> D"
  shows "triple (reckoned present counts db0 D D) (do {
       counts \<leftarrow> gets w_vanished;
       modify (w_vanished_update (\<lambda>_. snd (count_absence present iid counts)));
       return (fst (count_absence present iid counts)) })
     (\<lambda>due w. reckoned present counts db0 (insert iid D) D w \<and> due = fst (count_absence present iid counts))"
proof (rule tripleI)
  fix w w' due assume w: "reckoned present counts db0 D D w" and run: "run_state (do {
     counts \<leftarrow> gets w_vanished;
     modify (w_vanished_update (\<lambda>_. snd (count_absence present iid counts)));
     return (fst (count_absence present iid counts)) }) w = (due, w')"
  have "w_vanished w iid = counts iid" using w assms by (simp add: reckoned_def)
  note same = count_absence_local(1) [of "w_vanished w" iid counts present, OF this]
  have "w' = w\<lparr>w_vanished := snd (count_absence present iid (w_vanished w))\<rparr>"
    and "due = fst (count_absence present iid (w_vanished w))"
    using run by (simp_all add: gets_def modify_def)
  moreover have "snd (count_absence present iid (w_vanished w)) j = w_vanished w j" if "j \<in> D" for j
    using that assms by (intro count_absence_local(2)) blast
  ultimately show "reckoned present counts db0 (insert iid D) D w' \<and> due = fst (count_absence present iid counts)"
    using w same count_absence_local(2) [of _ iid present "w_vanished w"] by (auto simp: reckoned_def)
qed

lemma check_running_reckons:
  assumes "alone E" and "faultless E"
  shows "distinct iids \<Longrightarrow> set iids \<inter> D = {} \<Longrightarrow> (\<forall>i \<in> set iids. state_of db0 i \<noteq> None) \<Longrightarrow>
    triple (reckoned present counts db0 D D) (check_running E present iids)
      (\<lambda>_. reckoned present counts db0 (D \<union> set iids) (D \<union> set iids))"
proof (induction iids arbitrary: D)
  case (Cons iid iids)
  let ?R = "reckoned present counts db0"
  have new: "iid \<notin> D" "state_of db0 iid \<noteq> None" using Cons.prems by auto
  let ?due = "fst (count_absence present iid counts)"
  have settled: "triple (?R (insert iid D) D) (if ?due then fail_vanished E iid else return False)
      (\<lambda>_. ?R (insert iid D) (insert iid D))"
    using fail_vanished_reckons [OF assms _ new(2,1)]
    by (auto intro!: triple_return) (auto simp: reckoned_def)
  have rest: "triple (?R (insert iid D) (insert iid D)) (check_running E present iids)
      (\<lambda>_. ?R (D \<union> set (iid # iids)) (D \<union> set (iid # iids)))"
    using Cons.IH [of "insert iid D"] Cons.prems by simp
  have eq: "check_running E present (iid # iids) = do {
      due \<leftarrow> do {
        counts \<leftarrow> gets w_vanished;
        modify (w_vanished_update (\<lambda>_. snd (count_absence present iid counts)));
        return (fst (count_absence present iid counts)) };
      failed \<leftarrow> (if due then fail_vanished E iid else return False);
      rest \<leftarrow> check_running E present iids;
      return (if failed then iid # rest else rest) }"
    by (simp add: split_beta)
  show ?case unfolding eq
    by (rule triple_bind [OF count_reckons [OF new(1)]], rule triple_assuming)
      (hypsubst, intro triple_bind [OF settled] triple_bind [OF rest] triple_return, assumption)
qed (simp add: triple_return)

lemma keeps_stamp_any:
  assumes "undisturbed P E" and "\<And>w f. P w \<Longrightarrow> P (w_fleet_update f w)"
  shows "keeps P (stamp_lease_state E iid)"
proof -
  have "keeps P (hold_name name h)" for name h
    unfolding hold_name_def with_fleet_def modify_def by (rule keepsI) (auto intro: assms(2))
  thus ?thesis unfolding stamp_lease_state_def lease_state_for_def
    by (intro keep_rules keeps_rest_read stable_rules assms(1))
qed

text \<open>
  C27: One pass over the running instances against a successful enumeration of the
  substrate.  An instance is failed exactly when it is running, its sandbox is absent, and
  it was absent in the two passes counted before; every other instance keeps its state.  The
  count of an instance whose sandbox is seen, or that no longer runs, starts again.
\<close>

theorem vanished_after_three_absences:
  assumes "alone E" and "faultless E" and "rt_enumerates_sandboxes (en_runtime E)"
    and "\<forall>x. fst (rt_list_sandboxes (en_substrate E) x) = Inr sandboxes" and "schema_ok (w_db w)"
    and "run_state (reconcile_vanished_sandboxes E) w = (u, w')"
  defines "absent \<equiv> \<lambda>i. state_of (w_db w) i = Some I_Running \<and> i \<notin> sb_instance_id ` set sandboxes"
  shows "state_of (w_db w') i = (if absent i \<and> (\<exists>n. w_vanished w i = Some n \<and> 2 \<le> n) then Some I_Failed else state_of (w_db w) i)
       \<and> w_vanished w' i = (if \<not> absent i then None
            else case w_vanished w i of None \<Rightarrow> Some 1 | Some n \<Rightarrow> if n < 2 then Some (n + 1) else None)"
proof -
  let ?present = "sb_instance_id ` set sandboxes" and ?running = "running_ids (w_db w)"
  let ?counts = "w_vanished w |` set ?running"
  let ?R = "reckoned ?present ?counts (w_db w)"
  let ?P = "\<lambda>v. w_db v = w_db w \<and> w_vanished v = w_vanished w"
  have ud: "undisturbed ?P E" by (rule undisturbed_alone [OF assms(1)]) simp
  have udR: "undisturbed (?R V S) E" for V S by (rule undisturbed_alone [OF assms(1)]) (simp add: reckoned_def)
  have seen: "triple ?P (await E (rt_list_sandboxes (en_substrate E))) (\<lambda>r v. ?P v \<and> r = Inr sandboxes)"
    by (rule triple_yields [OF stable_await [OF ud] yields_await]) (simp add: assms(4))
  have read: "triple ?P (db_read E running_ids) (\<lambda>r v. ?P v \<and> r = Inr ?running)"
    unfolding db_read_def by (rule triple_faultless_call [OF ud assms(2)]) auto
  have forget: "triple ?P (modify (w_vanished_update (\<lambda>counts. counts |` set ?running))) (\<lambda>_. ?R {} {})"
    unfolding modify_def by (rule tripleI) (auto simp: reckoned_def)
  have check: "triple (?R {} {}) (check_running E ?present ?running) (\<lambda>_. ?R (set ?running) (set ?running))"
    using check_running_reckons [OF assms(1,2) running_ids_iff(2) [OF assms(5)], of "{}" "w_db w" ?present ?counts]
    by (simp add: running_ids_iff(1) [OF assms(5)])
  have stamps: "keeps (?R V S) (for_each (stamp_lease_state E) failed)" for V S failed
    by (intro keep_rules keeps_stamp_any udR) (simp add: reckoned_def)
  have "triple ?P (reconcile_vanished_sandboxes E) (\<lambda>_. ?R (set ?running) (set ?running))"
    unfolding reconcile_vanished_sandboxes_def using assms(3)
    apply simp
    apply (rule triple_bind [OF seen], rule triple_assuming, simp)
    apply (rule triple_bind [OF read], rule triple_assuming, simp)
    apply (rule triple_bind [OF forget], rule triple_bind [OF check], rule stamps [unfolded keeps_def])
    done
  from tripleD [OF this _ assms(6)] have "?R (set ?running) (set ?running) w'" by simp
  thus ?thesis unfolding reckoned_def absent_def
    by (auto simp: running_ids_iff(1) [OF assms(5)] count_absence_def Let_def VANISHED_SANDBOX_THRESHOLD_def
        restrict_map_def split: option.splits)
qed

definition sample_running :: journal where
  "sample_running = set_instance_state sample_journal ''i1'' I_Running 4"

lemma sample_running_facts:
  "schema_ok sample_running" "state_of sample_running ''i1'' = Some I_Running"
  by (simp_all add: sample_running_def schema_ok_set_instance_state sample_journal_ok)
    (simp add: state_of_def get_instance_def set_instance_state_def sample_simps instance_row_from_def)

theorem vanished_after_three_absences_witness:
  "\<exists>u w'. run_state (reconcile_vanished_sandboxes sample_env)
        ((sample_world sample_running ())\<lparr>w_vanished := [''i1'' \<mapsto> 2]\<rparr>) = (u, w')
     \<and> state_of (w_db w') ''i1'' = Some I_Failed \<and> w_vanished w' ''i1'' = None"
proof -
  let ?w = "(sample_world sample_running ())\<lparr>w_vanished := [''i1'' \<mapsto> 2]\<rparr>"
  obtain u w' where run: "run_state (reconcile_vanished_sandboxes sample_env) ?w = (u, w')"
    by (metis surj_pair)
  have "rt_enumerates_sandboxes (en_runtime (sample_env :: unit env))"
    and "\<forall>x. fst (rt_list_sandboxes (en_substrate (sample_env :: unit env)) x) = Inr []"
    and "schema_ok (w_db ?w)"
    by (simp_all add: sample_env_def sample_runtime_def sample_substrate_def sample_world_def sample_running_facts)
  from vanished_after_three_absences [OF sample_quiet(1,2) this run, of "''i1''"]
  show ?thesis using run by (simp add: sample_world_def sample_running_facts)
qed

section \<open>What the sandbox sweep leaves alone\<close>

lemma reduced_are_stopped:
  assumes "\<not> length (filter sb_running boxes) > 1" and "s \<in> set (butlast (sort_key sb_running boxes))"
  shows "\<not> sb_running s"
proof
  assume s: "sb_running s"
  let ?b = "sort_key sb_running boxes"
  have nonempty: "?b \<noteq> []" using assms(2) by auto
  have "sorted (map sb_running (butlast ?b @ [last ?b]))" using nonempty by simp
  hence "sb_running (last ?b)" using assms(2) s by (auto simp: sorted_append)
  moreover have "filter sb_running ?b = filter sb_running (butlast ?b) @ filter sb_running [last ?b]"
    using nonempty by (metis append_butlast_last_id filter_append)
  moreover have "filter sb_running (butlast ?b) \<noteq> []" using assms(2) s by (simp add: filter_empty_conv) blast
  ultimately have "length (filter sb_running ?b) > 1" by (cases "filter sb_running (butlast ?b)") auto
  moreover have "length (filter sb_running ?b) = length (filter sb_running boxes)"
    by (metis mset_filter mset_sort size_mset)
  ultimately show False using assms(1) by simp
qed

text \<open>The sandboxes a sweep must not touch: those of a live instance that are running or the only one.\<close>

definition spared :: "instance_id set \<Rightarrow> Sandbox list \<Rightarrow> Sandbox \<Rightarrow> bool" where
  "spared live sandboxes s \<longleftrightarrow> sb_instance_id s \<in> live
     \<and> (sb_running s \<or> (\<forall>s' \<in> set sandboxes. sb_instance_id s' = sb_instance_id s \<longrightarrow> s' = s))"

lemma for_each_cong: "(\<And>x. x \<in> set xs \<Longrightarrow> f x = g x) \<Longrightarrow> for_each f xs = for_each g xs"
  by (induction xs) simp_all

lemma run_bind_eq:
  assumes "triple P m Q" and "P w" and "\<And>a v. Q a v \<Longrightarrow> run_state (f a) v = run_state (g a) v"
  shows "run_state (State_Monad.bind m f) w = run_state (State_Monad.bind m g) w"
  using assms by (cases "run_state m w") (auto dest: tripleD)

lemma reap_sandbox_blind:
  assumes "f (sb_substrate_id s) = rt_remove_sandbox (en_substrate E) (sb_substrate_id s)"
  shows "reap_sandbox (E\<lparr>en_substrate := (en_substrate E)\<lparr>rt_remove_sandbox := f\<rparr>\<rparr>) iid why s = reap_sandbox E iid why s"
  using assms by (simp add: reap_sandbox_def cong: sum.case_cong)

lemma sweep_group_blind:
  assumes "\<forall>s \<in> set sandboxes. \<not> spared live sandboxes s \<longrightarrow> f (sb_substrate_id s) = rt_remove_sandbox (en_substrate E) (sb_substrate_id s)"
    and "distinct sandboxes" and "entry \<in> set (by_instance sandboxes)"
  shows "sweep_group (E\<lparr>en_substrate := (en_substrate E)\<lparr>rt_remove_sandbox := f\<rparr>\<rparr>) live sources entry
       = sweep_group E live sources entry"
proof -
  obtain iid boxes where entry: "entry = (iid, boxes)" and boxes: "boxes = filter (\<lambda>s. sb_instance_id s = iid) sandboxes"
    using assms(3) by (auto simp: by_instance_def)
  let ?E = "E\<lparr>en_substrate := (en_substrate E)\<lparr>rt_remove_sandbox := f\<rparr>\<rparr>"
  have gone: "for_each (reap_sandbox ?E iid why) boxes = for_each (reap_sandbox E iid why) boxes" if "iid \<notin> live" for why
    using that assms(1) by (intro for_each_cong reap_sandbox_blind) (auto simp: boxes spared_def)
  have "reduce_duplicates ?E iid boxes = reduce_duplicates E iid boxes" if "iid \<in> live" "1 < length boxes"
  proof (cases "length (filter sb_running boxes) > 1")
    case False
    let ?b = "sort_key sb_running boxes"
    have "\<not> spared live sandboxes s \<and> s \<in> set sandboxes" if s: "s \<in> set (butlast ?b)" for s
    proof -
      have b: "s \<in> set boxes" using s by (metis in_set_butlastD set_sort)
      have "\<exists>s' \<in> set boxes. s' \<noteq> s"
      proof (rule ccontr)
        assume "\<not> ?thesis"
        hence "set boxes \<subseteq> {s}" by blast
        hence "card (set boxes) \<le> 1" using card_mono [of "{s}" "set boxes"] by simp
        moreover have "distinct boxes" using assms(2) by (simp add: boxes)
        ultimately show False using \<open>1 < length boxes\<close> by (simp add: distinct_card)
      qed
      thus ?thesis using b reduced_are_stopped [OF False s] by (auto simp: boxes spared_def)
    qed
    hence "for_each (reap_sandbox ?E iid why) (butlast ?b) = for_each (reap_sandbox E iid why) (butlast ?b)" for why
      using assms(1) by (intro for_each_cong reap_sandbox_blind) blast
    thus ?thesis using False by (simp add: reduce_duplicates_def Let_def)
  qed (simp add: reduce_duplicates_def degraded_duplicate_def say_def)
  thus ?thesis using gone by (simp add: entry sweep_group_def cong: if_cong option.case_cong)
qed

text \<open>
  C28: What the sandbox sweep asks the substrate to remove.  However the removal of a
  spared sandbox would behave, the sweep behaves the same: no sandbox of an instance that is
  live in the journal is removed while it is running or is the only one.
\<close>

theorem sandbox_sweep_spares_live:
  assumes "alone E" and "\<forall>x. fst (rt_list_sandboxes (en_substrate E) x) = Inr sandboxes" and "distinct sandboxes"
    and "\<forall>s \<in> set sandboxes. \<not> spared (live_instances (list_instances (w_db w))) sandboxes s
           \<longrightarrow> f (sb_substrate_id s) = rt_remove_sandbox (en_substrate E) (sb_substrate_id s)"
  shows "run_state (sweep_instances (E\<lparr>en_substrate := (en_substrate E)\<lparr>rt_remove_sandbox := f\<rparr>\<rparr>)) w
       = run_state (sweep_instances E) w"
proof -
  let ?E = "E\<lparr>en_substrate := (en_substrate E)\<lparr>rt_remove_sandbox := f\<rparr>\<rparr>"
  let ?P = "\<lambda>v. w_db v = w_db w" and ?live = "live_instances (list_instances (w_db w))"
  have ud: "undisturbed ?P E" by (rule undisturbed_alone [OF assms(1)]) simp
  have seen: "triple ?P (await E (rt_list_sandboxes (en_substrate E))) (\<lambda>r v. ?P v \<and> r = Inr sandboxes)"
    by (rule triple_yields [OF stable_await [OF ud] yields_await]) (simp add: assms(2))
  have read: "triple ?P (db_read E list_instances) (\<lambda>r v. ?P v \<and> (isl r \<or> r = Inr (list_instances (w_db w))))"
    by (rule triple_db_read [OF ud]) simp_all
  have each: "for_each (sweep_group ?E ?live sources) (by_instance sandboxes)
      = for_each (sweep_group E ?live sources) (by_instance sandboxes)" for sources
    using sweep_group_blind [OF assms(4,3)] by (intro for_each_cong) blast
  have "run_state (sweep_sandboxes ?E sandboxes) v = run_state (sweep_sandboxes E sandboxes) v" if "?P v" for v
    unfolding sweep_sandboxes_def blind_statements
    by (rule run_bind_eq [OF read that]) (auto simp: isl_def each)
  hence listed: "run_state (case r of Inl _ \<Rightarrow> return () | Inr sandboxes \<Rightarrow> if sandboxes = [] then return () else sweep_sandboxes ?E sandboxes) v
     = run_state (case r of Inl _ \<Rightarrow> return () | Inr sandboxes \<Rightarrow> if sandboxes = [] then return () else sweep_sandboxes E sandboxes) v"
    if "?P v \<and> r = Inr sandboxes" for r v
    using that by simp
  have same: "rt_list_sandboxes (en_substrate ?E) = rt_list_sandboxes (en_substrate E)" by simp
  show ?thesis unfolding sweep_instances_def blind_primitives same
    by (rule run_bind_eq [OF seen refl listed])
qed

theorem sandbox_sweep_spares_live_witness:
  "let E = sample_env\<lparr>en_substrate := sample_substrate\<lparr>rt_list_sandboxes :=
         (\<lambda>x. (Inr [\<lparr>sb_substrate_id = ''a'', sb_instance_id = ''i1'', sb_running = True\<rparr>], x))\<rparr>\<rparr>;
       w = sample_world sample_running ()
   in run_state (sweep_instances (E\<lparr>en_substrate := (en_substrate E)\<lparr>rt_remove_sandbox := (\<lambda>_ x. (Inl (RE_Other ''no''), x))\<rparr>\<rparr>)) w
    = run_state (sweep_instances E) w"
proof -
  let ?box = "\<lparr>sb_substrate_id = ''a'', sb_instance_id = ''i1'', sb_running = True\<rparr>"
  let ?E = "sample_env\<lparr>en_substrate := sample_substrate\<lparr>rt_list_sandboxes := (\<lambda>x. (Inr [?box], x))\<rparr>\<rparr> :: unit env"
  have "get_instance sample_running ''i1'' \<noteq> None"
    using sample_running_facts(2) by (auto simp: state_of_def)
  then obtain row where row: "get_instance sample_running ''i1'' = Some row" by auto
  hence "ir_id row = ''i1''" "ir_state row = I_Running"
    using sample_running_facts row_with_iff
    by (fastforce simp: get_instance_def instance_row_from_def schema_ok_def state_of_def)+
  hence "''i1'' \<in> live_instances (list_instances sample_running)"
    using row listed_instances(2) [OF sample_running_facts(1), of row]
    by (force simp: live_instances_def)
  hence "spared (live_instances (list_instances (w_db (sample_world sample_running ())))) [?box] ?box"
    by (simp add: spared_def sample_world_def)
  moreover have "alone ?E" by (simp add: alone_def sample_env_def)
  ultimately show ?thesis
    using sandbox_sweep_spares_live [of ?E "[?box]" "sample_world sample_running ()" "\<lambda>_ x. (Inl (RE_Other ''no''), x)"]
    by (simp add: Let_def)
qed

section \<open>Deadlines that moved\<close>

text \<open>The workload is the given one, and the instance's deadline is not the one a claim names.\<close>

definition moved_on :: "instance_id \<Rightarrow> claim \<Rightarrow> task list \<times> instances_row list \<times> operations_row list \<Rightarrow> 's world \<Rightarrow> bool" where
  "moved_on iid c load w \<longleftrightarrow> schema_ok (w_db w) \<and> (\<forall>now. \<not> fst (take_deadline (w_db w) iid c now)) \<and> workload w = load"

lemma take_deadline_instances:
  "j_instances db' = j_instances db \<Longrightarrow> fst (take_deadline db' iid c now) = fst (take_deadline db iid c now)"
  by (simp add: take_deadline_def split_beta)

interpretation moved: phase_observed "moved_on iid c load" for iid c load
proof unfold_locales
  fix w :: "'s world" and ev now assume "moved_on iid c load w"
  moreover have "j_instances (snd (insert_event (w_db w) ev now)) = j_instances (w_db w)"
    and "j_operations (snd (insert_event (w_db w) ev now)) = j_operations (w_db w)"
    by (simp_all add: insert_event_def Let_def)
  ultimately show "moved_on iid c load (w\<lparr>w_db := snd (insert_event (w_db w) ev now)\<rparr>)"
    by (simp add: moved_on_def workload_def schema_ok_events take_deadline_instances [of "snd (insert_event (w_db w) ev now)" "w_db w"])
qed (simp_all add: moved_on_def workload_def)

lemma undisturbed_moved: "alone E \<Longrightarrow> undisturbed (moved_on iid c load) E"
  by (rule undisturbed_alone) (simp_all add: moved_on_def workload_def)

lemma keeps_moved_submit:
  assumes "alone E"
  shows "keeps (moved_on iid c load) (submit_claiming E kind iid key payload (Some c) announce)"
proof (rule keeps_unjournaled_submit [OF undisturbed_moved [OF assms]])
  fix w :: "'a world" and op tr sp rt tok mint lin plan nc now r db
  assume w: "moved_on iid c load w" and op: "or_instance_id op = iid"
    and "submit_atomically (w_db w) op key tr sp rt tok mint (Some c) lin plan nc now = Inr (r, db)"
  from this(3) show "db = w_db w \<and> (\<forall>recorded. r \<noteq> Journaled recorded)"
    by (cases rule: submit_atomically_Inr) (use w op in \<open>auto simp: moved_on_def\<close>)
qed

lemma take_deadline_stale:
  assumes "schema_ok db"
  shows "Option.bind (get_instance db iid) ir_ttl_deadline_ms \<noteq> Some d \<Longrightarrow> \<not> fst (take_deadline db iid (TtlExpiry d) now)"
    and "Option.bind (get_instance db iid) ir_wake_at_ms \<noteq> Some d \<Longrightarrow> \<not> fst (take_deadline db iid (Wake d) now)"
  by (auto simp: ttl.taken_iff [OF assms] wake.taken_iff [OF assms] get_instance_def instance_row_from_def)

lemma moved_onI:
  "schema_ok (w_db w) \<Longrightarrow> Option.bind (get_instance (w_db w) iid) ir_ttl_deadline_ms \<noteq> Some d \<Longrightarrow>
   moved_on iid (TtlExpiry d) (workload w) w"
  "schema_ok (w_db w) \<Longrightarrow> Option.bind (get_instance (w_db w) iid) ir_wake_at_ms \<noteq> Some d \<Longrightarrow>
   moved_on iid (Wake d) (workload w) w"
  by (simp_all add: moved_on_def take_deadline_stale)

lemma keeps_moved_clear:
  assumes "alone E"
  shows "keeps (moved_on (ir_id row) (Wake d) load) (clear_wake E row d)"
proof -
  have same: "w\<lparr>w_db := w_db w\<rparr> = w" for w :: "'a world" by simp
  have "keeps (moved_on (ir_id row) (Wake d) load) (db_call E (\<lambda>now db. Inr (claim_wake db (ir_id row) d now)))"
  proof (rule stable_db_call [OF undisturbed_moved [OF assms]])
    fix now and w :: "'a world" and a db
    assume w: "moved_on (ir_id row) (Wake d) load w" and "Inr (claim_wake (w_db w) (ir_id row) d now) = Inr (a, db)"
    hence "db = snd (take_deadline (w_db w) (ir_id row) (Wake d) now)" by (simp add: claim_wake_def prod_eq_iff)
    also have "\<dots> = w_db w" using w by (intro wake.not_taken_unchanged) (auto simp: moved_on_def)
    finally show "moved_on (ir_id row) (Wake d) load (w\<lparr>w_db := db\<rparr>)" using w by (simp add: same)
  qed
  thus ?thesis unfolding clear_wake_def
    by (intro keep_rules moved.event undisturbed_moved [OF assms])
qed

text \<open>
  C29: The reconciler acts on rows it read at the start of the tick.  When the lease of an
  instance has been renewed since, enforcing the deadline that was read starts no executor
  and changes no instance and no operation; likewise a wake alarm that has been armed again
  or disarmed.
\<close>

theorem stale_deadline_fires_nothing:
  assumes "alone E" and "schema_ok (w_db w)"
  shows "(ir_ttl_deadline_ms row \<noteq> Option.bind (get_instance (w_db w) (ir_id row)) ir_ttl_deadline_ms \<longrightarrow>
            workload (snd (run_state (enforce_ttl E row) w)) = workload w)
       \<and> (ir_wake_at_ms row \<noteq> Option.bind (get_instance (w_db w) (ir_id row)) ir_wake_at_ms \<longrightarrow>
            workload (snd (run_state (fire_due_wake E row) w)) = workload w)"
proof -
  note ud = undisturbed_moved [OF assms(1)]
  have ttl: "keeps (moved_on (ir_id row) (TtlExpiry d) load) (enforce_ttl E row)" if "ir_ttl_deadline_ms row = Some d" for d load
    unfolding enforce_ttl_def that option.case
    by (intro keep_rules keeps_moved_submit moved.event moved.outside ud assms(1))
  have wake: "keeps (moved_on (ir_id row) (Wake d) load) (fire_due_wake E row)" if "ir_wake_at_ms row = Some d" for d load
    unfolding fire_due_wake_def that option.case
    by (intro keep_rules keeps_moved_submit moved.event moved.outside keeps_moved_clear ud assms(1))
  have load: "moved_on iid c l v \<Longrightarrow> workload v = l" for iid c l and v :: "'a world" by (simp add: moved_on_def)
  have "workload (snd (run_state (enforce_ttl E row) w)) = workload w"
    if "ir_ttl_deadline_ms row \<noteq> Option.bind (get_instance (w_db w) (ir_id row)) ir_ttl_deadline_ms"
  proof (cases "ir_ttl_deadline_ms row")
    case (Some d)
    thus ?thesis using that moved_onI(1) [OF assms(2)]
      by (metis keepsD [OF ttl] load prod.collapse)
  qed (simp add: enforce_ttl_def)
  moreover have "workload (snd (run_state (fire_due_wake E row) w)) = workload w"
    if "ir_wake_at_ms row \<noteq> Option.bind (get_instance (w_db w) (ir_id row)) ir_wake_at_ms"
  proof (cases "ir_wake_at_ms row")
    case (Some d)
    thus ?thesis using that moved_onI(2) [OF assms(2)]
      by (metis keepsD [OF wake] load prod.collapse)
  qed (simp add: fire_due_wake_def)
  ultimately show ?thesis by blast
qed

theorem stale_deadline_fires_nothing_witness:
  "\<exists>row. get_instance sample_journal ''i1'' = Some row \<and> ir_ttl_deadline_ms row = Some 9
     \<and> workload (snd (run_state (enforce_ttl sample_env (row\<lparr>ir_ttl_deadline_ms := Some 7\<rparr>)) (sample_world sample_journal ())))
       = workload (sample_world sample_journal ())"
proof -
  obtain row where row: "get_instance sample_journal ''i1'' = Some row" "ir_ttl_deadline_ms row = Some 9" "ir_id row = ''i1''"
    by (simp add: get_instance_def sample_simps instance_row_from_def)
  have db: "w_db (sample_world sample_journal ()) = sample_journal" by (simp add: sample_world_def)
  from stale_deadline_fires_nothing [OF sample_quiet(1), of "sample_world sample_journal ()" "row\<lparr>ir_ttl_deadline_ms := Some 7\<rparr>"]
  show ?thesis using row sample_journal_ok unfolding db by auto
qed

text \<open>
  A due alarm on an instance that was created and never started is put off: no claim, no
  operation, no event, as long as the instance stays as it is.
\<close>

lemma wake_on_created_waits:
  assumes "ir_state row = I_Created"
  shows "w_db (snd (run_state (fire_due_wake E row) w)) = w_db w \<and> w_tasks (snd (run_state (fire_due_wake E row) w)) = w_tasks w"
  using assms by (simp add: fire_due_wake_def wake_action_def now_ms_def extern_def split: option.splits prod.splits)

end
