(* ===== verification/Capsule_Ops.thy ===== *)
theory Capsule_Ops
  imports Reconcile
begin

text \<open>
  \<open>capsule_ops.rs\<close>: exporting a snapshot as a content-addressed capsule and importing one.
  Both register a capsule only after every object of it is stored and verified.

  The sizes of the objects are added without a width: each is the length of bytes the
  node holds in memory.
\<close>

type_synonym CapsuleError = "error_reason \<times> string"

record pb_capsule =
  pk_capsule_id :: string
  pk_manifest :: "capsule_manifest option"
  pk_storage :: capsule_storage
  pk_total_size_bytes :: int
  pk_created_at :: "timestamp option"

definition capsule_to_proto :: "CapsuleRow \<Rightarrow> pb_capsule" where
  "capsule_to_proto r = \<lparr>pk_capsule_id = cr_capsule_id r, pk_manifest = Some (cr_manifest r),
     pk_storage = cr_storage r, pk_total_size_bytes = cr_total_size r,
     pk_created_at = Some (ts (cr_created_at_ms r))\<rparr>"

fun capsule_runtime_err :: "RuntimeError \<Rightarrow> CapsuleError" where
  "capsule_runtime_err (RE_SubstrateUnavailable m) = (ER_SubstrateUnavailable, m)"
| "capsule_runtime_err (RE_CapabilityMissing m) = (ER_CapabilityMissing, m)"
| "capsule_runtime_err (RE_TemplateNotFound m) = (ER_Unspecified, m)"
| "capsule_runtime_err (RE_NameConflict m) = (ER_Unspecified, m)"
| "capsule_runtime_err (RE_Other m) = (ER_Unspecified, m)"

definition achieved_tier :: "bool \<Rightarrow> capsule_storage" where
  "achieved_tier remote_tier = (if remote_tier then CS_ObjectStore else CS_LocalDir)"

section \<open>Export\<close>

fun export_objects ::
  "'s env \<Rightarrow> bool \<Rightarrow> SnapshotObject list \<Rightarrow> capsule_object list \<Rightarrow> int
   \<Rightarrow> ('s, CapsuleError + capsule_object list \<times> int) act" where
  "export_objects E remote_tier [] manifest_objects total_size = return (Inr (manifest_objects, total_size))"
| "export_objects E remote_tier (obj # objects) manifest_objects total_size = do {
     staged \<leftarrow> stage E (so_bytes obj);
     case staged of
       Inl e \<Rightarrow> return (Inl (ER_Unspecified, say E ''staging object'' [A_Text e]))
     | Inr staged \<Rightarrow> do {
         committed \<leftarrow> (if remote_tier then commit_remote E staged (sg_digest staged) (sg_length staged)
                       else commit E staged (sg_digest staged) (sg_length staged));
         case committed of
           Inl e \<Rightarrow> return (Inl (ER_CapsuleVerificationFailed, e))
         | Inr _ \<Rightarrow>
             export_objects E remote_tier objects
               (manifest_objects @ [\<lparr>ob_digest = sg_digest staged, ob_length = sg_length staged,
                  ob_type = so_type obj, ob_media_type = media_type (so_type obj)\<rparr>])
               (total_size + sg_length staged) } }"

definition export_lineage :: "SnapshotRow \<Rightarrow> InstanceRow option \<Rightarrow> string" where
  "export_lineage snap source =
     (case Option.bind source ir_lineage of
        Some l \<Rightarrow> if ln_lineage_id l = [] then sr_instance_id snap else ln_lineage_id l
      | None \<Rightarrow> sr_instance_id snap)"

text \<open>\<open>div_euclid\<close> and \<open>rem_euclid\<close> by a positive number round down, as \<open>div\<close> and \<open>mod\<close> do.\<close>

definition export_manifest :: "'s env \<Rightarrow> SnapshotRow \<Rightarrow> capsule_object list \<Rightarrow> string \<Rightarrow> capsule_manifest" where
  "export_manifest E snap objects lineage_id =
     \<lparr>mf_schema_version = CAPSULE_SCHEMA_VERSION, mf_cpu_class = sr_cpu_class snap,
      mf_template_hash = sr_template_hash snap, mf_runtime_bundle_ref = sr_runtime_bundle_ref snap,
      mf_kind = sr_kind snap, mf_objects = objects, mf_lineage_id = lineage_id,
      mf_architecture = en_arch E,
      mf_created_at = Some \<lparr>t_seconds = sr_created_at_ms snap div 1000,
        t_nanos = sr_created_at_ms snap mod 1000 * 1000000\<rparr>,
      mf_required_restore_capabilities =
        ''capsule_import'' # (if sr_kind snap = SK_MemoryAndDisk then [''memory_restore''] else [])\<rparr>"

definition register_exported ::
  "'s env \<Rightarrow> SnapshotRow \<Rightarrow> bool \<Rightarrow> capsule_object list \<Rightarrow> int \<Rightarrow> ('s, CapsuleError + pb_capsule) act" where
  "register_exported E snap remote_tier objects total_size = do {
     source \<leftarrow> db_read E (\<lambda>db. get_instance db (sr_instance_id snap));
     let manifest = export_manifest E snap objects (export_lineage snap (found source));
     now \<leftarrow> now_ms E;
     registered \<leftarrow> db_call E (\<lambda>_ db. Inr (register_capsule db
       \<lparr>cr_capsule_id = capsule_id (en_sha E) manifest, cr_manifest = manifest,
        cr_storage = achieved_tier remote_tier, cr_total_size = total_size, cr_created_at_ms = now\<rparr>));
     return (case registered of
               Inl e \<Rightarrow> Inl (ER_Unspecified, say E ''registering capsule'' [A_Db e])
             | Inr row \<Rightarrow> Inr (capsule_to_proto row)) }"

definition export_capsule ::
  "'s env \<Rightarrow> snapshot_id \<Rightarrow> capsule_storage \<Rightarrow> ('s, CapsuleError + pb_capsule) act" where
  "export_capsule E sid tier =
     (let remote_tier = (tier = CS_ObjectStore) in
      if remote_tier \<and> \<not> has_remote E
      then return (Inl (ER_ObjectStoreUnavailable, say E ''the object-store capsule tier is not configured'' []))
      else do {
        r \<leftarrow> db_read E (\<lambda>db. get_snapshot db sid);
        case r of
          Inl e \<Rightarrow> return (Inl (ER_Unspecified, say E ''reading snapshot'' [A_Db e]))
        | Inr None \<Rightarrow> return (Inl (ER_InvalidSpec, say E ''no snapshot is registered on this node to export'' [A_Text sid]))
        | Inr (Some snap) \<Rightarrow>
            if \<not> cap_capsule_export (rt_capabilities (en_runtime E))
            then return (Inl (ER_CapabilityMissing, say E ''this runtime cannot export a snapshot as a capsule'' []))
            else do {
              exported \<leftarrow> await E (rt_export_snapshot (en_substrate E) sid);
              case exported of
                Inl e \<Rightarrow> return (Inl (capsule_runtime_err e))
              | Inr objects \<Rightarrow> do {
                  published \<leftarrow> export_objects E remote_tier objects [] 0;
                  case published of
                    Inl e \<Rightarrow> return (Inl e)
                  | Inr (manifest_objects, total_size) \<Rightarrow>
                      register_exported E snap remote_tier manifest_objects total_size } } })"

section \<open>The snapshot an imported capsule is registered under\<close>

definition IMPORTED_PREFIX :: string where
  "IMPORTED_PREFIX = ''capsule:''"

definition imported_snapshot_id :: "string \<Rightarrow> snapshot_id" where
  "imported_snapshot_id cid = IMPORTED_PREFIX @ cid"

definition capsule_id_from_snapshot_id :: "snapshot_id \<Rightarrow> string option" where
  "capsule_id_from_snapshot_id sid =
     (case strip_prefix IMPORTED_PREFIX sid of
        Some rest \<Rightarrow> if rest = [] then None else Some rest
      | None \<Rightarrow> None)"

section \<open>Import\<close>

definition restore_available :: "capabilities \<Rightarrow> string \<Rightarrow> bool" where
  "restore_available caps required \<longleftrightarrow>
     (if required = ''capsule_import'' then cap_capsule_import caps
      else if required = ''memory_restore'' then cap_memory_snapshot caps
      else False)"

definition omits_capability :: "capsule_manifest \<Rightarrow> bool" where
  "omits_capability m \<longleftrightarrow>
     \<not> list_ex (\<lambda>c. c = ''capsule_import'') (mf_required_restore_capabilities m)
   \<or> mf_kind m = SK_MemoryAndDisk \<and> \<not> list_ex (\<lambda>c. c = ''memory_restore'') (mf_required_restore_capabilities m)"

text \<open>The refusals before any object is touched, in order.\<close>

definition import_refusal :: "'s env \<Rightarrow> capsule_manifest \<Rightarrow> capsule_storage \<Rightarrow> CapsuleError option" where
  "import_refusal E m storage =
     (let caps = rt_capabilities (en_runtime E) in
      if storage = CS_ObjectStore \<and> \<not> has_remote E
      then Some (ER_ObjectStoreUnavailable, say E ''objects live in an object store and none is configured'' [])
      else if \<not> cap_capsule_import caps
      then Some (ER_CapabilityMissing, say E ''this runtime cannot import a capsule'' [])
      else if mf_schema_version m \<noteq> CAPSULE_SCHEMA_VERSION
      then Some (ER_CapsuleIncompatible, say E ''capsule schema is not understood'' [A_Text (mf_schema_version m)])
      else if mf_architecture m = [] \<or> mf_architecture m \<noteq> en_arch E
      then Some (ER_CapsuleIncompatible, say E ''capsule architecture does not match'' [A_Text (mf_architecture m)])
      else case mf_created_at m of
        None \<Rightarrow> Some (ER_InvalidSpec, say E ''capsule manifest has no creation time'' [])
      | Some created_at \<Rightarrow>
          if \<not> (0 \<le> t_nanos created_at \<and> t_nanos created_at < 1000000000)
          then Some (ER_InvalidSpec, say E ''capsule creation time has invalid nanoseconds'' [])
          else if omits_capability m
          then Some (ER_InvalidSpec, say E ''capsule manifest omits a required capability'' [])
          else case find (\<lambda>c. \<not> restore_available caps c) (mf_required_restore_capabilities m) of
            Some required \<Rightarrow> Some (ER_CapabilityMissing, say E ''unsupported restore capability'' [A_Text required])
          | None \<Rightarrow>
              if mf_cpu_class m \<noteq> [] \<and> mf_cpu_class m \<noteq> en_cpu_class E
              then Some (ER_CapsuleIncompatible, say E ''capsule cpu_class does not match'' [A_Text (mf_cpu_class m)])
              else None)"

definition remote_label :: "'s env \<Rightarrow> string option" where
  "remote_label E = map_option ob_label (en_remote E)"

definition verify_object :: "'s env \<Rightarrow> bool \<Rightarrow> capsule_object \<Rightarrow> ('s, CapsuleError option) act" where
  "verify_object E remote_tier obj =
     (if ob_type obj = CT_Unspecified \<or> ob_media_type obj \<noteq> media_type (ob_type obj)
      then return (Some (ER_InvalidSpec, say E ''object has the wrong media type''
             [A_Text (ob_digest obj), A_Text (ob_media_type obj), A_Text (media_type (ob_type obj)), A_Object (ob_type obj)]))
      else do {
        fetched \<leftarrow> (if remote_tier then fetch_remote_verified E (ob_digest obj) else fetch E (ob_digest obj));
        return (case fetched of
            Inr (Some bytes) \<Rightarrow>
              if int (length bytes) = ob_length obj then None
              else Some (ER_CapsuleVerificationFailed, say E ''object has another length than the manifest claims''
                     [A_Text (ob_digest obj), A_Num (int (length bytes)), A_Num (ob_length obj)])
          | Inr None \<Rightarrow>
              if remote_tier
              then Some (ER_CapsuleVerificationFailed, say E ''object is not in the object store''
                     [A_Text (ob_digest obj),
                      A_Text (case remote_label E of Some label \<Rightarrow> label | None \<Rightarrow> ''the configured object store'')])
              else Some (ER_CapsuleVerificationFailed, say E ''object is not present in this node's store''
                     [A_Text (ob_digest obj), A_Text (case remote_label E of Some bucket \<Rightarrow> '' or in '' @ bucket | None \<Rightarrow> [])])
          | Inl e \<Rightarrow> Some (ER_CapsuleVerificationFailed, say E ''object failed verification'' [A_Text (ob_digest obj), A_Text e])) })"

fun verify_objects :: "'s env \<Rightarrow> bool \<Rightarrow> capsule_object list \<Rightarrow> int \<Rightarrow> ('s, CapsuleError + int) act" where
  "verify_objects E remote_tier [] total_size = return (Inr total_size)"
| "verify_objects E remote_tier (obj # objects) total_size = do {
     refused \<leftarrow> verify_object E remote_tier obj;
     case refused of
       Some e \<Rightarrow> return (Inl e)
     | None \<Rightarrow> verify_objects E remote_tier objects (total_size + ob_length obj) }"

definition imported_row :: "capsule_manifest \<Rightarrow> bool \<Rightarrow> string \<Rightarrow> int \<Rightarrow> ms \<Rightarrow> SnapshotRow" where
  "imported_row m remote_tier cid total_size now =
     \<lparr>sr_snapshot_id = imported_snapshot_id cid, sr_instance_id = [], sr_kind = mf_kind m,
      sr_cpu_class = mf_cpu_class m, sr_template_hash = mf_template_hash m,
      sr_runtime_bundle_ref = mf_runtime_bundle_ref m,
      sr_tier = (if remote_tier then ST_ObjectStore else ST_Local), sr_size_bytes = total_size,
      sr_created_at_ms = now, sr_pre_snapshot_hook = None, sr_name = []\<rparr>"

definition register_imported ::
  "'s env \<Rightarrow> capsule_manifest \<Rightarrow> bool \<Rightarrow> int \<Rightarrow> ('s, CapsuleError + pb_capsule) act" where
  "register_imported E m remote_tier total_size = do {
     let cid = capsule_id (en_sha E) m;
     now \<leftarrow> now_ms E;
     registered \<leftarrow> db_call E (\<lambda>_ db. Inr (register_capsule db
       \<lparr>cr_capsule_id = cid, cr_manifest = m, cr_storage = achieved_tier remote_tier,
        cr_total_size = total_size, cr_created_at_ms = now\<rparr>));
     case registered of
       Inl e \<Rightarrow> return (Inl (ER_Unspecified, say E ''registering capsule'' [A_Db e]))
     | Inr row \<Rightarrow> do {
         created \<leftarrow> now_ms E;
         r \<leftarrow> db_write E (\<lambda>now db. insert_snapshot db (imported_row m remote_tier cid total_size created) now);
         return (case r of
                   Inl e \<Rightarrow> Inl (ER_Unspecified, say E ''registering snapshot'' [A_Db e])
                 | Inr _ \<Rightarrow> Inr (capsule_to_proto row)) } }"

definition import_capsule ::
  "'s env \<Rightarrow> capsule_manifest \<Rightarrow> capsule_storage \<Rightarrow> ('s, CapsuleError + pb_capsule) act" where
  "import_capsule E m storage =
     (let remote_tier = (storage = CS_ObjectStore) in
      case import_refusal E m storage of
        Some e \<Rightarrow> return (Inl e)
      | None \<Rightarrow> do {
          verified \<leftarrow> verify_objects E remote_tier (mf_objects m) 0;
          case verified of
            Inl e \<Rightarrow> return (Inl e)
          | Inr total_size \<Rightarrow> register_imported E m remote_tier total_size })"

section \<open>The journal invariant\<close>

lemma keeps_export_objects [keep_rules]:
  "rely I E \<Longrightarrow> keeps (on_db I) (export_objects E remote objs acc n)"
  by (induction objs arbitrary: acc n) (auto intro!: keep_rules)

lemma keeps_verify_object [keep_rules]: "rely I E \<Longrightarrow> keeps (on_db I) (verify_object E remote ob)"
  unfolding verify_object_def by (intro keep_rules)

lemma keeps_verify_objects [keep_rules]: "rely I E \<Longrightarrow> keeps (on_db I) (verify_objects E remote obs n)"
  by (induction obs arbitrary: n) (auto intro!: keep_rules)

lemma keeps_node_register [keep_rules]:
  assumes "rely node_ok E"
  shows "keeps (on_db node_ok) (db_call E (\<lambda>_ db. Inr (register_capsule db row)))"
  by (rule keeps_db_call [OF assms]) (auto dest: node_ok_register_capsule simp: prod_eq_iff)

lemma keeps_node_export_capsule [keep_rules]:
  assumes "rely node_ok E"
  shows "keeps (on_db node_ok) (export_capsule E sid tier)"
  unfolding export_capsule_def register_exported_def Let_def by (intro keep_rules assms)

lemma keeps_node_import_capsule [keep_rules]:
  assumes "rely node_ok E"
  shows "keeps (on_db node_ok) (import_capsule E m storage)"
proof -
  have "keeps (on_db node_ok) (db_write E (\<lambda>now db. insert_snapshot db row now))" for row
    by (rule keeps_node_write [OF assms]) (rule node_ok_insert_snapshot)
  thus ?thesis
    unfolding import_capsule_def register_imported_def Let_def by (intro keep_rules assms)
qed

section \<open>What an import has seen\<close>

text \<open>Bytes that are the object the manifest declares, out of the bucket when the claim is durability.\<close>

definition object_evidence :: "'s env \<Rightarrow> bool \<Rightarrow> capsule_object \<Rightarrow> bool" where
  "object_evidence E remote_tier ob \<longleftrightarrow>
     ob_type ob \<noteq> CT_Unspecified \<and> ob_media_type ob = media_type (ob_type ob)
   \<and> (\<exists>b. object_digest (en_sha E) b = ob_digest ob \<and> int (length b) = ob_length ob
          \<and> (remote_tier \<longrightarrow> served E (ob_digest ob) b))"

lemma yields_verify_object:
  "yields (verify_object E remote_tier ob) (\<lambda>r. r = None \<longrightarrow> object_evidence E remote_tier ob)"
proof -
  have "yields (if remote_tier then fetch_remote_verified E (ob_digest ob) else fetch E (ob_digest ob))
      (\<lambda>r. \<forall>b. r = Inr (Some b) \<longrightarrow> object_digest (en_sha E) b = ob_digest ob
             \<and> (remote_tier \<longrightarrow> served E (ob_digest ob) b))"
    by (auto intro: yields_post [OF yields_fetch_remote] yields_post [OF yields_fetch])
  note fetched = this
  show ?thesis unfolding verify_object_def
    by (rule yields_if, simp add: yields_return, rule yields_bind [OF fetched], rule yields_return)
      (auto simp: object_evidence_def split: sum.splits option.splits if_splits)
qed

lemma yields_verify_objects:
  "yields (verify_objects E remote_tier obs n)
     (\<lambda>r. \<not> isl r \<longrightarrow> (\<forall>ob \<in> set obs. object_evidence E remote_tier ob))"
proof (induction obs arbitrary: n)
  case (Cons ob obs)
  have "yields (verify_objects E remote_tier obs k)
      (\<lambda>r. \<not> isl r \<longrightarrow> (\<forall>ob \<in> set (ob # obs). object_evidence E remote_tier ob))" if "object_evidence E remote_tier ob" for k
    by (rule yields_post [OF Cons.IH]) (use that in simp)
  thus ?case
    by (auto intro!: yields_bind [OF yields_verify_object] split: option.split simp: yields_return)
qed (simp add: yields_return)

lemma registered_capsule_id [simp]: "cr_capsule_id (fst (register_capsule db row)) = cr_capsule_id row"
  by (auto simp: register_capsule_def capsule_row_from_def Let_def dest: row_with_Some_key split: option.split)

lemma yields_db_call:
  assumes "\<And>now db a db'. f now db = Inr (a, db') \<Longrightarrow> Q a"
  shows "yields (db_call E f) (\<lambda>r. \<forall>a. r = Inr a \<longrightarrow> Q a)"
  unfolding db_call_def
  by (intro yields_any yields_case_option yields_return)
    (auto simp: yields_def dest: assms split: sum.splits)

lemma yields_register:
  "yields (db_call E (\<lambda>_ db. Inr (register_capsule db row))) (\<lambda>r. \<forall>a. r = Inr a \<longrightarrow> cr_capsule_id a = cr_capsule_id row)"
  by (rule yields_db_call) (auto dest: arg_cong [where f = "\<lambda>x. cr_capsule_id (fst x)"])

lemma yields_register_imported:
  "yields (register_imported E m remote_tier n) (\<lambda>r. \<forall>c. r = Inr c \<longrightarrow> pk_capsule_id c = capsule_id (en_sha E) m)"
  unfolding register_imported_def Let_def
  by (rule yields_any, rule yields_bind [OF yields_register])
    (intro yield_rules yields_return, auto simp: capsule_to_proto_def split: sum.splits)


text \<open>A runtime that exports one object, and the manifest of its snapshot.\<close>

definition sample_exporter :: "unit env" where
  "sample_exporter = sample_env\<lparr>en_substrate := sample_substrate\<lparr>rt_export_snapshot :=
     (\<lambda>_ x. (Inr [\<lparr>so_type = CT_Memory, so_bytes = ''a''\<rparr>], x))\<rparr>\<rparr>"

definition sample_exported :: capsule_manifest where
  "sample_exported = export_manifest sample_exporter sample_snapshot
     [\<lparr>ob_digest = ''sha256:61'', ob_length = 1, ob_type = CT_Memory, ob_media_type = media_type CT_Memory\<rparr>] ''i1''"

lemmas export_run_simps = sample_exporter_def sample_env_def sample_world_def sample_substrate_def sample_runtime_def
  sample_capabilities_def action_defs fs_call_def object_digest_def to_lower_def HEX_def Let_def

lemmas import_run_simps = export_run_simps import_capsule_def import_refusal_def sample_exported_def export_manifest_def
  sample_snapshot_def has_remote_def omits_capability_def restore_available_def verify_object_def fetch_def
  read_verified_def open_object_def is_path_safe_digest_def register_imported_def

lemma run_succeeded: "\<not> isl (fst (run_state m w)) \<Longrightarrow> \<exists>c w'. run_state m w = (Inr c, w')"
  by (cases "run_state m w", cases "fst (run_state m w)") auto


section \<open>What is exported can be imported\<close>

lemma triple_faultless_fs:
  assumes "undisturbed P E" and "faultless E"
    and "\<And>w. P w \<Longrightarrow> \<exists>a w'. f w = Inr (a, w') \<and> Q (Inr a) w'"
  shows "triple P (fs_call E f) Q"
proof -
  have "triple P (extern (en_fault E)) (\<lambda>fault w. P w \<and> fault = None)"
    by (rule triple_yields [OF stable_extern [OF assms(1)] yields_extern]) (use assms(2) in \<open>simp add: faultless_def\<close>)
  moreover have "triple (\<lambda>w. P w \<and> fault = None) (case fault of Some e \<Rightarrow> return (Inl e)
          | None \<Rightarrow> State (\<lambda>w. case f w of Inl e \<Rightarrow> (Inl e, w) | Inr (a, w') \<Rightarrow> (Inr a, w'))) Q" for fault
    by (rule tripleI) (use assms(3) in \<open>fastforce split: option.splits\<close>)
  ultimately show ?thesis
    unfolding fs_call_def by (intro keeps_then [OF stable_others [OF assms(1)]] triple_bind)
qed

text \<open>The local store has every object of a list, under its digest and with its length.\<close>

definition shelved :: "'s env \<Rightarrow> capsule_object list \<Rightarrow> 's world \<Rightarrow> bool" where
  "shelved E obs w \<longleftrightarrow> addressed (en_sha E) w \<and> (\<forall>ob \<in> set obs.
     ob_type ob \<noteq> CT_Unspecified \<and> ob_media_type ob = media_type (ob_type ob) \<and> is_path_safe_digest (ob_digest ob)
   \<and> (\<exists>b. map_of (w_objects w) (ob_digest ob) = Some b \<and> int (length b) = ob_length ob))"

definition waiting :: "'s env \<Rightarrow> capsule_object list \<Rightarrow> string \<Rightarrow> Staged \<Rightarrow> 's world \<Rightarrow> bool" where
  "waiting E obs b st w \<longleftrightarrow> shelved E obs w \<and> sg_digest st = object_digest (en_sha E) b
     \<and> sg_length st = int (length b) \<and> map_of (w_staging w) (sg_path st) = Some b"

definition object_of :: "'s env \<Rightarrow> SnapshotObject \<Rightarrow> capsule_object" where
  "object_of E obj = \<lparr>ob_digest = object_digest (en_sha E) (so_bytes obj), ob_length = int (length (so_bytes obj)),
     ob_type = so_type obj, ob_media_type = media_type (so_type obj)\<rparr>"

lemma set_to_lower: "set (to_lower bs) \<subseteq> set HEX"
proof -
  have "HEX ! n \<in> set HEX" if "n < 16" for n
    using that by (intro nth_mem) (simp add: HEX_def)
  moreover have "of_char c div 16 < (16 :: nat)" "of_char c mod 16 < (16 :: nat)" for c :: char
    using nat_of_char_less_256 [of c] by (auto intro: less_mult_imp_div_less)
  ultimately show ?thesis by (auto simp: to_lower_def)
qed

lemma object_digest_path_safe [simp]: "is_path_safe_digest (object_digest sha b)"
  using set_to_lower [of "sha b"]
  by (auto simp: is_path_safe_digest_def object_digest_def HEX_def)

lemma undisturbed_shelved:
  assumes "alone E"
  shows "undisturbed (shelved E obs) E" "undisturbed (waiting E obs b st) E"
  by (rule undisturbed_alone [OF assms], simp add: shelved_def waiting_def addressed_def)+

lemma triple_stage_shelved:
  assumes "alone E"
  shows "triple (shelved E obs) (stage E b) (\<lambda>r w. case r of Inl e \<Rightarrow> shelved E obs w | Inr st \<Rightarrow> waiting E obs b st w)"
  unfolding stage_def Let_def
  by (rule keeps_then [OF stable_extern [OF undisturbed_shelved(1) [OF assms]]],
      rule stable_fs_call [OF undisturbed_shelved(1) [OF assms]])
    (auto simp: waiting_def shelved_def addressed_def file_simps)

lemma shelved_snoc:
  assumes "shelved E obs w" and "so_type obj \<noteq> CT_Unspecified"
    and "map_of (w_objects w) (object_digest (en_sha E) (so_bytes obj)) = Some (so_bytes obj)"
  shows "shelved E (obs @ [object_of E obj]) w"
  using assms by (auto simp: shelved_def object_of_def)

lemma waiting_present:
  assumes "inj (object_digest (en_sha E))" and "waiting E obs b st w"
    and "map_of (w_objects w) (object_digest (en_sha E) b) \<noteq> None"
  shows "map_of (w_objects w) (object_digest (en_sha E) b) = Some b"
  using assms by (auto simp: waiting_def shelved_def addressed_def dest: injD)

lemma waiting_renamed:
  assumes "waiting E obs b st w" and "map_of (w_objects w) (object_digest (en_sha E) b) = None"
  shows "\<exists>w'. rename_staged (sg_path st) (sg_digest st) w = Inr ((), w') \<and> shelved E obs w'
           \<and> map_of (w_objects w') (object_digest (en_sha E) b) = Some b"
proof -
  have "ob_digest ob \<noteq> object_digest (en_sha E) b" if "ob \<in> set obs" for ob
    using assms that by (fastforce simp: waiting_def shelved_def)
  with assms show ?thesis
    by (auto simp: waiting_def shelved_def addressed_def rename_staged_def file_simps)
qed

lemma triple_commit_shelved:
  fixes E :: "'s env"
  assumes "alone E" "inj (object_digest (en_sha E))" "so_type obj \<noteq> CT_Unspecified"
  shows "triple (waiting E obs (so_bytes obj) st) (commit E st (sg_digest st) (sg_length st))
           (\<lambda>r w. \<not> isl r \<longrightarrow> shelved E (obs @ [object_of E obj]) w)"
proof -
  let ?W = "waiting E obs (so_bytes obj) st" and ?d = "object_digest (en_sha E) (so_bytes obj)"
  let ?D = "\<lambda>w. shelved E (obs @ [object_of E obj]) w"
  have ud: "undisturbed (\<lambda>w. ?W w \<and> map_of (w_objects w) ?d = None) E" "undisturbed ?D E"
    by (rule undisturbed_alone [OF assms(1)], simp add: shelved_def waiting_def addressed_def)+
  have drop: "keeps ?D (remove_staged E (sg_path st))"
    unfolding remove_staged_def by (intro keep_rules stable_keeps_fs_call ud) (auto simp: shelved_def addressed_def)
  have publish: "triple (\<lambda>w. ?W w \<and> map_of (w_objects w) ?d = None)
      (fs_call E (rename_staged (sg_path st) (sg_digest st))) (\<lambda>r w. \<not> isl r \<longrightarrow> ?D w)"
    by (rule triple_post [OF stable_fs_call [OF ud(1), where Q = "\<lambda>_. ?D" and R = "\<lambda>_ _. True"]])
      (auto dest!: waiting_renamed intro!: shelved_snoc assms(3) split: sum.splits)
  have known: "triple (\<lambda>w. ?W w \<and> map_of (w_objects w) ?d \<noteq> None)
      (do { remove_staged E (sg_path st); return (Inr () :: string + unit) }) (\<lambda>r w. \<not> isl r \<longrightarrow> ?D w)"
    by (rule triple_pre [OF keeps_then [OF drop triple_return]], blast) (metis shelved_snoc [OF _ assms(3)] waiting_present [OF assms(2)] waiting_def)
  have look: "triple ?W (gets (\<lambda>w. \<exists>b. map_of (w_objects w) (sg_digest st) = Some b))
      (\<lambda>present w. ?W w \<and> present = (map_of (w_objects w) ?d \<noteq> None))"
    by (simp add: triple_def gets_def waiting_def)
  show ?thesis
    unfolding commit_def
    by (simp, rule keeps_then [OF stable_others [OF undisturbed_shelved(2) [OF assms(1)]]],
        rule triple_bind [OF look])
      (use publish known in simp)
qed

lemma triple_export_shelved:
  assumes "alone E" "inj (object_digest (en_sha E))" "\<forall>obj \<in> set objs. so_type obj \<noteq> CT_Unspecified"
  shows "triple (shelved E obs) (export_objects E False objs obs n)
           (\<lambda>r w. \<forall>obs' n'. r = Inr (obs', n') \<longrightarrow> shelved E obs' w)"
  using assms(3)
proof (induction objs arbitrary: obs n)
  case (Cons obj objs)
  have rest: "triple (\<lambda>w. \<not> isl r \<longrightarrow> shelved E (obs @ [object_of E obj]) w)
      (case r of Inl e \<Rightarrow> return (Inl (ER_CapsuleVerificationFailed, e))
       | Inr _ \<Rightarrow> export_objects E False objs (obs @ [object_of E obj]) k)
      (\<lambda>r w. \<forall>obs' n'. r = Inr (obs', n') \<longrightarrow> shelved E obs' w)" for r k
    using Cons by (cases r) (auto intro: triple_return)
  have one: "triple (waiting E obs (so_bytes obj) st)
      (do { committed \<leftarrow> commit E st (sg_digest st) (sg_length st);
            case committed of Inl e \<Rightarrow> return (Inl (ER_CapsuleVerificationFailed, e))
            | Inr _ \<Rightarrow> export_objects E False objs (obs @ [object_of E obj]) k })
      (\<lambda>r w. \<forall>obs' n'. r = Inr (obs', n') \<longrightarrow> shelved E obs' w)" for st k
    by (rule triple_bind [OF triple_commit_shelved rest]) (use assms Cons.prems in simp_all)
  have step: "triple (waiting E obs (so_bytes obj) st)
      (do { committed \<leftarrow> commit E st (sg_digest st) (sg_length st);
            case committed of Inl e \<Rightarrow> return (Inl (ER_CapsuleVerificationFailed, e))
            | Inr _ \<Rightarrow> export_objects E False objs (obs @ [\<lparr>ob_digest = sg_digest st, ob_length = sg_length st,
                ob_type = so_type obj, ob_media_type = media_type (so_type obj)\<rparr>]) k })
      (\<lambda>r w. \<forall>obs' n'. r = Inr (obs', n') \<longrightarrow> shelved E obs' w)" (is "triple _ ?m ?Q") for st k
  proof (cases "sg_digest st = object_digest (en_sha E) (so_bytes obj) \<and> sg_length st = int (length (so_bytes obj))")
    case True
    with one [of st k] show ?thesis by (simp add: object_of_def cong: sum.case_cong)
  next
    case False
    thus ?thesis by (intro tripleI) (simp add: waiting_def)
  qed
  have "triple (\<lambda>w. case r of Inl e \<Rightarrow> shelved E obs w | Inr st \<Rightarrow> waiting E obs (so_bytes obj) st w)
     (case r of Inl e \<Rightarrow> return (Inl (ER_Unspecified, say E ''staging object'' [A_Text e]))
      | Inr st \<Rightarrow> (do { committed \<leftarrow> commit E st (sg_digest st) (sg_length st);
            case committed of Inl e \<Rightarrow> return (Inl (ER_CapsuleVerificationFailed, e))
            | Inr _ \<Rightarrow> export_objects E False objs (obs @ [\<lparr>ob_digest = sg_digest st, ob_length = sg_length st,
                ob_type = so_type obj, ob_media_type = media_type (so_type obj)\<rparr>]) (n + sg_length st) }))
      (\<lambda>r w. \<forall>obs' n'. r = Inr (obs', n') \<longrightarrow> shelved E obs' w)" for r
    using step by (cases r) (simp_all add: triple_return)
  thus ?case
    unfolding export_objects.simps if_False by (rule triple_bind [OF triple_stage_shelved [OF assms(1)]])
qed (simp add: triple_def)

lemma triple_fetch_shelved:
  assumes "alone E" "faultless E" "ob \<in> set obs"
  shows "triple (shelved E obs) (verify_object E False ob) (\<lambda>r w. shelved E obs w \<and> r = None)"
proof (cases "ob_type ob \<noteq> CT_Unspecified \<and> ob_media_type ob = media_type (ob_type ob)")
  case True
  have opened: "triple (shelved E obs) (fs_call E (open_object (ob_digest ob)))
      (\<lambda>r w. shelved E obs w \<and> (\<exists>b. r = Inr (Some b) \<and> object_digest (en_sha E) b = ob_digest ob
         \<and> int (length b) = ob_length ob))"
    by (rule triple_faultless_fs [OF undisturbed_shelved(1) [OF assms(1)] assms(2)])
      (use assms(3) in \<open>fastforce simp: shelved_def open_object_def addressed_def\<close>)
  have fetched: "triple (shelved E obs) (fetch E (ob_digest ob))
      (\<lambda>r w. shelved E obs w \<and> (\<exists>b. r = Inr (Some b) \<and> int (length b) = ob_length ob))"
    unfolding fetch_def read_verified_def bind_assoc
    by (rule triple_bind [OF opened]) (auto simp: triple_def)
  show ?thesis
    unfolding verify_object_def if_False
    by (subst if_not_P, use True in simp, rule triple_bind [OF fetched]) (auto simp: triple_def)
next
  case False
  thus ?thesis using assms(3) by (auto simp: triple_def shelved_def)
qed

lemma triple_verify_shelved:
  assumes "alone E" "faultless E" "set obs' \<subseteq> set obs"
  shows "triple (shelved E obs) (verify_objects E False obs' n) (\<lambda>r w. \<not> isl r)"
  using assms(3)
proof (induction obs' arbitrary: n)
  case (Cons ob obs')
  show ?case
    unfolding verify_objects.simps
    by (rule triple_bind [OF triple_fetch_shelved [OF assms(1,2)]], use Cons.prems in simp)
      (rule triple_assuming, use Cons in simp)
qed (simp add: triple_def)

text \<open>The runtime types what it exports.\<close>

definition typed_exports :: "'s env \<Rightarrow> snapshot_id \<Rightarrow> bool" where
  "typed_exports E sid \<longleftrightarrow> (\<forall>x. case fst (rt_export_snapshot (en_substrate E) sid x) of
     Inl _ \<Rightarrow> True | Inr objs \<Rightarrow> \<forall>obj \<in> set objs. so_type obj \<noteq> CT_Unspecified)"

text \<open>This node could run what it exports from the snapshot.\<close>

definition self_compatible :: "'s env \<Rightarrow> SnapshotRow \<Rightarrow> bool" where
  "self_compatible E snap \<longleftrightarrow> cap_capsule_import (rt_capabilities (en_runtime E)) \<and> en_arch E \<noteq> []
     \<and> (sr_kind snap = SK_MemoryAndDisk \<longrightarrow> cap_memory_snapshot (rt_capabilities (en_runtime E)))
     \<and> (sr_cpu_class snap = [] \<or> sr_cpu_class snap = en_cpu_class E)"

lemma exported_manifest_accepted:
  "self_compatible E snap \<Longrightarrow> import_refusal E (export_manifest E snap obs l) CS_LocalDir = None"
  by (auto simp: self_compatible_def import_refusal_def export_manifest_def omits_capability_def restore_available_def
      find_None_iff)

lemma triple_register_exported:
  assumes "alone E"
  shows "triple (shelved E obs) (register_exported E snap False obs n) (\<lambda>r w. \<forall>c. r = Inr c \<longrightarrow>
     (\<exists>l. pk_capsule_id c = capsule_id (en_sha E) (export_manifest E snap obs l)) \<and> shelved E obs w)"
proof -
  have ud: "undisturbed (shelved E obs) E" by (rule undisturbed_shelved(1) [OF assms])
  have frame: "shelved E obs (w\<lparr>w_db := db\<rparr>) = shelved E obs w" for w :: "'a world" and db
    by (simp add: shelved_def addressed_def)
  have "triple (shelved E obs) (db_call E (\<lambda>_ db. Inr (register_capsule db row)))
      (\<lambda>r w. shelved E obs w \<and> (\<forall>a. r = Inr a \<longrightarrow> cr_capsule_id a = cr_capsule_id row))" for row
    by (intro triple_yields [OF _ yields_register] stable_db_call ud) (simp add: frame)
  note registered = this
  show ?thesis
    unfolding register_exported_def Let_def db_read_def now_ms_def
    by (rule keeps_then [OF stable_db_call [OF ud]], simp add: frame,
        rule keeps_then [OF stable_extern [OF ud]], rule triple_bind [OF registered])
      (auto intro!: triple_return simp: capsule_to_proto_def split: sum.splits)
qed

lemma triple_export_capsule:
  assumes "alone E" "inj (object_digest (en_sha E))" "typed_exports E sid"
  shows "triple (\<lambda>w. addressed (en_sha E) w \<and> get_snapshot (w_db w) sid = Some snap) (export_capsule E sid CS_LocalDir)
     (\<lambda>r w. \<forall>c. r = Inr c \<longrightarrow>
        (\<exists>obs. (\<exists>l. pk_capsule_id c = capsule_id (en_sha E) (export_manifest E snap obs l)) \<and> shelved E obs w))"
    (is "triple ?P _ ?Q")
proof -
  have ud: "undisturbed ?P E" by (rule undisturbed_alone [OF assms(1)]) (simp add: addressed_def)
  have read: "triple ?P (db_read E (\<lambda>db. get_snapshot db sid)) (\<lambda>r w. ?P w \<and> (\<forall>a. r = Inr a \<longrightarrow> a = Some snap))"
    unfolding db_read_def by (rule triple_db_call [OF ud]) (auto simp: addressed_def)
  have typed: "triple ?P (await E (rt_export_snapshot (en_substrate E) sid))
      (\<lambda>r w. ?P w \<and> (\<forall>objs. r = Inr objs \<longrightarrow> (\<forall>obj \<in> set objs. so_type obj \<noteq> CT_Unspecified)))"
    by (rule triple_yields [OF stable_await [OF ud] yields_await])
      (use assms(3) in \<open>auto simp: typed_exports_def split: sum.splits\<close>)
  have publish: "triple ?P (export_objects E False objs [] 0) (\<lambda>r w. \<forall>obs n. r = Inr (obs, n) \<longrightarrow> shelved E obs w)"
    if "\<forall>obj \<in> set objs. so_type obj \<noteq> CT_Unspecified" for objs
    by (rule triple_pre [OF triple_export_shelved [OF assms(1,2) that]]) (simp add: shelved_def)
  have register: "triple (shelved E obs) (register_exported E snap False obs n) ?Q" for obs n
    by (rule triple_post [OF triple_register_exported [OF assms(1)]]) blast
  have published: "triple ?P (do { published \<leftarrow> export_objects E False objs [] 0;
                  case published of
                    Inl e \<Rightarrow> return (Inl e)
                  | Inr (manifest_objects, total_size) \<Rightarrow>
                      register_exported E snap False manifest_objects total_size }) ?Q"
    if "\<forall>obj \<in> set objs. so_type obj \<noteq> CT_Unspecified" for objs
    by (rule triple_bind [OF publish [OF that]])
      (auto intro!: triple_return triple_pre [OF register] split: sum.splits)
  have "triple ?P (do {
              exported \<leftarrow> await E (rt_export_snapshot (en_substrate E) sid);
              case exported of
                Inl e \<Rightarrow> return (Inl (capsule_runtime_err e))
              | Inr objects \<Rightarrow> do {
                  published \<leftarrow> export_objects E False objects [] 0;
                  case published of
                    Inl e \<Rightarrow> return (Inl e)
                  | Inr (manifest_objects, total_size) \<Rightarrow>
                      register_exported E snap False manifest_objects total_size } }) ?Q"
    by (rule triple_bind [OF typed], rule triple_assuming) (auto intro!: triple_return published split: sum.split)
  note exported = this
  show ?thesis
    unfolding export_capsule_def Let_def
    by (simp, rule triple_bind [OF read], rule triple_assuming)
      (auto intro!: triple_return exported split: sum.split option.split)
qed


lemma HEX_inj: "m < 16 \<Longrightarrow> n < 16 \<Longrightarrow> HEX ! m = HEX ! n \<longleftrightarrow> m = n"
  by (rule nth_eq_iff_index_eq) (simp_all add: HEX_def)

lemma nibbles_inj:
  fixes m n :: nat
  assumes "m < 256" "n < 256" "HEX ! (m div 16) = HEX ! (n div 16)" "HEX ! (m mod 16) = HEX ! (n mod 16)"
  shows "m = n"
proof -
  have "m div 16 = n div 16" "m mod 16 = n mod 16"
    using assms by (simp_all add: HEX_inj less_mult_imp_div_less)
  thus ?thesis by (metis div_mult_mod_eq)
qed

lemma to_lower_inj: "to_lower as = to_lower bs \<Longrightarrow> as = bs"
proof (induction as arbitrary: bs)
  case (Cons a as)
  then obtain b bs' where bs: "bs = b # bs'" by (cases bs) (auto simp: to_lower_def)
  hence "(of_char a :: nat) = of_char b"
    using Cons.prems by (intro nibbles_inj) (auto simp: to_lower_def)
  thus ?case using Cons bs by (auto simp: to_lower_def)
qed (cases bs, auto simp: to_lower_def)


end
