(* ===== verification/Service_Pages.thy ===== *)
theory Service_Pages
  imports Capsule_Ops
begin

text \<open>
  \<open>service.rs\<close>, the part every verb shares -- statuses with a machine-readable reason, and
  an instance as its proto -- and \<open>ListInstances\<close> with its page tokens.

  The base64 alphabet and the wire length of a message belong to the crates \<open>base64\<close> and
  \<open>prost\<close>: they are the fields of \<open>codec\<close>.
\<close>

section \<open>Statuses\<close>

fun reason_name :: "error_reason \<Rightarrow> string" where
  "reason_name ER_Unspecified = ''ERROR_REASON_UNSPECIFIED''"
| "reason_name ER_InvalidSpec = ''ERROR_REASON_INVALID_SPEC''"
| "reason_name ER_TemplateNotFound = ''ERROR_REASON_TEMPLATE_NOT_FOUND''"
| "reason_name ER_BundleMismatch = ''ERROR_REASON_BUNDLE_MISMATCH''"
| "reason_name ER_CpuClassMismatch = ''ERROR_REASON_CPU_CLASS_MISMATCH''"
| "reason_name ER_CapabilityMissing = ''ERROR_REASON_CAPABILITY_MISSING''"
| "reason_name ER_ConcurrentOperation = ''ERROR_REASON_CONCURRENT_OPERATION''"
| "reason_name ER_GuestUnreachable = ''ERROR_REASON_GUEST_UNREACHABLE''"
| "reason_name ER_HookTimeout = ''ERROR_REASON_HOOK_TIMEOUT''"
| "reason_name ER_ResourcesExhausted = ''ERROR_REASON_RESOURCES_EXHAUSTED''"
| "reason_name ER_SnapshotInvalidated = ''ERROR_REASON_SNAPSHOT_INVALIDATED''"
| "reason_name ER_SubstrateUnavailable = ''ERROR_REASON_SUBSTRATE_UNAVAILABLE''"
| "reason_name ER_CursorTooOld = ''ERROR_REASON_CURSOR_TOO_OLD''"
| "reason_name ER_SnapshotNameConflict = ''ERROR_REASON_SNAPSHOT_NAME_CONFLICT''"
| "reason_name ER_ForkModeUnavailable = ''ERROR_REASON_FORK_MODE_UNAVAILABLE''"
| "reason_name ER_CapsuleVerificationFailed = ''ERROR_REASON_CAPSULE_VERIFICATION_FAILED''"
| "reason_name ER_CapsuleIncompatible = ''ERROR_REASON_CAPSULE_INCOMPATIBLE''"
| "reason_name ER_CapsuleNotFound = ''ERROR_REASON_CAPSULE_NOT_FOUND''"
| "reason_name ER_ObjectStoreUnavailable = ''ERROR_REASON_OBJECT_STORE_UNAVAILABLE''"
| "reason_name ER_EpochRevoked = ''ERROR_REASON_EPOCH_REVOKED''"

definition status :: "grpc_code \<Rightarrow> string \<Rightarrow> Status" where
  "status code message = \<lparr>st_code = code, st_reason = None, st_message = message\<rparr>"

definition status_with_reason :: "grpc_code \<Rightarrow> error_reason \<Rightarrow> string \<Rightarrow> Status" where
  "status_with_reason code reason msg =
     \<lparr>st_code = code, st_reason = Some reason, st_message = reason_name reason @ '': '' @ msg\<rparr>"

definition internal_status :: "'s env \<Rightarrow> db_error \<Rightarrow> Status" where
  "internal_status E e = status GC_Internal (say E ''internal'' [A_Db e])"

section \<open>An instance as its proto\<close>

record pb_instance =
  pi_spec :: "instance_spec option"
  pi_state :: instance_state
  pi_ready :: bool
  pi_runtime :: string
  pi_created_at :: "timestamp option"
  pi_updated_at :: "timestamp option"
  pi_ttl_deadline :: "timestamp option"
  pi_latest_snapshot_id :: string
  pi_wake_at :: "timestamp option"
  pi_stop_reason :: "stop_reason option"
  pi_network :: "string option"
  pi_lineage :: "lineage option"
  pi_execution_epoch :: int

definition instance_row_to_proto :: "InstanceRow \<Rightarrow> pb_instance" where
  "instance_row_to_proto r =
     \<lparr>pi_spec = Some (ir_spec r), pi_state = ir_state r, pi_ready = ir_ready r, pi_runtime = ir_runtime r,
      pi_created_at = Some (ts (ir_created_at_ms r)), pi_updated_at = Some (ts (ir_updated_at_ms r)),
      pi_ttl_deadline = map_option ts (ir_ttl_deadline_ms r), pi_latest_snapshot_id = ir_latest_snapshot_id r,
      pi_wake_at = map_option ts (ir_wake_at_ms r), pi_stop_reason = ir_stop_reason r, pi_network = None,
      pi_lineage = ir_lineage r, pi_execution_epoch = ir_execution_epoch r\<rparr>"

definition instance_to_proto :: "'s env \<Rightarrow> InstanceRow \<Rightarrow> ('s, pb_instance) act" where
  "instance_to_proto E row =
     (let inst = instance_row_to_proto row in
      if ir_state row = I_Running
      then do {
        r \<leftarrow> await E (rt_workload_address (en_substrate E) (ir_id row));
        return (case r of Inr (Some address) \<Rightarrow> inst\<lparr>pi_network := Some address\<rparr> | _ \<Rightarrow> inst) }
      else return inst)"

section \<open>Page tokens\<close>

record codec =
  co_encode :: "string \<Rightarrow> string"
  co_decode :: "string \<Rightarrow> string option"
  co_encoded_len :: "pb_instance \<Rightarrow> nat"
  co_delimiter_len :: "nat \<Rightarrow> nat"

definition DEFAULT_INSTANCE_PAGE_SIZE :: nat where
  "DEFAULT_INSTANCE_PAGE_SIZE = 256"

definition MAX_INSTANCE_PAGE_SIZE :: nat where
  "MAX_INSTANCE_PAGE_SIZE = 256"

definition MAX_INSTANCE_PAGE_BYTES :: nat where
  "MAX_INSTANCE_PAGE_BYTES = 3 * 1024 * 1024"

definition MAX_INSTANCE_PAGE_TOKEN_BYTES :: nat where
  "MAX_INSTANCE_PAGE_TOKEN_BYTES = 256"

record InstancePageCursor =
  ic_cursor_created_at_ms :: ms
  ic_cursor_instance_id :: instance_id

text \<open>\<open>std::str::from_utf8\<close> on the bytes of a string.\<close>

definition continuation :: "nat \<Rightarrow> bool" where
  "continuation b \<longleftrightarrow> 128 \<le> b \<and> b < 192"

definition second_byte :: "nat \<Rightarrow> nat \<Rightarrow> bool" where
  "second_byte a b \<longleftrightarrow>
     (if a = 224 then 160 \<le> b \<and> b < 192
      else if a = 237 then 128 \<le> b \<and> b < 160
      else if a = 240 then 144 \<le> b \<and> b < 192
      else if a = 244 then 128 \<le> b \<and> b < 144
      else continuation b)"

fun utf8 :: "nat list \<Rightarrow> bool" where
  "utf8 [] \<longleftrightarrow> True"
| "utf8 (a # bs) \<longleftrightarrow>
     (if a < 128 then utf8 bs
      else if 194 \<le> a \<and> a < 224 then
        (case bs of b # rest \<Rightarrow> continuation b \<and> utf8 rest | _ \<Rightarrow> False)
      else if 224 \<le> a \<and> a < 240 then
        (case bs of b # c # rest \<Rightarrow> second_byte a b \<and> continuation c \<and> utf8 rest | _ \<Rightarrow> False)
      else if 240 \<le> a \<and> a < 245 then
        (case bs of b # c # d # rest \<Rightarrow> second_byte a b \<and> continuation c \<and> continuation d \<and> utf8 rest | _ \<Rightarrow> False)
      else False)"

text \<open>\<open>str::parse::<i64>\<close>: an optional sign, then digits, in range.\<close>

definition is_ascii_digit :: "char \<Rightarrow> bool" where
  "is_ascii_digit c \<longleftrightarrow> 48 \<le> (of_char c :: nat) \<and> of_char c < (58 :: nat)"

definition is_ascii_uppercase :: "char \<Rightarrow> bool" where
  "is_ascii_uppercase c \<longleftrightarrow> 65 \<le> (of_char c :: nat) \<and> of_char c < (91 :: nat)"

definition parse_i64 :: "string \<Rightarrow> int option" where
  "parse_i64 s =
     (let (negative, digits) = (case s of
            c # cs \<Rightarrow> if c = CHR ''-'' then (True, cs) else if c = CHR ''+'' then (False, cs) else (False, s)
          | [] \<Rightarrow> (False, s));
          n = (if negative then - int (undec digits) else int (undec digits))
      in if digits \<noteq> [] \<and> list_all is_ascii_digit digits \<and> in_i64 n then Some n else None)"

definition encode_instance_cursor :: "codec \<Rightarrow> InstanceRow \<Rightarrow> string" where
  "encode_instance_cursor C row = co_encode C (dec_i (ir_created_at_ms row) @ CHR 0x0A # ir_id row)"

definition decode_instance_cursor :: "codec \<Rightarrow> string \<Rightarrow> Status + InstancePageCursor option" where
  "decode_instance_cursor C token =
     (let refuse = (\<lambda>msg. Inl (status_with_reason GC_InvalidArgument ER_InvalidSpec msg)) in
      if token = [] then Inr None
      else if length token > MAX_INSTANCE_PAGE_TOKEN_BYTES
      then refuse ''ListInstances page_token exceeds its bound''
      else case co_decode C token of
        None \<Rightarrow> refuse ''ListInstances page_token is not valid URL-safe base64''
      | Some decoded \<Rightarrow>
          if \<not> utf8 (map of_char decoded) then refuse ''ListInstances page_token is not UTF-8''
          else case split_once (CHR 0x0A) decoded of
            None \<Rightarrow> refuse ''ListInstances page_token has an invalid structure''
          | Some (created, iid) \<Rightarrow>
              if length iid \<noteq> 26 \<or> \<not> list_all (\<lambda>b. is_ascii_uppercase b \<or> is_ascii_digit b) iid
              then refuse ''ListInstances page_token carries an invalid instance id''
              else case parse_i64 created of
                None \<Rightarrow> refuse ''ListInstances page_token carries an invalid creation time''
              | Some n \<Rightarrow> Inr (Some \<lparr>ic_cursor_created_at_ms = n, ic_cursor_instance_id = iid\<rparr>))"

definition encoded_repeated_instance_bytes :: "codec \<Rightarrow> pb_instance \<Rightarrow> nat" where
  "encoded_repeated_instance_bytes C inst =
     1 + co_delimiter_len C (co_encoded_len C inst) + co_encoded_len C inst"

section \<open>ListInstances\<close>

record ListInstancesRequest =
  lq_states :: "int list"
  lq_label_selector :: "(string \<times> string) list"
  lq_page_size :: nat
  lq_page_token :: string

record ListInstancesResponse =
  ls_instances :: "pb_instance list"
  ls_next_page_token :: string

fun instance_code :: "instance_state \<Rightarrow> int" where
  "instance_code I_Unspecified = 0"
| "instance_code I_Creating = 1"
| "instance_code I_Created = 2"
| "instance_code I_Starting = 3"
| "instance_code I_Running = 4"
| "instance_code I_Checkpointing = 5"
| "instance_code I_Pausing = 6"
| "instance_code I_Paused = 7"
| "instance_code I_Resuming = 8"
| "instance_code I_Stopping = 9"
| "instance_code I_Stopped = 10"
| "instance_code I_Destroying = 11"
| "instance_code I_Destroyed = 12"
| "instance_code I_Failed = 13"

definition instance_order :: "InstanceRow \<Rightarrow> ms \<times> instance_id" where
  "instance_order row = (ir_created_at_ms row, ir_id row)"

definition selected :: "ListInstancesRequest \<Rightarrow> InstanceRow \<Rightarrow> bool" where
  "selected r row \<longleftrightarrow>
     (lq_states r = [] \<or> instance_code (ir_state row) \<in> set (lq_states r))
   \<and> list_all (\<lambda>(k, v). sp_labels (ir_spec row) k = Some v) (lq_label_selector r)"

fun after_cursor :: "InstancePageCursor option \<Rightarrow> InstanceRow \<Rightarrow> bool" where
  "after_cursor None row \<longleftrightarrow> True"
| "after_cursor (Some c) row \<longleftrightarrow> (ic_cursor_created_at_ms c, ic_cursor_instance_id c) < instance_order row"

definition page_rows :: "ListInstancesRequest \<Rightarrow> InstancePageCursor option \<Rightarrow> InstanceRow list \<Rightarrow> InstanceRow list" where
  "page_rows r cursor rows = sort_key instance_order (filter (after_cursor cursor) (filter (selected r) rows))"

fun enrich_each :: "'s env \<Rightarrow> InstanceRow list \<Rightarrow> ('s, (InstanceRow \<times> pb_instance) list) act" where
  "enrich_each E [] = return []"
| "enrich_each E (row # rows) = do {
     inst \<leftarrow> instance_to_proto E row;
     rest \<leftarrow> enrich_each E rows;
     return ((row, inst) # rest) }"

fun fit_page ::
  "codec \<Rightarrow> (InstanceRow \<times> pb_instance) list \<Rightarrow> nat \<Rightarrow> pb_instance list \<Rightarrow> InstanceRow option
   \<Rightarrow> Status + pb_instance list \<times> InstanceRow option \<times> bool" where
  "fit_page C [] encoded_bytes chosen last_row = Inr (chosen, last_row, False)"
| "fit_page C ((row, inst) # rest) encoded_bytes chosen last_row =
     (let instance_bytes = encoded_repeated_instance_bytes C inst in
      if instance_bytes > MAX_INSTANCE_PAGE_BYTES \<and> chosen = []
      then Inl (status GC_ResourceExhausted ''one admitted instance exceeds the ListInstances response budget'')
      else if encoded_bytes + instance_bytes > MAX_INSTANCE_PAGE_BYTES
      then Inr (chosen, last_row, True)
      else fit_page C rest (encoded_bytes + instance_bytes) (chosen @ [inst]) (Some row))"

definition page_response ::
  "codec \<Rightarrow> bool \<Rightarrow> (InstanceRow \<times> pb_instance) list \<Rightarrow> Status + ListInstancesResponse" where
  "page_response C more_by_count enriched =
     (case fit_page C enriched 0 [] None of
        Inl st \<Rightarrow> Inl st
      | Inr (chosen, last_row, more_by_bytes) \<Rightarrow>
          if more_by_count \<or> more_by_bytes
          then (case last_row of
                  None \<Rightarrow> Inl (status GC_ResourceExhausted ''ListInstances could not fit one result'')
                | Some row \<Rightarrow> Inr \<lparr>ls_instances = chosen, ls_next_page_token = encode_instance_cursor C row\<rparr>)
          else Inr \<lparr>ls_instances = chosen, ls_next_page_token = []\<rparr>)"

definition rpc_list_instances ::
  "'s env \<Rightarrow> codec \<Rightarrow> ListInstancesRequest \<Rightarrow> ('s, Status + ListInstancesResponse) act" where
  "rpc_list_instances E C r =
     (let requested_size = (if lq_page_size r = 0 then DEFAULT_INSTANCE_PAGE_SIZE else lq_page_size r) in
      if requested_size > MAX_INSTANCE_PAGE_SIZE
      then return (Inl (status_with_reason GC_InvalidArgument ER_InvalidSpec
             ''ListInstances page_size must not exceed 256''))
      else case decode_instance_cursor C (lq_page_token r) of
        Inl st \<Rightarrow> return (Inl st)
      | Inr cursor \<Rightarrow> do {
          listed \<leftarrow> db_read E list_instances;
          case listed of
            Inl e \<Rightarrow> return (Inl (internal_status E e))
          | Inr listed \<Rightarrow> do {
              let rows = page_rows r cursor listed;
              enriched \<leftarrow> enrich_each E (take requested_size rows);
              return (page_response C (length rows > requested_size) enriched) } })"

text \<open>
  \<open>barista-cli/src/instances.rs\<close>, \<open>list_all\<close>: the client's loop over the pages.  Nothing
  in the loop bounds it, so it takes fuel; \<^const>\<open>None\<close> is having run out of it.
\<close>

definition inventory_request :: "string \<Rightarrow> ListInstancesRequest" where
  "inventory_request token = \<lparr>lq_states = [], lq_label_selector = [], lq_page_size = 256, lq_page_token = token\<rparr>"

fun list_all_from ::
  "'s env \<Rightarrow> codec \<Rightarrow> nat \<Rightarrow> string \<Rightarrow> pb_instance list \<Rightarrow> ('s, (Status + pb_instance list) option) act" where
  "list_all_from E C 0 token instances = return None"
| "list_all_from E C (Suc fuel) token instances = do {
     response \<leftarrow> rpc_list_instances E C (inventory_request token);
     case response of
       Inl st \<Rightarrow> return (Some (Inl st))
     | Inr p \<Rightarrow>
         if ls_next_page_token p = [] then return (Some (Inr (instances @ ls_instances p)))
         else list_all_from E C fuel (ls_next_page_token p) (instances @ ls_instances p) }"

definition list_all_instances :: "'s env \<Rightarrow> codec \<Rightarrow> nat \<Rightarrow> ('s, (Status + pb_instance list) option) act" where
  "list_all_instances E C fuel = list_all_from E C fuel [] []"

section \<open>A token names its row\<close>

text \<open>What the base64 crate documents: decoding inverts encoding, four characters for three bytes.\<close>

definition codec_ok :: "codec \<Rightarrow> bool" where
  "codec_ok C \<longleftrightarrow> (\<forall>s. co_decode C (co_encode C s) = Some s \<and> length (co_encode C s) = (4 * length s + 2) div 3)"

text \<open>The ids a token can carry: upper-case ULIDs.\<close>

definition pageable :: "InstanceRow \<Rightarrow> bool" where
  "pageable row \<longleftrightarrow> in_i64 (ir_created_at_ms row) \<and> length (ir_id row) = 26
     \<and> list_all (\<lambda>b. is_ascii_uppercase b \<or> is_ascii_digit b) (ir_id row)"

lemma utf8_ascii: "list_all (\<lambda>b. b < 128) bs \<Longrightarrow> utf8 bs"
  by (induction bs) auto

lemma length_dec: "n < 10 ^ k \<Longrightarrow> 0 < k \<Longrightarrow> length (dec n) \<le> k"
proof (induction n arbitrary: k rule: dec.induct)
  case (1 n)
  show ?case
  proof (cases "n < 10")
    case True
    thus ?thesis using 1 by (subst dec.simps) simp
  next
    case False
    obtain j where k: "k = Suc j" using 1(3) by (cases k) auto
    have "0 < j" using 1(2) False k by (cases j) auto
    moreover have "n div 10 < 10 ^ j" using 1(2) k by (auto intro: less_mult_imp_div_less simp: mult.commute)
    ultimately show ?thesis using 1(1) [OF False, of j] False k by (subst dec.simps) simp
  qed
qed

lemma length_dec_i: "in_i64 n \<Longrightarrow> length (dec_i n) \<le> 20"
proof -
  assume "in_i64 n"
  hence "nat n < 10 ^ 19" "nat (- n) < 10 ^ 19" by (auto simp: machine_defs)
  thus ?thesis using length_dec [of "nat n" 19] length_dec [of "nat (- n)" 19] by (simp add: dec_i_def)
qed

lemma dec_i_chars: "c \<in> set (dec_i n) \<Longrightarrow> c = CHR ''-'' \<or> is_ascii_digit c"
  using dec_digits by (auto simp: dec_i_def is_ascii_digit_def split: if_splits)

lemma dec_all_digits: "list_all is_ascii_digit (dec n)"
  using dec_digits by (auto simp: list_all_iff is_ascii_digit_def)

lemma parse_dec_i: "in_i64 n \<Longrightarrow> parse_i64 (dec_i n) = Some n"
proof -
  assume n: "in_i64 n"
  have sign: "dec m = c # cs \<Longrightarrow> c \<noteq> CHR ''-'' \<and> c \<noteq> CHR ''+''" for m c cs
    using dec_digits [of c m] by auto
  show ?thesis
  proof (cases "n < 0")
    case True
    thus ?thesis using n by (simp add: parse_i64_def dec_i_def dec_all_digits)
  next
    case False
    then obtain c cs where "dec (nat n) = c # cs" by (cases "dec (nat n)") simp_all
    with sign [OF this] False n dec_all_digits [of "nat n"] undec_dec [of "nat n"]
    show ?thesis by (simp add: parse_i64_def dec_i_def)
  qed
qed

lemma cursor_round_trip:
  assumes "codec_ok C" and "pageable row"
  shows "decode_instance_cursor C (encode_instance_cursor C row)
           = Inr (Some \<lparr>ic_cursor_created_at_ms = ir_created_at_ms row, ic_cursor_instance_id = ir_id row\<rparr>)"
    and "encode_instance_cursor C row \<noteq> []"
proof -
  let ?s = "dec_i (ir_created_at_ms row) @ CHR 0x0A # ir_id row"
  have len: "length (encode_instance_cursor C row) = (4 * length ?s + 2) div 3"
      and dec: "co_decode C (encode_instance_cursor C row) = Some ?s"
    using assms(1) by (simp_all add: codec_ok_def encode_instance_cursor_def)
  show some: "encode_instance_cursor C row \<noteq> []"
    using len by (auto simp: div_eq_0_iff)
  have "length ?s \<le> 47" using assms(2) length_dec_i by (simp add: pageable_def)
  hence short: "length (encode_instance_cursor C row) \<le> MAX_INSTANCE_PAGE_TOKEN_BYTES"
    by (simp add: len MAX_INSTANCE_PAGE_TOKEN_BYTES_def)
  have ascii: "list_all (\<lambda>b. b < (128 :: nat)) (map of_char ?s)"
    using assms(2) dec_i_chars
    by (fastforce simp: list_all_iff pageable_def is_ascii_digit_def is_ascii_uppercase_def)
  have "CHR 0x0A \<notin> set (dec_i (ir_created_at_ms row))"
    using dec_i_chars by (fastforce simp: is_ascii_digit_def)
  hence split: "split_once (CHR 0x0A) ?s = Some (dec_i (ir_created_at_ms row), ir_id row)"
    by (simp add: split_once_Some_iff)
  have n: "parse_i64 (dec_i (ir_created_at_ms row)) = Some (ir_created_at_ms row)"
    using assms(2) by (simp add: parse_dec_i pageable_def)
  show "decode_instance_cursor C (encode_instance_cursor C row)
      = Inr (Some \<lparr>ic_cursor_created_at_ms = ir_created_at_ms row, ic_cursor_instance_id = ir_id row\<rparr>)"
    using assms(2) some short utf8_ascii [OF ascii] unfolding decode_instance_cursor_def Let_def dec option.case split prod.case n
    by (simp add: pageable_def)
qed

section \<open>What one page holds\<close>

lemma page_rows_after:
  "page_rows r cursor rows = filter (after_cursor cursor) (page_rows r None rows)"
proof -
  have "after_cursor None = (\<lambda>_. True)" by auto
  thus ?thesis by (simp add: page_rows_def filter_sort)
qed

lemma rows_after_kth:
  assumes "sorted_wrt (\<lambda>a b. instance_order a < instance_order b) ys" and "k < length ys"
  shows "filter (\<lambda>y. instance_order (ys ! k) < instance_order y) ys = drop (Suc k) ys"
proof -
  have "\<not> instance_order (ys ! k) < instance_order y" if "y \<in> set (take (Suc k) ys)" for y
  proof -
    from that obtain i where "i \<le> k" "y = ys ! i" by (auto simp: in_set_conv_nth less_Suc_eq_le)
    thus ?thesis using assms sorted_wrt_nth_less [OF assms(1), of i k] by (cases "i = k") auto
  qed
  moreover have "instance_order (ys ! k) < instance_order y" if "y \<in> set (drop (Suc k) ys)" for y
  proof -
    from that obtain j where "j < length ys - Suc k" "y = ys ! (Suc k + j)" by (auto simp: in_set_conv_nth)
    thus ?thesis using sorted_wrt_nth_less [OF assms(1), of k "Suc k + j"] by simp
  qed
  ultimately have "filter (\<lambda>y. instance_order (ys ! k) < instance_order y) (take (Suc k) ys @ drop (Suc k) ys) = drop (Suc k) ys"
    unfolding filter_append by (simp add: filter_empty_conv)
  thus ?thesis by simp
qed

lemma page_rows_strict:
  assumes "distinct (map ir_id rows)"
  shows "sorted_wrt (\<lambda>a b. instance_order a < instance_order b) (page_rows r cursor rows)"
proof -
  let ?ys = "page_rows r cursor rows"
  have "distinct (map ir_id (filter P (filter Q rows)))" for P Q
    using assms by (simp add: distinct_map_filter)
  hence "distinct (map instance_order (filter (after_cursor cursor) (filter (selected r) rows)))"
    by (auto simp: distinct_map inj_on_def instance_order_def)
  hence "distinct (map instance_order ?ys)"
    unfolding page_rows_def by (simp add: distinct_map)
  moreover have "sorted (map instance_order ?ys)" by (simp add: page_rows_def)
  ultimately have "sorted_wrt (<) (map instance_order ?ys)" by (simp add: strict_sorted_iff)
  thus ?thesis by (simp add: sorted_wrt_map)
qed

text \<open>A proto shown for a row: the row's, with or without an address.\<close>

definition shows_row :: "InstanceRow \<Rightarrow> pb_instance \<Rightarrow> bool" where
  "shows_row row inst \<longleftrightarrow> (\<exists>network. inst = (instance_row_to_proto row)\<lparr>pi_network := network\<rparr>)"

definition fits :: "codec \<Rightarrow> InstanceRow \<Rightarrow> bool" where
  "fits C row \<longleftrightarrow> (\<forall>inst. shows_row row inst \<longrightarrow> encoded_repeated_instance_bytes C inst \<le> MAX_INSTANCE_PAGE_BYTES)"

lemma yields_instance_to_proto: "yields (instance_to_proto E row) (shows_row row)"
proof -
  have "shows_row row (instance_row_to_proto row)"
    unfolding shows_row_def by (rule exI [of _ None]) (simp add: instance_row_to_proto_def)
  moreover have "shows_row row ((instance_row_to_proto row)\<lparr>pi_network := n\<rparr>)" for n
    by (auto simp: shows_row_def)
  ultimately show ?thesis
    unfolding instance_to_proto_def Let_def
    by (intro yields_if yields_any yields_return) (auto split: sum.splits option.splits)
qed

lemma yields_enrich_each:
  "yields (enrich_each E rows) (\<lambda>enriched. map fst enriched = rows \<and> list_all (\<lambda>(row, inst). shows_row row inst) enriched)"
proof (induction rows)
  case (Cons row rows)
  show ?case
    unfolding enrich_each.simps
    by (rule yields_bind [OF yields_instance_to_proto], rule yields_bind [OF Cons.IH], rule yields_return) auto
qed (simp add: yields_return)

lemma fit_page_prefix:
  assumes "list_all (\<lambda>(row, inst). encoded_repeated_instance_bytes C inst \<le> MAX_INSTANCE_PAGE_BYTES) enriched"
  shows "\<exists>k \<le> length enriched. fit_page C enriched n chosen last_row =
     Inr (chosen @ map snd (take k enriched), if k = 0 then last_row else Some (fst (enriched ! (k - 1))), k < length enriched)
   \<and> (n = 0 \<and> enriched \<noteq> [] \<longrightarrow> 0 < k)"
  using assms
proof (induction enriched arbitrary: n chosen last_row)
  case (Cons e rest)
  obtain row inst where e: "e = (row, inst)" by fastforce
  let ?b = "encoded_repeated_instance_bytes C inst"
  have small: "?b \<le> MAX_INSTANCE_PAGE_BYTES" using Cons.prems e by simp
  show ?case
  proof (cases "n + ?b > MAX_INSTANCE_PAGE_BYTES")
    case True
    thus ?thesis using small e by (intro exI [of _ 0]) auto
  next
    case False
    from Cons.IH [of "n + ?b" "chosen @ [inst]" "Some row"] Cons.prems obtain k
      where "k \<le> length rest" "fit_page C rest (n + ?b) (chosen @ [inst]) (Some row) =
        Inr ((chosen @ [inst]) @ map snd (take k rest), if k = 0 then Some row else Some (fst (rest ! (k - 1))), k < length rest)"
      by auto
    thus ?thesis using small False e
      by (intro exI [of _ "Suc k"]) (auto simp: Let_def nth_Cons split: nat.split)
  qed
qed simp

text \<open>A page of the rows \<open>ys\<close>: some of them from the first on, and the token of the last if any remain.\<close>

definition page_of :: "codec \<Rightarrow> InstanceRow list \<Rightarrow> ListInstancesResponse \<Rightarrow> bool" where
  "page_of C ys p \<longleftrightarrow> (\<exists>k \<le> length ys. list_all2 shows_row (take k ys) (ls_instances p)
     \<and> (if k < length ys then 0 < k \<and> ls_next_page_token p = encode_instance_cursor C (ys ! (k - 1))
        else ls_next_page_token p = []))"

lemma list_all2_enriched:
  "list_all (\<lambda>(row, inst). shows_row row inst) enriched \<Longrightarrow> list_all2 shows_row (map fst enriched) (map snd enriched)"
  by (induction enriched) auto

lemma page_response_page_of:
  assumes "map fst enriched = take n ys" and "list_all (\<lambda>(row, inst). shows_row row inst) enriched"
    and "0 < n" and "list_all (fits C) ys"
  shows "\<exists>p. page_response C (n < length ys) enriched = Inr p \<and> page_of C ys p"
proof -
  have len: "length enriched = min n (length ys)"
    using arg_cong [OF assms(1), of length] by simp
  have "list_all (\<lambda>(row, inst). encoded_repeated_instance_bytes C inst \<le> MAX_INSTANCE_PAGE_BYTES) enriched"
  proof (clarsimp simp: list_all_iff)
    fix row inst
    assume "(row, inst) \<in> set enriched"
    moreover from this have "row \<in> set (take n ys)" unfolding assms(1) [symmetric] by force
    ultimately show "encoded_repeated_instance_bytes C inst \<le> MAX_INSTANCE_PAGE_BYTES"
      using assms(2,4) by (fastforce simp: list_all_iff fits_def dest: in_set_takeD)
  qed
  from fit_page_prefix [OF this, of 0 "[]" None] obtain k where k: "k \<le> length enriched"
      "fit_page C enriched 0 [] None = Inr (map snd (take k enriched), if k = 0 then None else Some (fst (enriched ! (k - 1))), k < length enriched)"
      "enriched \<noteq> [] \<longrightarrow> 0 < k"
    by auto
  have rows: "map fst (take k enriched) = take k ys"
    using k(1) len assms(1) by (simp add: take_map [symmetric])
  have shown: "list_all2 shows_row (take k ys) (map snd (take k enriched))"
    using list_all2_enriched [of "take k enriched"] assms(2) rows by (auto simp: list_all_iff dest: in_set_takeD)
  have last: "fst (enriched ! (k - 1)) = ys ! (k - 1)" if "0 < k"
  proof -
    have "k - 1 < length enriched" "k - 1 < n" using that k(1) len by auto
    thus ?thesis using arg_cong [OF assms(1), of "\<lambda>xs. xs ! (k - 1)"] by simp
  qed
  have more: "(n < length ys \<or> k < length enriched) = (k < length ys)"
    using k(1) len by auto
  have some: "k < length ys \<Longrightarrow> 0 < k"
    using k(3) assms(3) len by (cases enriched) auto
  show ?thesis
    using k(1,2) more some last shown len
    by (cases "k < length ys") (auto simp: page_response_def page_of_def intro!: exI [of _ k])
qed

section \<open>The pages together\<close>

lemma keeps_instance_to_proto: "undisturbed P E \<Longrightarrow> keeps P (instance_to_proto E row)"
  unfolding instance_to_proto_def Let_def by (intro keep_rules stable_await)

lemma keeps_enrich_each: "undisturbed P E \<Longrightarrow> keeps P (enrich_each E rows)"
  by (induction rows) (auto intro!: keep_rules keeps_instance_to_proto)

lemma triple_list_page:
  assumes "undisturbed (\<lambda>w. list_instances (w_db w) = rows) E" and "faultless E" and "\<forall>row \<in> set rows. fits C row"
    and "decode_instance_cursor C token = Inr cursor"
  shows "triple (\<lambda>w. list_instances (w_db w) = rows) (rpc_list_instances E C (inventory_request token))
    (\<lambda>r w. list_instances (w_db w) = rows
       \<and> (\<exists>p. r = Inr p \<and> page_of C (page_rows (inventory_request token) cursor rows) p))"
    (is "triple ?P _ _")
proof -
  let ?q = "inventory_request token" and ?ys = "page_rows (inventory_request token) cursor rows"
  have listed: "triple ?P (db_read E list_instances) (\<lambda>r w. ?P w \<and> r = Inr rows)"
    unfolding db_read_def by (rule triple_faultless_call [OF assms(1,2)]) auto
  have enriched: "triple ?P (enrich_each E (take 256 ?ys)) (\<lambda>e w. ?P w \<and> map fst e = take 256 ?ys
      \<and> list_all (\<lambda>(row, inst). shows_row row inst) e)"
    by (rule triple_yields [OF keeps_enrich_each [OF assms(1)] yields_enrich_each])
  have "list_all (fits C) ?ys" using assms(3) by (simp add: page_rows_def list_all_iff)
  hence answer: "\<exists>p. page_response C (256 < length ?ys) e = Inr p \<and> page_of C ?ys p"
    if "map fst e = take 256 ?ys" "list_all (\<lambda>(row, inst). shows_row row inst) e" for e
    using page_response_page_of that by fastforce
  have size: "lq_page_size ?q = 256" "lq_page_token ?q = token" by (simp_all add: inventory_request_def)
  have rest: "triple ?P (do { e \<leftarrow> enrich_each E (take 256 ?ys); return (page_response C (256 < length ?ys) e) })
      (\<lambda>r w. ?P w \<and> (\<exists>p. r = Inr p \<and> page_of C ?ys p))"
    by (rule triple_bind [OF enriched], rule triple_return) (use answer in blast)
  show ?thesis
    unfolding rpc_list_instances_def size assms(4) Let_def
    by (simp add: MAX_INSTANCE_PAGE_SIZE_def, rule triple_bind [OF listed], rule triple_assuming)
      (use rest in simp)
qed

lemma page_rows_token: "page_rows (inventory_request a) cursor rows = page_rows (inventory_request b) cursor rows"
  by (simp add: page_rows_def selected_def inventory_request_def)

text \<open>Where a walk over \<open>ys\<close> stands after \<open>k\<close> rows.\<close>

definition resumes :: "codec \<Rightarrow> InstanceRow list \<Rightarrow> nat \<Rightarrow> string \<Rightarrow> bool" where
  "resumes C ys k token \<longleftrightarrow> (if k = 0 then token = [] else token = encode_instance_cursor C (ys ! (k - 1)))"

lemma resumed_rows:
  assumes "codec_ok C" and "\<forall>row \<in> set rows. pageable row" and "distinct (map ir_id rows)"
    and "ys = page_rows (inventory_request []) None rows" and "resumes C ys k token" and "k \<le> length ys"
  shows "\<exists>cursor. decode_instance_cursor C token = Inr cursor \<and> page_rows (inventory_request token) cursor rows = drop k ys"
proof (cases k)
  case 0
  with assms(4,5) show ?thesis
    by (auto simp: resumes_def decode_instance_cursor_def intro!: exI [of _ None])
next
  case (Suc j)
  have mem: "ys ! j \<in> set rows"
    using assms(4,6) Suc nth_mem [of j ys] by (auto simp: page_rows_def)
  have "filter (after_cursor (Some \<lparr>ic_cursor_created_at_ms = ir_created_at_ms (ys ! j), ic_cursor_instance_id = ir_id (ys ! j)\<rparr>)) ys
      = filter (\<lambda>y. instance_order (ys ! j) < instance_order y) ys"
    by (rule filter_cong) (simp_all add: instance_order_def)
  also have "\<dots> = drop k ys"
    using rows_after_kth [of ys j] page_rows_strict [OF assms(3)] assms(4,6) Suc by simp
  finally have rows: "page_rows (inventory_request token) (Some \<lparr>ic_cursor_created_at_ms = ir_created_at_ms (ys ! j),
      ic_cursor_instance_id = ir_id (ys ! j)\<rparr>) rows = drop k ys"
    unfolding page_rows_token [of token _ _ "[]"] assms(4)
    by (subst page_rows_after) (simp only: assms(4) [symmetric])
  have "pageable (ys ! j)" "token = encode_instance_cursor C (ys ! j)"
    using assms(2,5) Suc mem by (auto simp: resumes_def)
  thus ?thesis using rows cursor_round_trip(1) [OF assms(1)] by blast
qed

lemma page_advances:
  assumes "page_of C (drop k ys) p" and "list_all2 shows_row (take k ys) acc" and "k \<le> length ys"
  shows "ls_next_page_token p = [] \<Longrightarrow> (\<And>row. row \<in> set ys \<Longrightarrow> encode_instance_cursor C row \<noteq> [])
           \<Longrightarrow> list_all2 shows_row ys (acc @ ls_instances p)"
    and "ls_next_page_token p \<noteq> [] \<Longrightarrow> \<exists>k' > k. k' \<le> length ys \<and> resumes C ys k' (ls_next_page_token p)
           \<and> list_all2 shows_row (take k' ys) (acc @ ls_instances p)"
proof -
  from assms(1) obtain n where n: "n \<le> length ys - k" "list_all2 shows_row (take n (drop k ys)) (ls_instances p)"
      "if n < length ys - k then 0 < n \<and> ls_next_page_token p = encode_instance_cursor C (drop k ys ! (n - 1))
       else ls_next_page_token p = []"
    unfolding page_of_def by auto
  have shown: "list_all2 shows_row (take (k + n) ys) (acc @ ls_instances p)"
    using list_all2_appendI [OF assms(2) n(2)] by (simp add: take_add)
  show "list_all2 shows_row ys (acc @ ls_instances p)"
    if "ls_next_page_token p = []" "\<And>row. row \<in> set ys \<Longrightarrow> encode_instance_cursor C row \<noteq> []"
  proof -
    have "\<not> n < length ys - k"
      using n(3) that nth_mem [of "k + (n - 1)" ys] by (auto split: if_splits)
    thus ?thesis using shown n(1) assms(3) by simp
  qed
  show "\<exists>k' > k. k' \<le> length ys \<and> resumes C ys k' (ls_next_page_token p)
           \<and> list_all2 shows_row (take k' ys) (acc @ ls_instances p)" if "ls_next_page_token p \<noteq> []"
    using n(1,3) that shown assms(3) by (intro exI [of _ "k + n"]) (auto simp: resumes_def split: if_splits)
qed

text \<open>
  C33: paging loses and repeats nothing.  While the instances stay as they are, the client's
  loop over \<open>ListInstances\<close> ends after at most as many pages as there are instances, one more
  when there are none, and has collected each instance exactly once, ordered by creation time
  and id, however the byte budget cuts the pages.  Every id must be an upper-case ULID, as
  a token can carry no other, and every instance must fit a page by itself.
\<close>

theorem inventory_is_complete:
  assumes "undisturbed (\<lambda>v. list_instances (w_db v) = list_instances (w_db w)) E" and "faultless E" and "codec_ok C"
    and "schema_ok (w_db w)" and "\<forall>row \<in> set (list_instances (w_db w)). pageable row \<and> fits C row"
    and "length (list_instances (w_db w)) < fuel"
  shows "\<exists>instances w'. run_state (list_all_instances E C fuel) w = (Some (Inr instances), w')
           \<and> list_all2 shows_row (sort_key instance_order (list_instances (w_db w))) instances"
proof -
  define rows where "rows = list_instances (w_db w)"
  define ys where "ys = page_rows (inventory_request []) None rows"
  have "after_cursor None = (\<lambda>_. True)" by auto
  hence sorted: "ys = sort_key instance_order rows"
    by (simp add: ys_def page_rows_def selected_def inventory_request_def)
  have ids: "distinct (map ir_id rows)" using listed_instances(1) [OF assms(4)] by (simp add: rows_def)
  have rows: "\<forall>row \<in> set rows. pageable row" "\<forall>row \<in> set rows. fits C row" using assms(5) by (simp_all add: rows_def)
  have token: "encode_instance_cursor C row \<noteq> []" if "row \<in> set ys" for row
    using cursor_round_trip(2) [OF assms(3)] rows that by (simp add: sorted)
  let ?P = "\<lambda>v. list_instances (w_db v) = rows"
  let ?Q = "\<lambda>r v. \<exists>instances. r = Some (Inr instances) \<and> list_all2 shows_row ys instances"
  have "triple ?P (list_all_from E C fuel token acc) ?Q"
    if "k \<le> length ys" "resumes C ys k token" "list_all2 shows_row (take k ys) acc" "length ys - k < fuel" for fuel token acc k
    using that
  proof (induction fuel arbitrary: token acc k)
    case (Suc fuel)
    obtain cursor where cursor: "decode_instance_cursor C token = Inr cursor"
        "page_rows (inventory_request token) cursor rows = drop k ys"
      using resumed_rows [OF assms(3) rows(1) ids ys_def Suc.prems(2,1)] by blast
    have next_page: "triple ?P (list_all_from E C fuel (ls_next_page_token p) (acc @ ls_instances p)) ?Q"
      if "page_of C (drop k ys) p" "ls_next_page_token p \<noteq> []" for p
      using page_advances(2) [OF that(1) Suc.prems(3,1) that(2)] Suc.prems(4) Suc.IH by auto
    have answer: "triple (\<lambda>v. ?P v \<and> (\<exists>p. r = Inr p \<and> page_of C (drop k ys) p))
        (case r of Inl st \<Rightarrow> return (Some (Inl st))
         | Inr p \<Rightarrow> if ls_next_page_token p = [] then return (Some (Inr (acc @ ls_instances p)))
                   else list_all_from E C fuel (ls_next_page_token p) (acc @ ls_instances p)) ?Q" for r
    proof (rule triple_assuming, elim exE conjE)
      fix p
      assume "r = Inr p" and page: "page_of C (drop k ys) p"
      thus "triple ?P (case r of Inl st \<Rightarrow> return (Some (Inl st))
         | Inr p \<Rightarrow> if ls_next_page_token p = [] then return (Some (Inr (acc @ ls_instances p)))
                   else list_all_from E C fuel (ls_next_page_token p) (acc @ ls_instances p)) ?Q"
        using next_page [OF page] page_advances(1) [OF page Suc.prems(3,1) _ token]
        by (cases "ls_next_page_token p = []") (simp_all add: triple_return)
    qed
    show ?case
      unfolding list_all_from.simps
      by (rule triple_bind [OF triple_list_page [OF assms(1) [folded rows_def] assms(2) rows(2) cursor(1), unfolded cursor(2)] answer])
  qed simp
  from this [of 0 "[]" "[]" fuel] assms(6) have "triple ?P (list_all_instances E C fuel) ?Q"
    by (simp add: list_all_instances_def resumes_def sorted rows_def)
  note collected = this
  obtain r w' where run: "run_state (list_all_instances E C fuel) w = (r, w')" by fastforce
  have "?Q r w'" by (rule tripleD [OF collected _ run]) (simp add: rows_def)
  thus ?thesis using run sorted by (auto simp: rows_def)
qed

text \<open>Two instances of which a page holds only one, and a codec of base64's lengths.\<close>

definition sample_codec :: codec where
  "sample_codec = \<lparr>co_encode = (\<lambda>s. s @ replicate ((4 * length s + 2) div 3 - length s) (CHR ''A'')),
     co_decode = (\<lambda>t. Some (take (3 * length t div 4) t)), co_encoded_len = (\<lambda>_. 2097152), co_delimiter_len = (\<lambda>_. 4)\<rparr>"

definition sample_listed :: journal where
  "sample_listed =
     (case insert_instance empty_journal (default_spec\<lparr>sp_instance_id := ''01BX5ZZKBKACTAV9WEVGEMMVRZ''\<rparr>) ''fake'' ''t'' 7 of
        Inr db \<Rightarrow> (case insert_instance db (default_spec\<lparr>sp_instance_id := ''01BX5ZZKBKACTAV9WEVGEMMVRA''\<rparr>) ''fake'' ''t'' 7 of
                     Inr db \<Rightarrow> db | Inl _ \<Rightarrow> db)
      | Inl _ \<Rightarrow> empty_journal)"

lemma sample_codec_ok: "codec_ok sample_codec"
proof -
  have "length s \<le> (4 * length s + 2) div 3 \<and> 3 * ((4 * length s + 2) div 3) div 4 = length s" for s :: string
    by presburger
  thus ?thesis by (simp add: codec_ok_def sample_codec_def)
qed

lemma sample_listed_ok: "schema_ok sample_listed"
  by (simp add: sample_listed_def insert_instance_def has_key_def empty_journal_def default_spec_def schema_ok_def
      unique_keys_def)

lemma sample_listed_rows:
  "length (list_instances sample_listed) = 2" "\<forall>row \<in> set (list_instances sample_listed). pageable row \<and> fits sample_codec row"
  by (simp_all add: sample_listed_def insert_instance_def has_key_def empty_journal_def default_spec_def list_instances_def
      instance_row_from_def pageable_def fits_def sample_codec_def encoded_repeated_instance_bytes_def
      MAX_INSTANCE_PAGE_BYTES_def machine_defs is_ascii_uppercase_def is_ascii_digit_def)

theorem inventory_is_complete_witness:
  "\<exists>instances w'. run_state (list_all_instances sample_env sample_codec 3) (sample_world sample_listed ()) = (Some (Inr instances), w')
    \<and> length instances = 2"
proof -
  have "undisturbed (\<lambda>v. list_instances (w_db v) = list_instances sample_listed) (sample_env :: unit env)"
      "faultless (sample_env :: unit env)"
    by (simp_all add: undisturbed_def faultless_def sample_env_def)
  then obtain instances w' where
      "run_state (list_all_instances sample_env sample_codec 3) (sample_world sample_listed ()) = (Some (Inr instances), w')"
      "list_all2 shows_row (sort_key instance_order (list_instances sample_listed)) instances"
    using inventory_is_complete [of "sample_world sample_listed ()" sample_env sample_codec 3]
      sample_codec_ok sample_listed_ok sample_listed_rows by (auto simp: sample_world_def)
  thus ?thesis using sample_listed_rows(1) by (auto dest: list_all2_lengthD)
qed

end
