(* ===== verification/Service_Rpc.thy ===== *)
theory Service_Rpc
  imports Service_Pages
begin

text \<open>
  \<open>service.rs\<close>, the verbs: how a request is validated, which operation it becomes, what a
  refusal is answered with, and the capsule operations, which the service journals itself.

  A request is the arguments of its verb.  \<open>Rsp\<close> is a \<open>Status\<close> or the response.
\<close>

section \<open>Statuses of errors\<close>

definition capsule_status :: "error_reason \<Rightarrow> string \<Rightarrow> Status" where
  "capsule_status reason message =
     (let code = (case reason of
            ER_InvalidSpec \<Rightarrow> GC_InvalidArgument
          | ER_CapsuleNotFound \<Rightarrow> GC_NotFound
          | ER_SubstrateUnavailable \<Rightarrow> GC_Unavailable
          | ER_ObjectStoreUnavailable \<Rightarrow> GC_Unavailable
          | _ \<Rightarrow> GC_FailedPrecondition)
      in status_with_reason code reason message)"

definition submit_error_to_status :: "'s env \<Rightarrow> SubmitError \<Rightarrow> Status" where
  "submit_error_to_status E e =
     (let code = (case se_reason e of
            ER_ConcurrentOperation \<Rightarrow> GC_FailedPrecondition
          | ER_CapabilityMissing \<Rightarrow> GC_FailedPrecondition
          | ER_InvalidSpec \<Rightarrow> GC_InvalidArgument
          | ER_TemplateNotFound \<Rightarrow> GC_NotFound
          | ER_CursorTooOld \<Rightarrow> GC_FailedPrecondition
          | ER_SnapshotInvalidated \<Rightarrow> GC_FailedPrecondition
          | ER_BundleMismatch \<Rightarrow> GC_FailedPrecondition
          | ER_CpuClassMismatch \<Rightarrow> GC_FailedPrecondition
          | ER_SubstrateUnavailable \<Rightarrow> GC_Unavailable
          | ER_SnapshotNameConflict \<Rightarrow> GC_AlreadyExists
          | _ \<Rightarrow> GC_Internal)
      in status_with_reason code (se_reason e) (en_text E (se_message e)))"

fun runtime_log_status :: "'s env \<Rightarrow> RuntimeError \<Rightarrow> Status" where
  "runtime_log_status E (RE_SubstrateUnavailable m) = status_with_reason GC_Unavailable ER_SubstrateUnavailable m"
| "runtime_log_status E (RE_CapabilityMissing m) = status_with_reason GC_FailedPrecondition ER_CapabilityMissing m"
| "runtime_log_status E other = status GC_Internal (say E ''application log stream failed'' [A_Runtime other])"

fun operation_state_name :: "operation_state \<Rightarrow> string" where
  "operation_state_name Op_Unspecified = ''OPERATION_STATE_UNSPECIFIED''"
| "operation_state_name Op_Queued = ''OPERATION_STATE_QUEUED''"
| "operation_state_name Op_Running = ''OPERATION_STATE_RUNNING''"
| "operation_state_name Op_Done = ''OPERATION_STATE_DONE''"
| "operation_state_name Op_Failed = ''OPERATION_STATE_FAILED''"
| "operation_state_name Op_AwaitingInput = ''OPERATION_STATE_AWAITING_INPUT''"
| "operation_state_name Op_Canceled = ''OPERATION_STATE_CANCELED''"

definition settled_refusal :: "'s env \<Rightarrow> op_id \<Rightarrow> operation_state \<Rightarrow> arg \<Rightarrow> Status" where
  "settled_refusal E oid st detail =
     status_with_reason GC_FailedPrecondition ER_InvalidSpec
       (say E ''operation has already settled and cannot be cancelled''
          [A_Text oid, A_Text (operation_state_name st), detail])"

definition not_found :: "'s env \<Rightarrow> string \<Rightarrow> string \<Rightarrow> Status" where
  "not_found E what name = status GC_NotFound (say E what [A_Text name])"

section \<open>Checks on values from the wire\<close>

definition is_ascii_lowercase :: "char \<Rightarrow> bool" where
  "is_ascii_lowercase c \<longleftrightarrow> 97 \<le> (of_char c :: nat) \<and> of_char c < (123 :: nat)"

definition is_legal_snapshot_name :: "string \<Rightarrow> bool" where
  "is_legal_snapshot_name name \<longleftrightarrow>
     length name \<le> 63 \<and> \<not> (name \<noteq> [] \<and> hd name = CHR ''-'') \<and> \<not> (name \<noteq> [] \<and> last name = CHR ''-'')
   \<and> list_all (\<lambda>c. is_ascii_lowercase c \<or> is_ascii_digit c \<or> c = CHR ''-'') name"

definition i64_checked :: "int \<Rightarrow> int option" where
  "i64_checked n = (if in_i64 n then Some n else None)"

definition timestamp_ms :: "timestamp \<Rightarrow> ms option" where
  "timestamp_ms at =
     (if \<not> (-62135596800 \<le> t_seconds at \<and> t_seconds at \<le> 253402300799)
         \<or> \<not> (0 \<le> t_nanos at \<and> t_nanos at < 1000000000)
      then None
      else case i64_checked (t_seconds at * 1000) of
        None \<Rightarrow> None
      | Some n \<Rightarrow> i64_checked (n + trunc_div (t_nanos at) 1000000))"

section \<open>Operations on instances\<close>

definition rpc_submit ::
  "'s env \<Rightarrow> OpKind \<Rightarrow> instance_id \<Rightarrow> idempotency_key \<Rightarrow> OpPayload \<Rightarrow> ('s, Status + pb_operation) act" where
  "rpc_submit E kind iid key payload = do {
     r \<leftarrow> submit E kind iid key payload;
     return (case r of Inl e \<Rightarrow> Inl (submit_error_to_status E e) | Inr op \<Rightarrow> Inr (op_to_proto op)) }"

definition create_instance ::
  "'s env \<Rightarrow> instance_spec option \<Rightarrow> bool \<Rightarrow> idempotency_key \<Rightarrow> ('s, Status + pb_operation) act" where
  "create_instance E spec require_hardware_isolation key =
     (case spec of
        None \<Rightarrow> return (Inl (status GC_InvalidArgument ''spec is required''))
      | Some spec \<Rightarrow>
          (case admit (en_is_ulid E) spec require_hardware_isolation (rt_capabilities (en_runtime E)) (rt_name (en_runtime E)) of
             Inl refusal \<Rightarrow>
               return (Inl (status_with_reason
                 (if rf_reason refusal = ER_InvalidSpec then GC_InvalidArgument else GC_FailedPrecondition)
                 (rf_reason refusal) (say E ''refused'' [A_Refusal (rf_why refusal)])))
           | Inr _ \<Rightarrow> rpc_submit E K_Create (sp_instance_id spec) key (P_Create spec)))"

definition start_instance :: "'s env \<Rightarrow> instance_id \<Rightarrow> idempotency_key \<Rightarrow> ('s, Status + pb_operation) act" where
  "start_instance E iid key = rpc_submit E K_Start iid key P_Start"

definition stop_instance :: "'s env \<Rightarrow> instance_id \<Rightarrow> idempotency_key \<Rightarrow> int \<Rightarrow> ('s, Status + pb_operation) act" where
  "stop_instance E iid key grace = rpc_submit E K_Stop iid key (P_Stop grace)"

definition destroy_instance :: "'s env \<Rightarrow> instance_id \<Rightarrow> idempotency_key \<Rightarrow> bool \<Rightarrow> ('s, Status + pb_operation) act" where
  "destroy_instance E iid key keep_snapshots = rpc_submit E K_Destroy iid key (P_Destroy keep_snapshots)"

definition pause_instance ::
  "'s env \<Rightarrow> instance_id \<Rightarrow> idempotency_key \<Rightarrow> bool option \<Rightarrow> bool \<Rightarrow> ('s, Status + pb_operation) act" where
  "pause_instance E iid key keep_memory requires =
     (let keep_memory = (case keep_memory of Some b \<Rightarrow> b | None \<Rightarrow> True);
          require_memory = (keep_memory \<and> requires)
      in if require_memory \<and> \<not> cap_memory_snapshot (rt_capabilities (en_runtime E))
         then return (Inl (status_with_reason GC_FailedPrecondition ER_CapabilityMissing
                (say E ''require_memory was set but the runtime cannot capture memory'' [A_Text (rt_name (en_runtime E))])))
         else rpc_submit E K_Pause iid key (P_Pause require_memory))"

datatype resume_target = T_InstanceId instance_id | T_SnapshotId snapshot_id

definition resume_instance ::
  "'s env \<Rightarrow> resume_target option \<Rightarrow> idempotency_key \<Rightarrow> bool \<Rightarrow> ('s, Status + pb_operation) act" where
  "resume_instance E target key require_memory =
     (case target of
        Some (T_InstanceId iid) \<Rightarrow> rpc_submit E K_Resume iid key (P_Resume None require_memory)
      | Some (T_SnapshotId sid) \<Rightarrow> do {
          r \<leftarrow> db_read E (\<lambda>db. get_snapshot db sid);
          case r of
            Inl e \<Rightarrow> return (Inl (internal_status E e))
          | Inr None \<Rightarrow> return (Inl (status_with_reason GC_NotFound ER_SnapshotInvalidated
                          (say E ''snapshot is not known to this node'' [A_Text sid])))
          | Inr (Some row) \<Rightarrow> rpc_submit E K_Resume (sr_instance_id row) key (P_Resume (Some sid) require_memory) }
      | None \<Rightarrow> return (Inl (status_with_reason GC_InvalidArgument ER_InvalidSpec
                  ''resume needs either instance_id or snapshot_id'')))"

definition checkpoint_instance :: "'s env \<Rightarrow> ('s, Status + pb_operation) act" where
  "checkpoint_instance E =
     (if \<not> cap_live_checkpoint (rt_capabilities (en_runtime E))
      then return (Inl (status_with_reason GC_FailedPrecondition ER_CapabilityMissing
             (say E ''the runtime cannot checkpoint a running instance'' [A_Text (rt_name (en_runtime E))])))
      else return (Inl (status GC_Unimplemented ''implemented in openspec change nap-005-hypeman-backend'')))"

definition wake_time :: "'s env \<Rightarrow> timestamp option \<Rightarrow> ('s, Status + ms option) act" where
  "wake_time E wake_at =
     (case wake_at of
        None \<Rightarrow> return (Inr None)
      | Some at \<Rightarrow>
          (case timestamp_ms at of
             None \<Rightarrow> return (Inl (status_with_reason GC_InvalidArgument ER_InvalidSpec
                       (say E ''wake_at is not a usable timestamp'' [A_Num (t_seconds at), A_Num (t_nanos at)])))
           | Some ms \<Rightarrow> do {
               now \<leftarrow> now_ms E;
               return (if ms \<le> now
                       then Inl (status_with_reason GC_InvalidArgument ER_InvalidSpec
                              (say E ''wake_at must be in the future'' [A_Num ms]))
                       else Inr (Some ms)) }))"

definition set_wake :: "'s env \<Rightarrow> instance_id \<Rightarrow> timestamp option \<Rightarrow> ('s, Status + pb_instance) act" where
  "set_wake E iid wake_at = do {
     r \<leftarrow> db_read E (\<lambda>db. get_instance db iid);
     case r of
       Inl e \<Rightarrow> return (Inl (internal_status E e))
     | Inr None \<Rightarrow> return (Inl (not_found E ''instance not found'' iid))
     | Inr (Some row) \<Rightarrow>
         if ir_state row = I_Destroyed
         then return (Inl (status_with_reason GC_FailedPrecondition ER_InvalidSpec
                (say E ''instance is DESTROYED, so a wake alarm on it could never fire'' [A_Text iid])))
         else do {
           wake \<leftarrow> wake_time E wake_at;
           case wake of
             Inl st \<Rightarrow> return (Inl st)
           | Inr wake_at_ms \<Rightarrow> do {
               r \<leftarrow> db_write E (\<lambda>now db. set_wake_at db iid wake_at_ms now);
               case r of
                 Inl e \<Rightarrow> return (Inl (internal_status E e))
               | Inr _ \<Rightarrow> do {
                   r \<leftarrow> db_read E (\<lambda>db. get_instance db iid);
                   return (case r of
                             Inl e \<Rightarrow> Inl (internal_status E e)
                           | Inr None \<Rightarrow> Inl (not_found E ''instance not found'' iid)
                           | Inr (Some row) \<Rightarrow> Inr (instance_row_to_proto row)) } } } }"

definition rpc_get_instance :: "'s env \<Rightarrow> instance_id \<Rightarrow> ('s, Status + pb_instance) act" where
  "rpc_get_instance E iid = do {
     r \<leftarrow> db_read E (\<lambda>db. get_instance db iid);
     case r of
       Inl e \<Rightarrow> return (Inl (internal_status E e))
     | Inr None \<Rightarrow> return (Inl (not_found E ''instance not found'' iid))
     | Inr (Some row) \<Rightarrow> do {
         inst \<leftarrow> instance_to_proto E row;
         return (Inr inst) } }"

section \<open>Snapshots\<close>

record pb_snapshot =
  ps_snapshot_id :: string
  ps_instance_id :: string
  ps_kind :: snapshot_kind
  ps_cpu_class :: string
  ps_template_hash :: string
  ps_runtime_bundle_ref :: string
  ps_tier :: snapshot_tier
  ps_size_bytes :: int
  ps_created_at :: "timestamp option"
  ps_pre_snapshot_hook :: "hook_outcome option"
  ps_name :: string

definition snapshot_to_proto :: "SnapshotRow \<Rightarrow> pb_snapshot" where
  "snapshot_to_proto r =
     \<lparr>ps_snapshot_id = sr_snapshot_id r, ps_instance_id = sr_instance_id r, ps_kind = sr_kind r,
      ps_cpu_class = sr_cpu_class r, ps_template_hash = sr_template_hash r,
      ps_runtime_bundle_ref = sr_runtime_bundle_ref r, ps_tier = sr_tier r, ps_size_bytes = sr_size_bytes r,
      ps_created_at = Some (ts (sr_created_at_ms r)), ps_pre_snapshot_hook = sr_pre_snapshot_hook r,
      ps_name = sr_name r\<rparr>"

definition rpc_list_snapshots :: "'s env \<Rightarrow> instance_id \<Rightarrow> ('s, Status + pb_snapshot list) act" where
  "rpc_list_snapshots E iid = do {
     r \<leftarrow> db_read E (\<lambda>db. list_snapshots db iid);
     return (case r of Inl e \<Rightarrow> Inl (internal_status E e) | Inr rows \<Rightarrow> Inr (map snapshot_to_proto rows)) }"

definition rpc_delete_snapshot ::
  "'s env \<Rightarrow> snapshot_id \<Rightarrow> idempotency_key \<Rightarrow> ('s, Status + pb_operation) act" where
  "rpc_delete_snapshot E sid key = do {
     r \<leftarrow> db_read E (\<lambda>db. get_snapshot db sid);
     case r of
       Inl e \<Rightarrow> return (Inl (internal_status E e))
     | Inr (Some row) \<Rightarrow> rpc_submit E K_DeleteSnapshot (sr_instance_id row) key (P_DeleteSnapshot sid)
     | Inr None \<Rightarrow> do {
         replay \<leftarrow> db_read E (\<lambda>db. find_op_by_idempotency_key db key);
         return (case replay of
                   Inl e \<Rightarrow> Inl (internal_status E e)
                 | Inr (Some op) \<Rightarrow>
                     if or_kind op = as_str K_DeleteSnapshot \<and> or_payload op = delete_snapshot_descriptor sid
                     then Inr (op_to_proto op)
                     else Inl (not_found E ''snapshot not found'' sid)
                 | Inr None \<Rightarrow> Inl (not_found E ''snapshot not found'' sid)) } }"

definition rpc_create_snapshot ::
  "'s env \<Rightarrow> instance_id \<Rightarrow> idempotency_key \<Rightarrow> string \<Rightarrow> ('s, Status + pb_operation) act" where
  "rpc_create_snapshot E iid key name =
     (if \<not> cap_memory_snapshot (rt_capabilities (en_runtime E))
      then return (Inl (status_with_reason GC_FailedPrecondition ER_CapabilityMissing
             (say E ''the runtime cannot capture memory'' [A_Text (rt_name (en_runtime E))])))
      else if name \<noteq> [] \<and> \<not> is_legal_snapshot_name name
      then return (Inl (status_with_reason GC_InvalidArgument ER_InvalidSpec
             (say E ''snapshot name is not usable'' [A_Text name])))
      else rpc_submit E K_CreateSnapshot iid key (P_CreateSnapshot (if name = [] then None else Some name)))"

section \<open>Forks and restores\<close>

record ForkInstanceRequest =
  fq_source_snapshot_id :: snapshot_id
  fq_target_instance_id :: instance_id
  fq_idempotency_key :: idempotency_key
  fq_require_cow :: bool
  fq_target_spec :: "instance_spec option"

definition restore_imported_capsule :: "'s env \<Rightarrow> ForkInstanceRequest \<Rightarrow> ('s, Status + pb_operation) act" where
  "restore_imported_capsule E r =
     (let refuse = (\<lambda>reason words. return (Inl (status_with_reason GC_FailedPrecondition reason (say E words []))));
          caps = rt_capabilities (en_runtime E)
      in case capsule_id_from_snapshot_id (fq_source_snapshot_id r) of
        None \<Rightarrow> return (Inl (status_with_reason GC_FailedPrecondition ER_InvalidSpec
                  (say E ''snapshot names no source instance and is not an imported capsule'' [A_Text (fq_source_snapshot_id r)])))
      | Some cid \<Rightarrow>
          if \<not> cap_capsule_import caps
          then refuse ER_CapabilityMissing ''this runtime cannot restore an imported capsule''
          else if \<not> cap_memory_snapshot caps
          then refuse ER_CapabilityMissing ''restoring a capsule reinstates exact memory''
          else if fq_require_cow r
          then refuse ER_ForkModeUnavailable ''require_cow cannot be honoured when restoring an imported capsule''
          else case fq_target_spec r of
            None \<Rightarrow> return (Inl (status_with_reason GC_InvalidArgument ER_InvalidSpec
                      (say E ''restoring a capsule needs target_spec'' [A_Text cid])))
          | Some target_spec \<Rightarrow> do {
              found \<leftarrow> db_read E (\<lambda>db. get_capsule db cid);
              case found of
                Inl e \<Rightarrow> return (Inl (internal_status E e))
              | Inr None \<Rightarrow> return (Inl (status_with_reason GC_NotFound ER_CapsuleIncompatible
                              (say E ''capsule is not registered on this node'' [A_Text cid])))
              | Inr (Some capsule) \<Rightarrow>
                  (case decide_capsule (en_sha E) (cr_manifest capsule) target_spec (en_cpu_class E) (rt_version (en_runtime E)) of
                     CapsuleRefuse reason why \<Rightarrow>
                       return (Inl (status_with_reason GC_FailedPrecondition reason
                         (say E ''capsule cannot be restored here'' [A_Text cid, A_Capsule why])))
                   | Proceed \<Rightarrow>
                       (let lin = (if mf_lineage_id (cr_manifest capsule) = [] then fq_target_instance_id r
                                   else mf_lineage_id (cr_manifest capsule))
                        in rpc_submit E K_Fork (fq_target_instance_id r) (fq_idempotency_key r)
                             (P_RestoreCapsule (target_spec\<lparr>sp_instance_id := fq_target_instance_id r\<rparr>) cid
                                (fq_source_snapshot_id r)
                                \<lparr>ln_lineage_id = lin, ln_source_snapshot_id = fq_source_snapshot_id r,
                                 ln_source_capsule_id = cid, ln_parent_instance_id = []\<rparr>))) })"

definition fork_lineage :: "InstanceRow \<Rightarrow> instance_id \<Rightarrow> string" where
  "fork_lineage row source =
     (case ir_lineage row of
        Some l \<Rightarrow> if ln_lineage_id l = [] then source else ln_lineage_id l
      | None \<Rightarrow> source)"

definition fork_instance :: "'s env \<Rightarrow> ForkInstanceRequest \<Rightarrow> ('s, Status + pb_operation) act" where
  "fork_instance E r =
     (let sid = fq_source_snapshot_id r; target = fq_target_instance_id r; caps = rt_capabilities (en_runtime E) in
      if target = [] then return (Inl (status GC_InvalidArgument ''target_instance_id is required''))
      else if sid = [] then return (Inl (status GC_InvalidArgument ''source_snapshot_id is required''))
      else do {
        found \<leftarrow> db_read E (\<lambda>db. get_snapshot db sid);
        case found of
          Inl e \<Rightarrow> return (Inl (status GC_Internal (say E ''reading snapshot'' [A_Text sid, A_Db e])))
        | Inr None \<Rightarrow> return (Inl (status_with_reason GC_NotFound ER_InvalidSpec
                        (say E ''no snapshot is registered on this node to fork'' [A_Text sid])))
        | Inr (Some snapshot) \<Rightarrow>
            if sr_instance_id snapshot = [] then restore_imported_capsule E r
            else if fq_require_cow r \<and> \<not> cap_cow_fork caps
            then return (Inl (status_with_reason GC_FailedPrecondition ER_ForkModeUnavailable
                   (say E ''require_cow was set but this runtime has no copy-on-write fork'' [])))
            else if \<not> cap_cow_fork caps \<and> \<not> cap_full_copy_fork caps
            then return (Inl (status_with_reason GC_FailedPrecondition ER_ForkModeUnavailable
                   (say E ''this runtime cannot fork an instance'' [])))
            else do {
              source \<leftarrow> db_read E (\<lambda>db. get_instance db (sr_instance_id snapshot));
              case source of
                Inl e \<Rightarrow> return (Inl (status GC_Internal (say E ''reading source'' [A_Text (sr_instance_id snapshot), A_Db e])))
              | Inr None \<Rightarrow> return (Inl (status_with_reason GC_NotFound ER_InvalidSpec
                              (say E ''the source no longer exists on this node'' [A_Text sid, A_Text (sr_instance_id snapshot)])))
              | Inr (Some row) \<Rightarrow>
                  rpc_submit E K_Fork target (fq_idempotency_key r)
                    (P_Fork ((ir_spec row)\<lparr>sp_instance_id := target\<rparr>) (sr_instance_id snapshot) sid
                       \<lparr>ln_lineage_id = fork_lineage row (sr_instance_id snapshot), ln_source_snapshot_id = sid,
                        ln_source_capsule_id = [], ln_parent_instance_id = sr_instance_id snapshot\<rparr>
                       (fq_require_cow r) (ir_guest_token row) (ir_identity row)) } })"

section \<open>Capsule operations\<close>

definition capsule_op_to_proto :: "CapsuleOpRow \<Rightarrow> pb_operation" where
  "capsule_op_to_proto r =
     \<lparr>po_op_id = pr_op_id r, po_kind = pr_kind r, po_instance_id = [], po_state = pr_state r, po_current_step = [],
      po_error = (if pr_state r = Op_Failed
                  then Some \<lparr>ed_reason = pr_error_reason r, ed_message = pr_error_message r\<rparr> else None),
      po_degraded = [], po_created_at = ts (pr_created_at_ms r), po_finished_at = map_option ts (pr_finished_at_ms r),
      po_froze_workload = False, po_actual_fork_mode = FM_Unspecified, po_capsule_id = pr_capsule_id r\<rparr>"

datatype CapsuleSubmission = CapsuleStarted CapsuleOpRow | CapsuleReplayed pb_operation

definition rpc_begin_capsule_op ::
  "'s env \<Rightarrow> string \<Rightarrow> string \<Rightarrow> idempotency_key \<Rightarrow> ('s, Status + CapsuleSubmission) act" where
  "rpc_begin_capsule_op E kind request key = do {
     oid \<leftarrow> extern (en_ulid E);
     r \<leftarrow> db_call E (\<lambda>now db. begin_capsule_op db oid kind request key now);
     return (case r of
               Inl e \<Rightarrow> Inl (internal_status E e)
             | Inr (Started row) \<Rightarrow> Inr (CapsuleStarted row)
             | Inr (CapsuleReplay row) \<Rightarrow>
                 if pr_state row = Op_Failed then Inl (capsule_status (pr_error_reason row) (pr_error_message row))
                 else Inr (CapsuleReplayed (capsule_op_to_proto row))
             | Inr (Mismatch original) \<Rightarrow>
                 Inl (status_with_reason GC_InvalidArgument ER_InvalidSpec
                   (say E ''idempotency key was already used with a different request'' [A_Text (pr_kind original)]))) }"

text \<open>What a spawned future does: it returns, or it unwinds with a message.\<close>

datatype 'a unwound = Panicked string | Returned 'a

fun storage_name :: "capsule_storage \<Rightarrow> string" where
  "storage_name CS_Unspecified = ''CAPSULE_STORAGE_UNSPECIFIED''"
| "storage_name CS_LocalDir = ''CAPSULE_STORAGE_LOCAL_DIR''"
| "storage_name CS_ObjectStore = ''CAPSULE_STORAGE_OBJECT_STORE''"

definition announce_capsule :: "'s env \<Rightarrow> string \<Rightarrow> op_id \<Rightarrow> pb_capsule \<Rightarrow> ('s, unit) act" where
  "announce_capsule E kind oid c =
     (let subject = [A_Text (pk_capsule_id c),
            A_Num (case pk_manifest c of Some m \<Rightarrow> int (length (mf_objects m)) | None \<Rightarrow> 0),
            A_Num (pk_total_size_bytes c), A_Text (storage_name (pk_storage c))]
      in if kind = ''export_capsule'' then record_event E (capsule_exported [] oid (say E ''exported capsule'' subject))
         else if kind = ''import_capsule''
         then record_event E (capsule_imported [] oid (say E ''verified and registered capsule'' subject))
         else return ())"

definition rpc_finish_capsule_op ::
  "'s env \<Rightarrow> CapsuleOpRow \<Rightarrow> CapsuleError + pb_capsule \<Rightarrow> ('s, Status + pb_operation) act" where
  "rpc_finish_capsule_op E row outcome =
     (case outcome of
        Inl (reason, message) \<Rightarrow> do {
          r \<leftarrow> db_call E (\<lambda>now db. finish_capsule_op db (pr_op_id row) [] Op_Failed reason message now);
          return (case r of Inl e \<Rightarrow> Inl (internal_status E e) | Inr _ \<Rightarrow> Inl (capsule_status reason message)) }
      | Inr capsule \<Rightarrow> do {
          r \<leftarrow> db_call E (\<lambda>now db. finish_capsule_op db (pr_op_id row) (pk_capsule_id capsule) Op_Done ER_Unspecified [] now);
          case r of
            Inl e \<Rightarrow> return (Inl (internal_status E e))
          | Inr recorded \<Rightarrow> do {
              announce_capsule E (pr_kind row) (pr_op_id recorded) capsule;
              return (Inr (capsule_op_to_proto recorded)) } })"

definition run_capsule_op ::
  "'s env \<Rightarrow> CapsuleOpRow \<Rightarrow> ('s, (CapsuleError + pb_capsule) unwound) act \<Rightarrow> ('s, Status + pb_operation) act" where
  "run_capsule_op E row work = do {
     outcome \<leftarrow> work;
     case outcome of
       Returned outcome \<Rightarrow> rpc_finish_capsule_op E row outcome
     | Panicked p \<Rightarrow> do {
         let message = say E ''the task panicked'' [A_Text (pr_kind row), A_Text p];
         r \<leftarrow> db_call E (\<lambda>now db. finish_capsule_op db (pr_op_id row) [] Op_Failed ER_Unspecified message now);
         return (case r of Inl e \<Rightarrow> Inl (internal_status E e) | Inr _ \<Rightarrow> Inl (capsule_status ER_Unspecified message)) } }"

definition returned :: "('s, 'a) act \<Rightarrow> ('s, 'a unwound) act" where
  "returned m = do { a \<leftarrow> m; return (Returned a) }"

text \<open>\<open>CapsuleStorage::try_from(i).unwrap_or(LocalDir)\<close>, and the discriminant back.\<close>

definition storage_of :: "int \<Rightarrow> capsule_storage" where
  "storage_of i = (if i = 0 then CS_Unspecified else if i = 2 then CS_ObjectStore else CS_LocalDir)"

fun storage_code :: "capsule_storage \<Rightarrow> int" where
  "storage_code CS_Unspecified = 0"
| "storage_code CS_LocalDir = 1"
| "storage_code CS_ObjectStore = 2"

definition export_request :: "snapshot_id \<Rightarrow> capsule_storage \<Rightarrow> string" where
  "export_request sid tier = dec (length sid) @ '':'' @ sid @ '':'' @ dec_i (storage_code tier)"

definition import_request :: "'s env \<Rightarrow> capsule_manifest \<Rightarrow> capsule_storage \<Rightarrow> string" where
  "import_request E m storage = capsule_id (en_sha E) m @ '':'' @ dec_i (storage_code storage)"

definition delete_request :: "string \<Rightarrow> string" where
  "delete_request cid = dec (length cid) @ '':'' @ cid"

definition capsule_verb ::
  "'s env \<Rightarrow> string \<Rightarrow> string \<Rightarrow> idempotency_key \<Rightarrow> ('s, CapsuleError + pb_capsule) act \<Rightarrow> ('s, Status + pb_operation) act" where
  "capsule_verb E kind request key work = do {
     begun \<leftarrow> rpc_begin_capsule_op E kind request key;
     case begun of
       Inl st \<Rightarrow> return (Inl st)
     | Inr (CapsuleReplayed op) \<Rightarrow> return (Inr op)
     | Inr (CapsuleStarted row) \<Rightarrow> run_capsule_op E row (returned work) }"

definition key_required :: Status where
  "key_required = status GC_InvalidArgument ''idempotency_key is required''"

definition rpc_export_capsule ::
  "'s env \<Rightarrow> snapshot_id \<Rightarrow> int \<Rightarrow> idempotency_key \<Rightarrow> ('s, Status + pb_operation) act" where
  "rpc_export_capsule E sid tier key =
     (if key = [] then return (Inl key_required)
      else let tier = storage_of tier
           in capsule_verb E ''export_capsule'' (export_request sid tier) key (export_capsule E sid tier))"

definition rpc_import_capsule ::
  "'s env \<Rightarrow> capsule_manifest option \<Rightarrow> int \<Rightarrow> idempotency_key \<Rightarrow> ('s, Status + pb_operation) act" where
  "rpc_import_capsule E manifest storage key =
     (if key = [] then return (Inl key_required)
      else case manifest of
        None \<Rightarrow> return (Inl (status GC_InvalidArgument ''manifest is required''))
      | Some m \<Rightarrow>
          let storage = storage_of storage
          in capsule_verb E ''import_capsule'' (import_request E m storage) key (import_capsule E m storage))"

definition delete_and_collect :: "'s env \<Rightarrow> string \<Rightarrow> ('s, CapsuleError + pb_capsule) act" where
  "delete_and_collect E cid = do {
     r \<leftarrow> db_write E (\<lambda>_ db. delete_capsule db cid);
     case r of
       Inl e \<Rightarrow> return (Inl (ER_Unspecified, say E ''deleting capsule'' [A_Db e]))
     | Inr _ \<Rightarrow> do {
         _ \<leftarrow> run_gc E;
         return (Inr \<lparr>pk_capsule_id = cid, pk_manifest = None, pk_storage = CS_Unspecified,
                      pk_total_size_bytes = 0, pk_created_at = None\<rparr>) } }"

definition rpc_delete_capsule :: "'s env \<Rightarrow> string \<Rightarrow> idempotency_key \<Rightarrow> ('s, Status + pb_operation) act" where
  "rpc_delete_capsule E cid key =
     (if key = [] then return (Inl key_required)
      else if cid = [] then return (Inl (status GC_InvalidArgument ''capsule_id is required''))
      else capsule_verb E ''delete_capsule'' (delete_request cid) key (delete_and_collect E cid))"

definition rpc_get_capsule :: "'s env \<Rightarrow> string \<Rightarrow> ('s, Status + pb_capsule) act" where
  "rpc_get_capsule E cid = do {
     r \<leftarrow> db_read E (\<lambda>db. get_capsule db cid);
     return (case r of
               Inl e \<Rightarrow> Inl (internal_status E e)
             | Inr None \<Rightarrow> Inl (status_with_reason GC_NotFound ER_CapsuleNotFound
                             (say E ''no capsule is registered on this node'' [A_Text cid]))
             | Inr (Some row) \<Rightarrow> Inr (capsule_to_proto row)) }"

definition rpc_list_capsules :: "'s env \<Rightarrow> string \<Rightarrow> ('s, Status + pb_capsule list) act" where
  "rpc_list_capsules E lineage_id = do {
     r \<leftarrow> db_read E (\<lambda>db. list_capsules db lineage_id);
     return (case r of Inl e \<Rightarrow> Inl (internal_status E e) | Inr rows \<Rightarrow> Inr (map capsule_to_proto rows)) }"

section \<open>Operations\<close>

definition rpc_get_operation :: "'s env \<Rightarrow> op_id \<Rightarrow> ('s, Status + pb_operation) act" where
  "rpc_get_operation E oid = do {
     r \<leftarrow> db_read E (\<lambda>db. get_operation db oid);
     case r of
       Inl e \<Rightarrow> return (Inl (internal_status E e))
     | Inr (Some op) \<Rightarrow> return (Inr (op_to_proto op))
     | Inr None \<Rightarrow> do {
         r \<leftarrow> db_read E (\<lambda>db. get_capsule_op db oid);
         return (case r of
                   Inl e \<Rightarrow> Inl (internal_status E e)
                 | Inr (Some op) \<Rightarrow> Inr (capsule_op_to_proto op)
                 | Inr None \<Rightarrow> Inl (not_found E ''operation not found'' oid)) } }"

definition cancel_capsule_refusal :: "'s env \<Rightarrow> op_id \<Rightarrow> ('s, Status) act" where
  "cancel_capsule_refusal E oid = do {
     r \<leftarrow> db_read E (\<lambda>db. get_capsule_op db oid);
     return (case r of
               Inl e \<Rightarrow> internal_status E e
             | Inr (Some op) \<Rightarrow>
                 if op_is_settled (pr_state op)
                 then settled_refusal E oid (pr_state op) (A_Text ''a capsule operation settles exactly once'')
                 else status_with_reason GC_FailedPrecondition ER_InvalidSpec
                        (say E ''capsule operations hold no cancellation channel'' [A_Text oid])
             | Inr None \<Rightarrow> not_found E ''operation not found'' oid) }"

definition rpc_cancel_operation :: "'s env \<Rightarrow> op_id \<Rightarrow> string \<Rightarrow> ('s, Status + pb_operation) act" where
  "rpc_cancel_operation E oid reason = do {
     r \<leftarrow> db_read E (\<lambda>db. get_operation db oid);
     case r of
       Inl e \<Rightarrow> return (Inl (internal_status E e))
     | Inr None \<Rightarrow> do { st \<leftarrow> cancel_capsule_refusal E oid; return (Inl st) }
     | Inr (Some op) \<Rightarrow> do {
         canceled \<leftarrow> cancel E op reason;
         after \<leftarrow> db_read E (\<lambda>db. get_operation db oid);
         return (case (canceled, after) of
                   (_, Inl e) \<Rightarrow> Inl (internal_status E e)
                 | (Inl refused, Inr (Some row)) \<Rightarrow>
                     if op_is_settled (or_state row) then Inl (settled_refusal E oid (or_state row) (A_Db refused))
                     else Inl (internal_status E refused)
                 | (Inl refused, Inr None) \<Rightarrow> Inl (internal_status E refused)
                 | (Inr _, Inr (Some row)) \<Rightarrow> Inr (op_to_proto row)
                 | (Inr _, Inr None) \<Rightarrow>
                     Inl (status GC_Internal (say E ''operation vanished after cancel'' [A_Text oid]))) } }"

section \<open>The node and its logs\<close>

record HeldLeaseInfo =
  hi_name :: string
  hi_epoch :: int
  hi_instance_id :: instance_id

record FleetInfo =
  fi_bucket :: string
  fi_advertise :: string
  fi_held :: "HeldLeaseInfo list"

definition fleet_info :: "'s env \<Rightarrow> ('s, FleetInfo option) act" where
  "fleet_info E = do {
     others E;
     gets (\<lambda>w. map_option (\<lambda>F.
       \<lparr>fi_bucket = ft_bucket F, fi_advertise = ft_advertise F,
        fi_held = map (\<lambda>(name, h). \<lparr>hi_name = name, hi_epoch = ls_epoch (held_lease_of h),
                                     hi_instance_id = ls_instance_id (held_lease_of h)\<rparr>) (ft_held F)\<rparr>) (w_fleet w)) }"

record RuntimeInfo =
  ri_name :: string
  ri_capabilities :: "capabilities option"
  ri_version :: string
  ri_health :: SubstrateHealth
  ri_health_detail :: string

record NodeInfo =
  ni_node_id :: string
  ni_arch :: string
  ni_cpu_class :: string
  ni_runtimes :: "RuntimeInfo list"
  ni_total_resources :: "resources option"
  ni_allocatable_resources :: "resources option"
  ni_agent_version :: string
  ni_fleet :: "FleetInfo option"

definition get_node_info :: "'s env \<Rightarrow> ('s, NodeInfo) act" where
  "get_node_info E = do {
     let vcpu = (case en_parallelism E of Some n \<Rightarrow> n | None \<Rightarrow> 1);
     (health, health_detail) \<leftarrow> await E (rt_substrate_health (en_substrate E));
     fleet \<leftarrow> fleet_info E;
     return \<lparr>ni_node_id = en_node_id E, ni_arch = en_arch E, ni_cpu_class = en_cpu_class E,
       ni_runtimes = [\<lparr>ri_name = rt_name (en_runtime E),
         ri_capabilities = Some ((rt_capabilities (en_runtime E))\<lparr>cap_object_store_snapshots := has_remote E\<rparr>),
         ri_version = rt_version (en_runtime E), ri_health = health, ri_health_detail = health_detail\<rparr>],
       ni_total_resources = Some \<lparr>res_vcpu = vcpu, res_mem_mib = 0, res_disk_mib = 0\<rparr>,
       ni_allocatable_resources = None, ni_agent_version = en_agent_version E, ni_fleet = fleet\<rparr> }"

definition MAX_APPLICATION_LOG_ENTRY_BYTES :: nat where
  "MAX_APPLICATION_LOG_ENTRY_BYTES = 256 * 1024"

definition log_item :: "'s env \<Rightarrow> RuntimeError + string \<Rightarrow> Status + string" where
  "log_item E item =
     (case item of
        Inr data \<Rightarrow> if length data \<le> MAX_APPLICATION_LOG_ENTRY_BYTES then Inr data
                    else Inl (status GC_ResourceExhausted ''application log entry exceeded 256 KiB'')
      | Inl e \<Rightarrow> Inl (runtime_log_status E e))"

definition watch_logs :: "'s env \<Rightarrow> instance_id \<Rightarrow> int \<Rightarrow> bool \<Rightarrow> ('s, Status + (Status + string) list) act" where
  "watch_logs E iid tail follow =
     (let tail = (if tail = 0 then 100 else tail) in
      if tail > 1000
      then return (Inl (status_with_reason GC_InvalidArgument ER_InvalidSpec ''application log tail must be between 1 and 1000''))
      else do {
        r \<leftarrow> db_read E (\<lambda>db. get_instance db iid);
        case r of
          Inl e \<Rightarrow> return (Inl (internal_status E e))
        | Inr None \<Rightarrow> return (Inl (not_found E ''instance not found'' iid))
        | Inr (Some _) \<Rightarrow> do {
            stream \<leftarrow> await E (rt_application_logs (en_substrate E) iid tail follow);
            return (case stream of Inl e \<Rightarrow> Inl (runtime_log_status E e) | Inr items \<Rightarrow> Inr (map (log_item E) items)) } })"

section \<open>The verbs answered with an operation\<close>

datatype request =
    Q_Create "instance_spec option" bool idempotency_key
  | Q_Start instance_id idempotency_key
  | Q_Stop instance_id idempotency_key int
  | Q_Destroy instance_id idempotency_key bool
  | Q_Pause instance_id idempotency_key "bool option" bool
  | Q_Resume "resume_target option" idempotency_key bool
  | Q_Checkpoint
  | Q_CreateSnapshot instance_id idempotency_key string
  | Q_DeleteSnapshot snapshot_id idempotency_key
  | Q_Fork ForkInstanceRequest
  | Q_Export snapshot_id int idempotency_key
  | Q_Import "capsule_manifest option" int idempotency_key
  | Q_DeleteCapsule string idempotency_key
  | Q_GetOperation op_id
  | Q_Cancel op_id string

fun serve :: "'s env \<Rightarrow> request \<Rightarrow> ('s, Status + pb_operation) act" where
  "serve E (Q_Create spec isolated key) = create_instance E spec isolated key"
| "serve E (Q_Start iid key) = start_instance E iid key"
| "serve E (Q_Stop iid key grace) = stop_instance E iid key grace"
| "serve E (Q_Destroy iid key keep) = destroy_instance E iid key keep"
| "serve E (Q_Pause iid key keep requires) = pause_instance E iid key keep requires"
| "serve E (Q_Resume target key requires) = resume_instance E target key requires"
| "serve E Q_Checkpoint = checkpoint_instance E"
| "serve E (Q_CreateSnapshot iid key name) = rpc_create_snapshot E iid key name"
| "serve E (Q_DeleteSnapshot sid key) = rpc_delete_snapshot E sid key"
| "serve E (Q_Fork r) = fork_instance E r"
| "serve E (Q_Export sid tier key) = rpc_export_capsule E sid tier key"
| "serve E (Q_Import m storage key) = rpc_import_capsule E m storage key"
| "serve E (Q_DeleteCapsule cid key) = rpc_delete_capsule E cid key"
| "serve E (Q_GetOperation oid) = rpc_get_operation E oid"
| "serve E (Q_Cancel oid reason) = rpc_cancel_operation E oid reason"

fun is_capsule_verb :: "request \<Rightarrow> bool" where
  "is_capsule_verb (Q_Export _ _ _) \<longleftrightarrow> True"
| "is_capsule_verb (Q_Import _ _ _) \<longleftrightarrow> True"
| "is_capsule_verb (Q_DeleteCapsule _ _) \<longleftrightarrow> True"
| "is_capsule_verb _ \<longleftrightarrow> False"

fun is_lifecycle_verb :: "request \<Rightarrow> bool" where
  "is_lifecycle_verb (Q_GetOperation _) \<longleftrightarrow> False"
| "is_lifecycle_verb (Q_Cancel _ _) \<longleftrightarrow> False"
| "is_lifecycle_verb q \<longleftrightarrow> \<not> is_capsule_verb q"

end
