(* ===== verification/Service_Facts.thy ===== *)
theory Service_Facts
  imports Service_Rpc
begin

text \<open>
  What the verbs of \<open>service.rs\<close> guarantee: they keep the invariant of the journal, a refused
  verb leaves no trace and an accepted one spawns exactly one executor, capsule verbs answer
  a repetition with the first outcome, and an alarm that is set is in range and in the future.
\<close>

section \<open>The journal invariant\<close>

lemma keeps_node_rpc_submit [keep_rules]:
  "rely node_ok E \<Longrightarrow> keeps (on_db node_ok) (rpc_submit E kind iid key payload)"
  unfolding rpc_submit_def by (intro keep_rules)

lemma keeps_instance_proto [keep_rules]: "rely I E \<Longrightarrow> keeps (on_db I) (instance_to_proto E row)"
  unfolding instance_to_proto_def Let_def by (intro keep_rules)

lemma keeps_case_prod_pair [keep_rules]: "(\<And>a b. keeps P (f a b)) \<Longrightarrow> keeps P (case x of (a, b) \<Rightarrow> f a b)"
  by (cases x) simp

lemma keeps_enrich [keep_rules]: "rely I E \<Longrightarrow> keeps (on_db I) (enrich_each E rows)"
  by (induction rows) (auto intro!: keep_rules)

lemma keeps_wake_time [keep_rules]: "rely I E \<Longrightarrow> keeps (on_db I) (wake_time E at)"
  unfolding wake_time_def by (intro keep_rules)

lemma keeps_node_set_wake [keep_rules]:
  assumes "rely node_ok E"
  shows "keeps (on_db node_ok) (set_wake E iid at)"
proof -
  have "keeps (on_db node_ok) (db_write E (\<lambda>now db. set_wake_at db iid d now))" for d
    by (rule keeps_node_write [OF assms]) (rule node_ok_set_wake_at)
  thus ?thesis unfolding set_wake_def by (intro keep_rules assms)
qed

lemma keeps_node_capsule_calls [keep_rules]:
  assumes "rely node_ok E"
  shows "keeps (on_db node_ok) (db_call E (\<lambda>now db. begin_capsule_op db oid kind request key now))"
    and "keeps (on_db node_ok) (db_call E (\<lambda>now db. finish_capsule_op db oid cid st reason message now))"
  by (rule keeps_db_call [OF assms], rule node_ok_capsule_ops; assumption)+

lemma keeps_node_collect [keep_rules]:
  assumes "rely node_ok E"
  shows "keeps (on_db node_ok) (run_gc E)"
proof -
  have "keeps (on_db node_ok) (db_write E (\<lambda>_ db. finalize_object_gc db d))" for d
    by (rule keeps_node_write [OF assms]) (rule node_ok_finalize_object_gc)
  hence "keeps (on_db node_ok) (collect_object E d)" for d
    unfolding collect_object_def remove_def by (intro keep_rules assms) auto
  thus ?thesis
    unfolding run_gc_def sweep_staging_def
    by (intro keep_rules keeps_sweep_files assms) (auto simp: remove_staging_file_def split: if_splits)
qed

lemma keeps_node_delete_and_collect [keep_rules]:
  assumes "rely node_ok E"
  shows "keeps (on_db node_ok) (delete_and_collect E cid)"
proof -
  have "keeps (on_db node_ok) (db_write E (\<lambda>_ db. delete_capsule db cid))"
    by (rule keeps_node_write [OF assms]) (rule node_ok_delete_capsule)
  thus ?thesis unfolding delete_and_collect_def by (intro keep_rules assms)
qed

lemma keeps_node_capsule_verb [keep_rules]:
  assumes "rely node_ok E" and "keeps (on_db node_ok) work"
  shows "keeps (on_db node_ok) (capsule_verb E kind request key work)"
proof -
  have "keeps (on_db node_ok) (announce_capsule E k oid c)" for k oid c
    unfolding announce_capsule_def Let_def by (intro keep_rules assms)
  hence "keeps (on_db node_ok) (rpc_finish_capsule_op E row out)" for row out
    unfolding rpc_finish_capsule_op_def by (intro keep_rules assms)
  hence "keeps (on_db node_ok) (run_capsule_op E row (returned work))" for row
    unfolding run_capsule_op_def returned_def Let_def
    by (intro keep_rules assms) (auto intro!: keep_rules assms split: unwound.split)
  thus ?thesis
    unfolding capsule_verb_def rpc_begin_capsule_op_def
    by (intro keep_rules assms) (auto intro: keep_rules split: CapsuleSubmission.split)
qed

lemma keeps_node_serve [keep_rules]:
  assumes "rely node_ok E"
  shows "keeps (on_db node_ok) (serve E q)"
proof (cases q)
  case (Q_Resume target key requires)
  show ?thesis
    unfolding Q_Resume serve.simps resume_instance_def
    by (auto intro!: keep_rules assms split: option.split resume_target.split)
next
  case (Q_Fork r)
  show ?thesis
    unfolding Q_Fork serve.simps fork_instance_def restore_imported_capsule_def Let_def
    by (auto intro!: keep_rules assms split: option.split CapsuleRestore.split)
next
  case (Q_Cancel oid reason)
  show ?thesis
    unfolding Q_Cancel serve.simps rpc_cancel_operation_def cancel_capsule_refusal_def
    by (intro keep_rules assms)
qed (auto simp: create_instance_def start_instance_def stop_instance_def destroy_instance_def pause_instance_def
    checkpoint_instance_def rpc_create_snapshot_def rpc_delete_snapshot_def rpc_export_capsule_def rpc_import_capsule_def
    rpc_delete_capsule_def rpc_get_operation_def Let_def intro!: keep_rules assms split: option.split sum.split)

section \<open>Refusals leave no trace\<close>

definition spawned_for :: "task list \<Rightarrow> pb_operation \<Rightarrow> 's world \<Rightarrow> bool" where
  "spawned_for tks op w \<longleftrightarrow>
     (\<exists>tk. w_tasks w = tks @ [tk] \<and> op = op_to_proto (tk_op tk) \<and> po_state op = Op_Queued)"

definition replied :: "(journal \<Rightarrow> bool) \<Rightarrow> task list \<Rightarrow> Status + pb_operation \<Rightarrow> 's world \<Rightarrow> bool" where
  "replied I tks r w \<longleftrightarrow> at_rest I tks w \<or> (\<exists>op. r = Inr op \<and> spawned_for tks op w)"

lemma replied_quiet: "keeps (at_rest I tks) m \<Longrightarrow> triple (at_rest I tks) m (replied I tks)"
  unfolding keeps_def replied_def by (erule triple_post) simp

lemma replied_return: "triple (at_rest I tks) (return r) (replied I tks)"
  by (rule replied_quiet) (rule keeps_return)

lemma replied_read:
  assumes "undisturbed (at_rest I tks) E" and "\<And>r. triple (at_rest I tks) (f r) (replied I tks)"
  shows "triple (at_rest I tks) (do { r \<leftarrow> db_read E g; f r }) (replied I tks)"
  by (rule keeps_then [OF keeps_rest_read [OF assms(1)] assms(2)])

lemma replied_submit:
  assumes "rely I E" and "spawns_nothing E"
  shows "triple (at_rest I tks) (rpc_submit E kind iid key payload) (replied I tks)"
proof -
  have "triple (at_rest I tks) (submit_claiming E kind iid key payload None (\<lambda>_. return ())) (answered I tks kind iid payload)"
    by (rule submit_answered [OF assms]) (simp add: keeps_return)
  note submitted = this
  have queued: "or_state op = Op_Queued \<Longrightarrow> po_state (op_to_proto op) = Op_Queued" for op
    by (simp add: op_to_proto_def)
  show ?thesis
    unfolding rpc_submit_def submit_def bind_assoc
    by (rule triple_bind [OF submitted], simp, rule triple_return)
      (auto simp: answered_def replied_def at_rest_def spawned_for_def queued split: sum.splits Claimed.splits)
qed

lemmas replied_rules = replied_return replied_read replied_submit undisturbed_at_rest

lemma replied_serve:
  assumes "rely I E" and "spawns_nothing E" and "is_lifecycle_verb q"
  shows "triple (at_rest I tks) (serve E q) (replied I tks)"
proof (cases q)
  case (Q_Resume target key requires)
  show ?thesis
    unfolding Q_Resume serve.simps resume_instance_def
    by (auto intro!: replied_rules assms(1,2) split: option.split resume_target.split sum.split)
next
  case (Q_Fork r)
  show ?thesis
    unfolding Q_Fork serve.simps fork_instance_def restore_imported_capsule_def Let_def
    by (auto intro!: replied_rules assms(1,2) split: option.split CapsuleRestore.split sum.split)
qed (use assms in \<open>auto simp: create_instance_def start_instance_def stop_instance_def destroy_instance_def pause_instance_def
    checkpoint_instance_def rpc_create_snapshot_def rpc_delete_snapshot_def Let_def
    intro!: replied_rules split: option.split sum.split\<close>)


text \<open>A capsule that was never imported cannot be restored.\<close>

definition sample_fork :: ForkInstanceRequest where
  "sample_fork = \<lparr>fq_source_snapshot_id = ''capsule:c1'', fq_target_instance_id = ''i9'', fq_idempotency_key = ''k'',
     fq_require_cow = False, fq_target_spec = None\<rparr>"


section \<open>Capsule verbs answer once\<close>

text \<open>What the row of a key is answered with when the key is used again.\<close>

definition recorded_reply :: "'s env \<Rightarrow> string \<Rightarrow> string \<Rightarrow> capsule_operations_row \<Rightarrow> Status + pb_operation" where
  "recorded_reply E kind request c =
     (if pc_kind c = kind \<and> pc_request c = request
      then if pc_state c = Op_Failed then Inl (capsule_status (pc_error_reason c) (pc_error_message c))
           else Inr (capsule_op_to_proto (capsule_op_row_from c))
      else Inl (status_with_reason GC_InvalidArgument ER_InvalidSpec
             (say E ''idempotency key was already used with a different request'' [A_Text (pc_kind c)])))"

definition bound_reply ::
  "'s env \<Rightarrow> string \<Rightarrow> string \<Rightarrow> idempotency_key \<Rightarrow> Status + pb_operation \<Rightarrow> 's world \<Rightarrow> bool" where
  "bound_reply E kind request key r w \<longleftrightarrow>
     (\<exists>c. row_with pc_idempotency_key key (j_capsule_operations (w_db w)) = Some c
        \<and> (pc_request c = [] \<longrightarrow> pc_kind c \<noteq> kind) \<and> r = recorded_reply E kind request c)"

definition broke :: "Status + 'a \<Rightarrow> bool" where
  "broke r \<longleftrightarrow> (\<exists>st. r = Inl st \<and> st_code st = GC_Internal)"

lemma broke_internal [simp]: "broke (Inl (internal_status E e))"
  by (simp add: broke_def internal_status_def status_def)

text \<open>The row of an operation in progress.\<close>

definition opened :: "op_id \<Rightarrow> string \<Rightarrow> string \<Rightarrow> idempotency_key \<Rightarrow> 's world \<Rightarrow> bool" where
  "opened oid kind request key w \<longleftrightarrow>
     (\<exists>c. row_with pc_idempotency_key key (j_capsule_operations (w_db w)) = Some c
        \<and> row_with pc_op_id oid (j_capsule_operations (w_db w)) = Some c
        \<and> pc_op_id c = oid \<and> pc_kind c = kind \<and> pc_request c = request \<and> pc_state c = Op_Running)"

lemma begin_capsule_op_cases:
  assumes "schema_ok (w_db w)" and "request \<noteq> []"
    and "begin_capsule_op (w_db w) oid kind request key now = Inr (b, db)"
  shows "(\<exists>row. b = Started row \<and> pr_op_id row = oid \<and> pr_kind row = kind \<and> opened oid kind request key (w\<lparr>w_db := db\<rparr>))
       \<or> (\<exists>c. row_with pc_idempotency_key key (j_capsule_operations db) = Some c \<and> (pc_request c = [] \<longrightarrow> pc_kind c \<noteq> kind)
            \<and> b = (if pc_kind c = kind \<and> pc_request c = request then CapsuleReplay (capsule_op_row_from c)
                   else Mismatch (capsule_op_row_from c)))"
proof (cases "\<not> has_key pc_op_id oid (j_capsule_operations (w_db w)) \<and> \<not> has_key pc_idempotency_key key (j_capsule_operations (w_db w))")
  case True
  thus ?thesis using assms(3)
    by (auto simp: begin_capsule_op_def Let_def opened_def row_with_append
        row_with_None_iff [THEN iffD2] split: if_splits)
next
  case False
  then obtain c where c: "row_with pc_idempotency_key key (j_capsule_operations (w_db w)) = Some c"
    using assms(3) by (auto simp: begin_capsule_op_def Let_def split: if_splits option.splits)
  let ?c = "if pc_kind c = kind \<and> pc_request c = [] then c\<lparr>pc_request := request\<rparr> else c"
  have "row_with pc_idempotency_key key (j_capsule_operations db) = Some ?c" "pc_request ?c = [] \<longrightarrow> pc_kind ?c \<noteq> kind"
      "b = (if pc_kind ?c = kind \<and> pc_request ?c = request then CapsuleReplay (capsule_op_row_from ?c)
            else Mismatch (capsule_op_row_from ?c))"
    using c False assms(2,3)
    by (auto simp: begin_capsule_op_def Let_def row_with_sql_update capsule_op_row_from_def split: if_splits)
  thus ?thesis by blast
qed

lemma finish_capsule_op_bound:
  assumes "opened oid kind request key w" and "request \<noteq> []" and "st \<in> {Op_Done, Op_Failed}"
    and "finish_capsule_op (w_db w) oid cid st reason message now = Inr (row, db)"
  shows "\<exists>c. row_with pc_idempotency_key key (j_capsule_operations db) = Some c \<and> row = capsule_op_row_from c
     \<and> pc_kind c = kind \<and> pc_request c = request \<and> pc_state c = st \<and> pc_error_reason c = reason \<and> pc_error_message c = message"
  using assms by (auto simp: opened_def finish_capsule_op_def Let_def get_capsule_op_def row_with_sql_update)

text \<open>The other tasks keep the rows of capsule operations, and so does the work of the three verbs.\<close>

lemma keeps_table_work:
  assumes "rely (\<lambda>db. j_capsule_operations db = t) E"
  shows "keeps (on_db (\<lambda>db. j_capsule_operations db = t)) (export_capsule E sid tier)"
    and "keeps (on_db (\<lambda>db. j_capsule_operations db = t)) (import_capsule E m storage)"
    and "keeps (on_db (\<lambda>db. j_capsule_operations db = t)) (delete_and_collect E cid)"
proof -
  let ?I = "\<lambda>db. j_capsule_operations db = t"
  have register: "keeps (on_db ?I) (db_call E (\<lambda>_ db. Inr (register_capsule db row)))" for row
    by (rule keeps_db_call [OF assms]) (auto simp: register_capsule_def Let_def split: option.splits if_splits)
  show "keeps (on_db ?I) (export_capsule E sid tier)"
    unfolding export_capsule_def register_exported_def Let_def by (intro keep_rules register assms)
  have "keeps (on_db ?I) (db_write E (\<lambda>now db. insert_snapshot db row now))" for row
    by (rule keeps_db_write [OF assms]) (simp add: insert_snapshot_def)
  thus "keeps (on_db ?I) (import_capsule E m storage)"
    unfolding import_capsule_def register_imported_def Let_def by (intro keep_rules register assms)
  have "keeps (on_db ?I) (db_write E (\<lambda>_ db. finalize_object_gc db d))" for d
    by (rule keeps_db_write [OF assms]) (simp add: finalize_object_gc_def)
  hence "keeps (on_db ?I) (collect_object E d)" for d
    unfolding collect_object_def remove_def by (intro keep_rules assms) auto
  moreover have "keeps (on_db ?I) (db_write E (\<lambda>_ db. delete_capsule db cid))"
    by (rule keeps_db_write [OF assms]) (simp add: delete_capsule_def split: option.split)
  ultimately show "keeps (on_db ?I) (delete_and_collect E cid)"
    unfolding delete_and_collect_def run_gc_def sweep_staging_def
    by (intro keep_rules keeps_sweep_files assms) (auto simp: remove_staging_file_def split: if_splits)
qed

lemma triple_opened_work:
  assumes "\<And>t. keeps (on_db (\<lambda>db. j_capsule_operations db = t)) work"
  shows "triple (opened oid kind request key) (returned work) (\<lambda>r w. (\<exists>a. r = Returned a) \<and> opened oid kind request key w)"
proof (rule tripleI)
  fix w r w' assume w: "opened oid kind request key w" and run: "run_state (returned work) w = (r, w')"
  then obtain a where a: "run_state work w = (a, w')" "r = Returned a" by (auto simp: returned_def split: prod.splits)
  have "j_capsule_operations (w_db w') = j_capsule_operations (w_db w)"
    using keepsD [OF assms [of "j_capsule_operations (w_db w)"] _ a(1)] by (simp add: on_db_def)
  thus "(\<exists>a. r = Returned a) \<and> opened oid kind request key w'" using w a by (auto simp: opened_def)
qed

lemma bound_replyI:
  assumes "row_with pc_idempotency_key key (j_capsule_operations (w_db w)) = Some c" and "pc_kind c = kind"
    and "pc_request c = request" and "request \<noteq> []"
  shows "pc_state c = Op_Failed \<Longrightarrow> bound_reply E kind request key (Inl (capsule_status (pc_error_reason c) (pc_error_message c))) w"
    and "pc_state c \<noteq> Op_Failed \<Longrightarrow> bound_reply E kind request key (Inr (capsule_op_to_proto (capsule_op_row_from c))) w"
  unfolding bound_reply_def by (rule exI [of _ c], simp add: assms recorded_reply_def)+

lemma triple_finish_capsule:
  assumes "alone E" and "request \<noteq> []" and "pr_op_id row = oid"
  shows "triple (opened oid kind request key) (rpc_finish_capsule_op E row out)
           (\<lambda>r w. broke r \<or> bound_reply E kind request key r w)"
proof -
  have ud: "undisturbed (opened oid kind request key) E" "undisturbed (\<lambda>w. bound_reply E kind request key r w) E" for r
    by (rule undisturbed_alone [OF assms(1)], simp add: opened_def bound_reply_def)+
  have event: "keeps (\<lambda>w. bound_reply E kind request key r w) (record_event E ev)" for r ev
    unfolding record_event_def
    by (intro keep_rules stable_db_call ud) (auto simp: bound_reply_def insert_event_def Let_def)
  have failed: "triple (opened oid kind request key)
      (db_call E (\<lambda>now db. finish_capsule_op db oid [] Op_Failed reason message now))
      (\<lambda>r w. isl r \<or> bound_reply E kind request key (Inl (capsule_status reason message)) w)" for reason message
    by (rule triple_db_call [OF ud(1)])
      (use assms(2) in \<open>auto dest!: finish_capsule_op_bound [where st = Op_Failed] intro!: bound_replyI(1)\<close>)
  have ended: "triple (opened oid kind request key)
      (db_call E (\<lambda>now db. finish_capsule_op db oid cid Op_Done ER_Unspecified [] now))
      (\<lambda>r w. \<forall>rec. r = Inr rec \<longrightarrow> bound_reply E kind request key (Inr (capsule_op_to_proto rec)) w)" for cid
    by (rule triple_db_call [OF ud(1)])
      (use assms(2) in \<open>auto dest!: finish_capsule_op_bound [where st = Op_Done] intro!: bound_replyI(2)\<close>)
  have tell: "triple (\<lambda>w. bound_reply E kind request key (Inr (capsule_op_to_proto rec)) w)
      (do { announce_capsule E (pr_kind row) (pr_op_id rec) capsule; return (Inr (capsule_op_to_proto rec)) })
      (\<lambda>r w. broke r \<or> bound_reply E kind request key r w)" for rec capsule
    unfolding announce_capsule_def Let_def
    by (rule keeps_then, intro keep_rules event, rule triple_return) simp
  show ?thesis
  proof (cases out)
    case (Inl e)
    obtain reason message where e: "e = (reason, message)" by fastforce
    show ?thesis
      unfolding rpc_finish_capsule_op_def Inl e assms(3) sum.case prod.case
      by (rule triple_bind [OF failed], rule triple_return) (auto split: sum.splits)
  next
    case (Inr capsule)
    show ?thesis
      unfolding rpc_finish_capsule_op_def Inr assms(3) sum.case
      by (rule triple_bind [OF ended], rule triple_case_sum)
        (auto intro: triple_return triple_pre [OF tell])
  qed
qed

definition begun ::
  "'s env \<Rightarrow> string \<Rightarrow> string \<Rightarrow> idempotency_key \<Rightarrow> Status + CapsuleSubmission \<Rightarrow> 's world \<Rightarrow> bool" where
  "begun E kind request key r w \<longleftrightarrow>
     (case r of
        Inl st \<Rightarrow> st_code st = GC_Internal \<or> bound_reply E kind request key (Inl st) w
      | Inr (CapsuleReplayed op) \<Rightarrow> bound_reply E kind request key (Inr op) w
      | Inr (CapsuleStarted row) \<Rightarrow> opened (pr_op_id row) kind request key w)"

definition begin_reply :: "'s env \<Rightarrow> db_error + capsule_op_begin \<Rightarrow> Status + CapsuleSubmission" where
  "begin_reply E r =
     (case r of
        Inl e \<Rightarrow> Inl (internal_status E e)
      | Inr (Started row) \<Rightarrow> Inr (CapsuleStarted row)
      | Inr (CapsuleReplay row) \<Rightarrow>
          if pr_state row = Op_Failed then Inl (capsule_status (pr_error_reason row) (pr_error_message row))
          else Inr (CapsuleReplayed (capsule_op_to_proto row))
      | Inr (Mismatch original) \<Rightarrow>
          Inl (status_with_reason GC_InvalidArgument ER_InvalidSpec
            (say E ''idempotency key was already used with a different request'' [A_Text (pr_kind original)])))"

lemma rpc_begin_eq:
  "rpc_begin_capsule_op E kind request key = do {
     oid \<leftarrow> extern (en_ulid E);
     r \<leftarrow> db_call E (\<lambda>now db. begin_capsule_op db oid kind request key now);
     return (begin_reply E r) }"
  by (simp add: rpc_begin_capsule_op_def begin_reply_def)

lemma begin_reply_recorded:
  assumes "row_with pc_idempotency_key key (j_capsule_operations (w_db w)) = Some c" and "pc_request c = [] \<longrightarrow> pc_kind c \<noteq> kind"
  shows "begun E kind request key (begin_reply E (Inr (if pc_kind c = kind \<and> pc_request c = request
           then CapsuleReplay (capsule_op_row_from c) else Mismatch (capsule_op_row_from c)))) w"
proof -
  have "bound_reply E kind request key (recorded_reply E kind request c) w"
    using assms unfolding bound_reply_def by blast
  thus ?thesis
    by (auto simp: begin_reply_def begun_def recorded_reply_def capsule_op_row_from_def)
qed

lemma triple_begin:
  assumes "alone E" and "request \<noteq> []"
  shows "triple (on_db schema_ok) (rpc_begin_capsule_op E kind request key) (begun E kind request key)"
proof -
  have ud: "undisturbed (on_db schema_ok) E"
    by (rule undisturbed_alone [OF assms(1)]) (simp add: on_db_def)
  have "triple (on_db schema_ok) (db_call E (\<lambda>now db. begin_capsule_op db oid kind request key now))
      (\<lambda>r. begun E kind request key (begin_reply E r))" for oid
  proof (rule triple_db_call [OF ud])
    fix now and w :: "'a world" and b db
    assume "on_db schema_ok w" and step: "begin_capsule_op (w_db w) oid kind request key now = Inr (b, db)"
    hence "schema_ok (w_db w)" by (simp add: on_db_def)
    from begin_capsule_op_cases [OF this assms(2) step]
    show "begun E kind request key (begin_reply E (Inr b)) (w\<lparr>w_db := db\<rparr>)"
    proof (elim disjE exE conjE)
      fix row assume "b = Started row" "pr_op_id row = oid" "opened oid kind request key (w\<lparr>w_db := db\<rparr>)"
      thus ?thesis by (simp add: begun_def begin_reply_def)
    next
      fix c assume "row_with pc_idempotency_key key (j_capsule_operations db) = Some c" "pc_request c = [] \<longrightarrow> pc_kind c \<noteq> kind"
        and "b = (if pc_kind c = kind \<and> pc_request c = request then CapsuleReplay (capsule_op_row_from c)
                  else Mismatch (capsule_op_row_from c))"
      thus ?thesis using begin_reply_recorded [of key "w\<lparr>w_db := db\<rparr>" c kind E request] by simp
    qed
  qed (simp add: begun_def begin_reply_def internal_status_def status_def)
  thus ?thesis
    unfolding rpc_begin_eq
    by (intro keeps_then [OF stable_extern [OF ud]] triple_bind triple_return)
qed

lemma triple_capsule_verb:
  assumes "alone E" and "request \<noteq> []" and "\<And>t. keeps (on_db (\<lambda>db. j_capsule_operations db = t)) work"
  shows "triple (on_db schema_ok) (capsule_verb E kind request key work)
           (\<lambda>r w. broke r \<or> bound_reply E kind request key r w)" (is "triple _ _ ?Q")
proof -
  have run: "triple (opened (pr_op_id row) kind request key) (run_capsule_op E row (returned work)) ?Q" for row
  proof -
    have "triple (\<lambda>w. (\<exists>a. r = Returned a) \<and> opened (pr_op_id row) kind request key w)
        (case r of Returned outcome \<Rightarrow> rpc_finish_capsule_op E row outcome | Panicked p \<Rightarrow> f p) ?Q" for r f
      using triple_finish_capsule [OF assms(1,2) refl] by (cases r) (simp_all add: triple_def)
    thus ?thesis
      unfolding run_capsule_op_def Let_def by (intro triple_bind [OF triple_opened_work [OF assms(3)]])
  qed
  have "triple (begun E kind request key b)
      (case b of Inl st \<Rightarrow> return (Inl st) | Inr (CapsuleReplayed op) \<Rightarrow> return (Inr op)
       | Inr (CapsuleStarted row) \<Rightarrow> run_capsule_op E row (returned work)) ?Q" for b
  proof (cases b)
    case (Inr s)
    thus ?thesis using run by (cases s) (simp_all add: begun_def triple_def)
  qed (simp add: begun_def broke_def triple_def)
  thus ?thesis
    unfolding capsule_verb_def by (intro triple_bind [OF triple_begin [OF assms(1,2)]])
qed

text \<open>A key that is bound is answered from its row, and nothing but the clock moves.\<close>

lemma bound_begin:
  assumes "bound_reply E kind request key r w" and "request \<noteq> []"
  shows "\<exists>b. (\<forall>oid now. begin_capsule_op (w_db w) oid kind request key now = Inr (b, w_db w))
           \<and> begin_reply E (Inr b) = (case r of Inl st \<Rightarrow> Inl st | Inr op \<Rightarrow> Inr (CapsuleReplayed op))"
proof -
  from assms(1) obtain c where c: "row_with pc_idempotency_key key (j_capsule_operations (w_db w)) = Some c"
      "pc_request c = [] \<longrightarrow> pc_kind c \<noteq> kind" "r = recorded_reply E kind request c"
    by (auto simp: bound_reply_def)
  have "has_key pc_idempotency_key key (j_capsule_operations (w_db w))"
    using c(1) row_with_None_iff by (metis option.distinct(1))
  with c have "begin_capsule_op (w_db w) oid kind request key now = Inr (if pc_kind c = kind \<and> pc_request c = request
      then CapsuleReplay (capsule_op_row_from c) else Mismatch (capsule_op_row_from c), w_db w)" for oid now
    by (auto simp: begin_capsule_op_def Let_def capsule_op_row_from_def)
  moreover have "begin_reply E (Inr (if pc_kind c = kind \<and> pc_request c = request
      then CapsuleReplay (capsule_op_row_from c) else Mismatch (capsule_op_row_from c)))
      = (case r of Inl st \<Rightarrow> Inl st | Inr op \<Rightarrow> Inr (CapsuleReplayed op))"
    using c(3) by (auto simp: begin_reply_def recorded_reply_def capsule_op_row_from_def)
  ultimately show ?thesis by blast
qed

lemma extern_runs: "\<exists>a x. run_state (extern f) w = (a, w\<lparr>w_ext := x\<rparr>)"
  by (cases "f (w_ext w)") (auto simp: extern_def)

lemma undisturbed_call:
  assumes "alone E" and "faultless E" and "\<And>now. f now (w_db w) = Inr (b, w_db w)"
  shows "\<exists>x. run_state (db_call E f) w = (Inr b, w\<lparr>w_ext := x\<rparr>)"
proof -
  obtain now x where now: "run_state (now_ms E) w = (now, w\<lparr>w_ext := x\<rparr>)"
    using extern_runs [of "en_now E" w] by (auto simp: now_ms_def)
  obtain y where fault: "en_fault E x = (None, y)"
    using assms(2) by (metis faultless_def prod.collapse)
  have "run_state (others E) w = ((), w)"
    using assms(1) by (simp add: others_def alone_def action_defs)
  thus ?thesis
    unfolding db_call_def using now fault assms(3) by (auto simp: extern_def)
qed

lemma repeated_capsule_verb:
  assumes "alone E" and "faultless E" and "request \<noteq> []" and "bound_reply E kind request key r w"
  shows "\<exists>x. run_state (capsule_verb E kind request key work) w = (r, w\<lparr>w_ext := x\<rparr>)"
proof -
  obtain oid x where oid: "run_state (extern (en_ulid E)) w = (oid, w\<lparr>w_ext := x\<rparr>)"
    using extern_runs [of "en_ulid E" w] by blast
  from bound_begin [OF assms(4,3)] obtain b where "\<And>now. begin_capsule_op (w_db w) oid kind request key now = Inr (b, w_db w)"
      and reply: "begin_reply E (Inr b) = (case r of Inl st \<Rightarrow> Inl st | Inr op \<Rightarrow> Inr (CapsuleReplayed op))"
    by blast
  with undisturbed_call [OF assms(1,2), of "\<lambda>now db. begin_capsule_op db oid kind request key now" "w\<lparr>w_ext := x\<rparr>" b]
  obtain y where call: "run_state (db_call E (\<lambda>now db. begin_capsule_op db oid kind request key now)) (w\<lparr>w_ext := x\<rparr>)
      = (Inr b, w\<lparr>w_ext := y\<rparr>)"
    by auto
  show ?thesis
    unfolding capsule_verb_def rpc_begin_eq by (cases r) (auto simp: oid call reply)
qed

lemma capsule_verb_once:
  assumes "alone E" and "faultless E" and "request \<noteq> []" and "\<And>t. keeps (on_db (\<lambda>db. j_capsule_operations db = t)) work"
    and "schema_ok (w_db w)" and "run_state (capsule_verb E kind request key work) w = (r, w1)" and "\<not> broke r"
  shows "\<exists>x. run_state (capsule_verb E kind request key work) w1 = (r, w1\<lparr>w_ext := x\<rparr>)"
proof -
  have "broke r \<or> bound_reply E kind request key r w1"
    using tripleD [OF triple_capsule_verb [OF assms(1,3,4)] _ assms(6)] assms(5) by (simp add: on_db_def)
  with assms(7) show ?thesis using repeated_capsule_verb [OF assms(1-3)] by blast
qed

lemma requests_nonempty [simp]:
  "export_request sid tier \<noteq> []" "import_request E m storage \<noteq> []" "delete_request cid \<noteq> []"
  by (simp_all add: export_request_def import_request_def delete_request_def)

text \<open>
  C35: capsule verbs are idempotent.  On a node where no other task runs and the database
  answers, exporting, importing or deleting a capsule a second time with the same request
  and the same key gives the answer of the first time, a refusal included, and neither the
  journal nor the disk nor the objects kept are touched again.  The exception is an answer
  that reports an internal error, which is not recorded.
\<close>

theorem capsule_verbs_idempotent:
  assumes "alone E" and "faultless E" and "is_capsule_verb q" and "schema_ok (w_db w)"
    and "run_state (serve E q) w = (r, w1)" and "\<not> broke r"
  shows "\<exists>x. run_state (serve E q) w1 = (r, w1\<lparr>w_ext := x\<rparr>)"
proof -
  have rely: "rely (\<lambda>db. j_capsule_operations db = t) E" for t
    using assms(1) by (simp add: rely_def alone_def)
  have stays: "\<exists>x. v = v\<lparr>w_ext := x\<rparr>" for v :: "'a world"
    by (rule exI [of _ "w_ext v"]) simp
  note once = capsule_verb_once [OF assms(1,2) _ keeps_table_work(1) [OF rely] assms(4)]
    capsule_verb_once [OF assms(1,2) _ keeps_table_work(2) [OF rely] assms(4)]
    capsule_verb_once [OF assms(1,2) _ keeps_table_work(3) [OF rely] assms(4)]
  show ?thesis
    using assms(3,5,6) stays
    by (cases q rule: is_capsule_verb.cases)
      (auto simp: rpc_export_capsule_def rpc_import_capsule_def rpc_delete_capsule_def Let_def
        split: if_splits option.splits intro!: once)
qed

text \<open>Exporting a snapshot that does not exist, twice: the second answer is the recorded refusal.\<close>

theorem capsule_verbs_idempotent_witness:
  "\<exists>r w1 x. run_state (serve sample_env (Q_Export ''s'' 1 ''k'')) (sample_world empty_journal ()) = (r, w1)
     \<and> run_state (serve sample_env (Q_Export ''s'' 1 ''k'')) w1 = (r, w1\<lparr>w_ext := x\<rparr>)"
proof -
  let ?q = "Q_Export ''s'' 1 ''k''" and ?w = "sample_world empty_journal ()"
  obtain r w1 where run: "run_state (serve sample_env ?q) ?w = (r, w1)" by fastforce
  have "alone (sample_env :: unit env)" "faultless (sample_env :: unit env)"
    by (simp_all add: alone_def faultless_def sample_env_def)
  moreover have "schema_ok (w_db ?w)" by (simp add: sample_world_def)
  moreover have "\<not> broke (fst (run_state (serve sample_env ?q) ?w))"
    by (simp add: rpc_export_capsule_def capsule_verb_def rpc_begin_capsule_op_def begin_capsule_op_def run_capsule_op_def
        returned_def export_capsule_def get_snapshot_def rpc_finish_capsule_op_def finish_capsule_op_def get_capsule_op_def
        sample_env_def sample_world_def action_defs empty_journal_def capsule_status_def status_with_reason_def
        capsule_op_row_from_def sql_update_def has_key_def broke_def Let_def)
  ultimately show ?thesis
    using capsule_verbs_idempotent [of sample_env ?q ?w r w1] run by simp
qed

section \<open>Alarms\<close>

text \<open>The checked arithmetic of the conversion never fails inside the range of a timestamp.\<close>

lemma timestamp_ms_eq:
  "timestamp_ms at =
     (if -62135596800 \<le> t_seconds at \<and> t_seconds at \<le> 253402300799 \<and> 0 \<le> t_nanos at \<and> t_nanos at < 1000000000
      then Some (t_seconds at * 1000 + t_nanos at div 1000000) else None)"
proof -
  have "trunc_div (t_nanos at) 1000000 = t_nanos at div 1000000" if "0 \<le> t_nanos at"
    using that by (cases "t_nanos at = 0") (simp_all add: trunc_div_def)
  moreover have "0 \<le> t_nanos at div 1000000 \<and> t_nanos at div 1000000 < 1000" if "0 \<le> t_nanos at" "t_nanos at < 1000000000"
    using that by (simp add: pos_imp_zdiv_nonneg_iff div_less_iff_less_mult)
  ultimately show ?thesis
    by (auto simp: timestamp_ms_def i64_checked_def in_i64_def i64_min_def i64_max_def)
qed

lemma timestamp_ms_range:
  "timestamp_ms at = Some ms \<Longrightarrow> -62135596800000 \<le> ms \<and> ms \<le> 253402300799999"
  by (auto simp: timestamp_ms_eq split: if_splits)

lemma triple_if: "(b \<Longrightarrow> triple P m Q) \<Longrightarrow> (\<not> b \<Longrightarrow> triple P n Q) \<Longrightarrow> triple P (if b then m else n) Q"
  by simp

lemma yields_wake_time:
  assumes "\<And>x. T \<le> fst (en_now E x)"
  shows "yields (wake_time E (Some at)) (\<lambda>r. \<forall>d. r = Inr d \<longrightarrow> (\<exists>ms. d = Some ms \<and> T < ms \<and> timestamp_ms at = Some ms))"
proof -
  have "yields (now_ms E) (\<lambda>now. T \<le> now)" unfolding now_ms_def by (rule yields_extern) (rule assms)
  thus ?thesis
    unfolding wake_time_def option.case
    by (auto intro!: yields_return yields_bind split: option.split if_splits)
qed

definition alarmed :: "instance_id \<Rightarrow> ms \<Rightarrow> journal \<Rightarrow> bool" where
  "alarmed iid ms db \<longleftrightarrow> (\<forall>row. row_with ic_instance_id iid (j_instances db) = Some row \<longrightarrow> ic_wake_at_ms row = Some ms)"

lemma alarmed_set_wake_at: "alarmed iid ms (set_wake_at db iid (Some ms) now)"
proof (cases "row_with ic_instance_id iid (j_instances db)")
  case (Some row)
  with row_with_Some_key [OF this] show ?thesis by (simp add: alarmed_def set_wake_at_def row_with_sql_update)
qed (simp add: alarmed_def set_wake_at_def row_with_sql_update)

definition alarm_shown :: "instance_id \<Rightarrow> timestamp \<Rightarrow> ms \<Rightarrow> Status + pb_instance \<Rightarrow> 's world \<Rightarrow> bool" where
  "alarm_shown iid at T r w \<longleftrightarrow> (\<forall>inst. r = Inr inst \<longrightarrow>
     (\<exists>row ms. row_with ic_instance_id iid (j_instances (w_db w)) = Some row \<and> ic_wake_at_ms row = Some ms
        \<and> timestamp_ms at = Some ms \<and> T < ms \<and> pi_wake_at inst = Some (ts ms)))"

lemma alarm_shown_row:
  assumes "alarmed iid ms (w_db w)" and "get_instance (w_db w) iid = Some row" and "timestamp_ms at = Some ms" and "T < ms"
  shows "alarm_shown iid at T (Inr (instance_row_to_proto row)) w"
  using assms by (auto simp: alarm_shown_def alarmed_def get_instance_def instance_row_to_proto_def instance_row_from_def)

lemma triple_alarm_read:
  assumes "alone E" and "timestamp_ms at = Some ms" and "T < ms"
  shows "triple (on_db (alarmed iid ms)) (do { r \<leftarrow> db_read E (\<lambda>db. get_instance db iid); return (case r of
        Inl e \<Rightarrow> Inl (internal_status E e) | Inr None \<Rightarrow> Inl (not_found E ''instance not found'' iid)
      | Inr (Some row) \<Rightarrow> Inr (instance_row_to_proto row)) }) (alarm_shown iid at T)"
proof -
  have ud: "undisturbed (on_db (alarmed iid ms)) E"
    by (rule undisturbed_alone [OF assms(1)]) (simp add: on_db_def)
  let ?Q = "\<lambda>r w. \<forall>row. r = Inr (Some row) \<longrightarrow> alarm_shown iid at T (Inr (instance_row_to_proto row)) w"
  have "triple (on_db (alarmed iid ms)) (db_read E (\<lambda>db. get_instance db iid)) ?Q"
    by (rule triple_db_read [OF ud]) (simp_all add: on_db_def alarm_shown_row [OF _ _ assms(2,3)])
  moreover have "triple (?Q r) (return (case r of
        Inl e \<Rightarrow> Inl (internal_status E e) | Inr None \<Rightarrow> Inl (not_found E ''instance not found'' iid)
      | Inr (Some row) \<Rightarrow> Inr (instance_row_to_proto row))) (alarm_shown iid at T)" for r
    by (rule triple_return) (auto simp: alarm_shown_def split: sum.split option.split)
  ultimately show ?thesis by (rule triple_bind)
qed

text \<open>
  C36: SetWake keeps the alarm in bounds.  When the verb answers with an instance, the row of
  that instance carries the requested time in whole milliseconds; it lies between the years
  0001 and 9999, so the conversion neither overflows nor wraps, it is later than any time
  before the call, and the answer shows the same alarm.
\<close>

theorem set_wake_in_bounds:
  assumes "alone E" and "\<And>x. T \<le> fst (en_now E x)" and "run_state (set_wake E iid (Some at)) w = (Inr inst, w')"
  shows "\<exists>row ms. row_with ic_instance_id iid (j_instances (w_db w')) = Some row \<and> ic_wake_at_ms row = Some ms
     \<and> ms = t_seconds at * 1000 + t_nanos at div 1000000 \<and> T < ms
     \<and> -62135596800000 \<le> ms \<and> ms \<le> 253402300799999 \<and> pi_wake_at inst = Some (ts ms)"
proof -
  have ud: "undisturbed (\<lambda>_. True) E"
    by (rule undisturbed_alone [OF assms(1)]) simp
  have any: "keeps (\<lambda>_. True) m" for m :: "('a, 'b) act" by (simp add: keeps_def triple_def split: prod.split)
  have refused: "triple P (return (Inl st)) (alarm_shown iid at T)" for P st
    by (rule triple_return) (simp add: alarm_shown_def)
  have wrote: "triple (\<lambda>_. True) (db_write E (\<lambda>now db. set_wake_at db iid (Some ms) now))
      (\<lambda>r w. on_db (alarmed iid ms) w \<or> isl r)" for ms
    unfolding db_write_def by (rule triple_db_call [OF ud(1)]) (auto simp: on_db_def alarmed_set_wake_at)
  have kept: "triple (\<lambda>_. True) (do { r \<leftarrow> db_write E (\<lambda>now db. set_wake_at db iid (Some ms) now); case r of
      Inl e \<Rightarrow> return (Inl (internal_status E e)) | Inr _ \<Rightarrow> m }) (alarm_shown iid at T)"
    if "triple (on_db (alarmed iid ms)) m (alarm_shown iid at T)" for ms m
    by (rule triple_bind [OF wrote], rule triple_case_sum, rule refused, rule triple_pre [OF that]) simp
  have "triple (\<lambda>_. True) (wake_time E (Some at)) (\<lambda>r w. True \<and> (\<forall>d. r = Inr d \<longrightarrow> (\<exists>ms. d = Some ms \<and> T < ms \<and> timestamp_ms at = Some ms)))"
    by (rule triple_yields [OF any yields_wake_time [OF assms(2)]])
  note timed = triple_bind [OF this triple_assuming]
  have "triple (\<lambda>_. True) (set_wake E iid (Some at)) (alarm_shown iid at T)"
    unfolding set_wake_def
    by (rule keeps_then [OF any], intro triple_case_sum triple_case_option triple_if refused timed)
      (auto intro!: kept triple_alarm_read [OF assms(1)])
  from tripleD [OF this TrueI assms(3)] show ?thesis
    by (auto simp: alarm_shown_def timestamp_ms_eq split: if_splits dest: timestamp_ms_range)
qed

theorem set_wake_in_bounds_witness:
  "\<exists>inst w' row ms. run_state (set_wake sample_env ''i1'' (Some \<lparr>t_seconds = 4, t_nanos = 1999999\<rparr>)) (sample_world sample_journal ()) = (Inr inst, w')
     \<and> row_with ic_instance_id ''i1'' (j_instances (w_db w')) = Some row \<and> ic_wake_at_ms row = Some ms \<and> ms = 4001
     \<and> pi_wake_at inst = Some (ts ms)"
proof -
  let ?run = "run_state (set_wake sample_env ''i1'' (Some \<lparr>t_seconds = 4, t_nanos = 1999999\<rparr>)) (sample_world sample_journal ())"
  have "\<not> isl (fst ?run)"
    by (simp add: set_wake_def wake_time_def timestamp_ms_eq sample_simps sample_env_def sample_world_def action_defs)
  from run_succeeded [OF this] obtain inst w' where run: "?run = (Inr inst, w')" by blast
  have "alone (sample_env :: unit env)" and "\<And>x. 1000 \<le> fst (en_now (sample_env :: unit env) x)"
    by (simp_all add: alone_def sample_env_def)
  from set_wake_in_bounds [OF this run] run show ?thesis by auto
qed

end
