(* ===== verification/Guest_Agent.thy ===== *)
theory Guest_Agent
  imports Service_Pages "HOL-Library.Word"
begin

unbundle bit_operations_syntax

text \<open>
  The guest agent, \<open>barista-guest-agent\<close>: what it remembers (\<open>state.rs\<close>), the bounded
  commands behind hooks and probes (\<open>cmd.rs\<close>), file transfer and the other verbs of its
  service (\<open>service.rs\<close>), and the duties after a restore (\<open>duties.rs\<close>).

  The sandbox is a record: files with their modes, a clock, the material mixed into the
  random pool, and oracles that decide which file operation fails, how much a read returns,
  how the kernel answers and where the link to the host breaks.
\<close>

section \<open>The sandbox\<close>

datatype io_kind = NotFound | PermissionDenied | OtherIo

record guest_file =
  fl_data :: string
  fl_mode :: int

record GuestState =
  gt_token :: string
  gt_process :: process
  gt_hooks :: hooks
  gt_ready :: bool
  gt_ready_cmd_exit :: int
  gt_last_user_activity_ms :: ms
  gt_idle_declared_ms :: ms

text \<open>
  \<open>g_faults\<close>: for each file operation in turn, whether it fails, and how many bytes a failing
  write leaves behind.  \<open>g_reads\<close>: how many bytes beyond the first each read may return.
  \<open>g_link\<close>: after how many frames the stream from the host goes quiet or breaks.
\<close>

datatype link_end = Quiet | Broken Status

record kernel =
  k_opens :: bool
  k_add_entropy :: bool
  k_reseed :: bool
  k_set_clock :: bool

text \<open>
  A spawned command: whether it starts, when it exits and with which status, and what each
  drain task has read by the time it is collected; \<^const>\<open>None\<close> is a task that panicked or
  outlived its grace.
\<close>

record child =
  ch_spawn :: "string option"
  ch_elapsed_ms :: int
  ch_wait :: "string + int option"
  ch_stdout :: "string list option"
  ch_stderr :: "string list option"

record guest =
  g_state :: GuestState
  g_now :: ms
  g_files :: "string \<rightharpoonup> guest_file"
  g_umask :: int
  g_faults :: "(io_kind \<times> nat) option list"
  g_reads :: "nat list"
  g_link :: "(nat \<times> link_end) option"
  g_kernel :: kernel
  g_env :: "string \<rightharpoonup> string"
  g_spawn :: "string list \<Rightarrow> (string \<rightharpoonup> string) \<Rightarrow> string \<Rightarrow> child"
  g_pool :: "string list"
  g_rekeyed :: "nat option"

type_synonym 'a gact = "(guest, 'a) state"

abbreviation ret :: "'a \<Rightarrow> 'a gact" where
  "ret x \<equiv> State_Monad.return x"

definition looking :: "(guest \<Rightarrow> 'a) \<Rightarrow> 'a gact" where
  "looking f = State (\<lambda>g. (f g, g))"

definition acting :: "(guest \<Rightarrow> 'a \<times> guest) \<Rightarrow> 'a gact" where
  "acting f = State f"

definition next_fault :: "(io_kind \<times> nat) option gact" where
  "next_fault = State (\<lambda>g. case g_faults g of [] \<Rightarrow> (None, g) | f # fs \<Rightarrow> (f, g\<lparr>g_faults := fs\<rparr>))"

section \<open>state.rs\<close>

definition new_state :: "string \<Rightarrow> process \<Rightarrow> hooks \<Rightarrow> ms \<Rightarrow> GuestState" where
  "new_state token process hooks now =
     \<lparr>gt_token = token, gt_process = process, gt_hooks = hooks, gt_ready = False, gt_ready_cmd_exit = 0,
      gt_last_user_activity_ms = now, gt_idle_declared_ms = 0\<rparr>"

definition byte :: "char \<Rightarrow> 8 word" where
  "byte c = word_of_nat (of_char c)"

definition token_matches :: "GuestState \<Rightarrow> string \<Rightarrow> bool" where
  "token_matches s presented =
     (if length (gt_token s) \<noteq> length presented then False
      else foldl (\<lambda>acc (a, b). acc OR (byte a XOR byte b)) 0 (zip (gt_token s) presented) = 0)"

definition on_state :: "(GuestState \<Rightarrow> GuestState) \<Rightarrow> unit gact" where
  "on_state f = State (\<lambda>g. ((), g\<lparr>g_state := f (g_state g)\<rparr>))"

definition mark_activity :: "unit gact" where
  "mark_activity = State (\<lambda>g. ((), g\<lparr>g_state := (g_state g)\<lparr>gt_last_user_activity_ms := g_now g\<rparr>\<rparr>))"

definition declare_idle :: "unit gact" where
  "declare_idle = State (\<lambda>g. ((), g\<lparr>g_state := (g_state g)\<lparr>gt_idle_declared_ms := g_now g\<rparr>\<rparr>))"

definition idle_declared_ms :: "GuestState \<Rightarrow> ms option" where
  "idle_declared_ms s = (if gt_idle_declared_ms s = 0 then None else Some (gt_idle_declared_ms s))"

section \<open>cmd.rs\<close>

definition TAIL_LIMIT :: nat where
  "TAIL_LIMIT = 4096"

record Tail =
  tl_kept :: string
  tl_dropped :: nat

definition tail_new :: Tail where
  "tail_new = \<lparr>tl_kept = [], tl_dropped = 0\<rparr>"

text \<open>The \<open>while\<close> loop of \<open>push\<close> pops one byte at a time from the front.\<close>

function pop_front_while :: "Tail \<Rightarrow> Tail" where
  "pop_front_while t =
     (if TAIL_LIMIT < length (tl_kept t)
      then pop_front_while \<lparr>tl_kept = tl (tl_kept t), tl_dropped = tl_dropped t + 1\<rparr>
      else t)"
  by auto
termination
  by (relation "measure (length \<circ> tl_kept)") auto

declare pop_front_while.simps [simp del]

definition tail_push :: "Tail \<Rightarrow> string \<Rightarrow> Tail" where
  "tail_push t bytes =
     (let keep = min (length bytes) TAIL_LIMIT
      in pop_front_while \<lparr>tl_kept = tl_kept t @ drop (length bytes - keep) bytes,
                          tl_dropped = tl_dropped t + (length bytes - keep)\<rparr>)"

text \<open>\<open>lossy\<close> is \<open>String::from_utf8_lossy\<close>.\<close>

definition into_string :: "(string \<Rightarrow> string) \<Rightarrow> Tail \<Rightarrow> string" where
  "into_string lossy t =
     (if tl_dropped t = 0 then lossy (tl_kept t)
      else ''['' @ dec (tl_dropped t) @ '' earlier bytes dropped; keeping the last '' @ dec TAIL_LIMIT
           @ '']'' @ [char_of (10 :: nat)] @ lossy (tl_kept t))"

definition drain :: "string list \<Rightarrow> Tail" where
  "drain reads = foldl tail_push tail_new reads"

record Outcome =
  oc_exit_code :: int
  oc_timed_out :: bool
  oc_stdout_tail :: string
  oc_stderr_tail :: string

definition succeeded :: "Outcome \<Rightarrow> bool" where
  "succeeded out \<longleftrightarrow> \<not> oc_timed_out out \<and> oc_exit_code out = 0"

definition collect :: "(string \<Rightarrow> string) \<Rightarrow> string list option \<Rightarrow> string" where
  "collect lossy reads = (case reads of None \<Rightarrow> [] | Some rs \<Rightarrow> into_string lossy (drain rs))"

definition cmd_run ::
  "(string \<Rightarrow> string) \<Rightarrow> string list \<Rightarrow> int option \<Rightarrow> child \<Rightarrow> string + Outcome" where
  "cmd_run lossy argv timeout c =
     (case argv of
        [] \<Rightarrow> Inl ''empty command''
      | program # args \<Rightarrow>
          (case ch_spawn c of
             Some e \<Rightarrow> Inl e
           | None \<Rightarrow>
               (let exited = (case ch_wait c of
                      Inl e \<Rightarrow> Inl e
                    | Inr code \<Rightarrow> Inr \<lparr>oc_exit_code = (case code of Some n \<Rightarrow> n | None \<Rightarrow> -1), oc_timed_out = False,
                                      oc_stdout_tail = collect lossy (ch_stdout c),
                                      oc_stderr_tail = collect lossy (ch_stderr c)\<rparr>)
                in case timeout of
                     None \<Rightarrow> exited
                   | Some limit \<Rightarrow>
                       if ch_elapsed_ms c \<le> limit then exited
                       else (let killed = ''killed after '' @ dec_i limit @ '' ms''
                             in Inr \<lparr>oc_exit_code = -1, oc_timed_out = True,
                                   oc_stdout_tail = collect lossy (ch_stdout c),
                                   oc_stderr_tail = (case collect lossy (ch_stderr c) of
                                       [] \<Rightarrow> killed
                                     | said \<Rightarrow> killed @ [char_of (10 :: nat)] @ said)\<rparr>))))"

section \<open>What a child inherits\<close>

definition BOOTSTRAP_ENV_VARS :: "string list" where
  "BOOTSTRAP_ENV_VARS =
     [''BARISTA_INSTANCE_TOKEN'', ''BARISTA_INSTANCE_TOKEN_FILE'', ''BARISTA_GUEST_SOCKET'', ''BARISTA_WORKLOAD_SOCKET'',
      ''BARISTA_GUEST_TCP_PORT'', ''BARISTA_GUEST_TLS_KEY_FILE'', ''BARISTA_GUEST_TLS_CERT_FILE'',
      ''BARISTA_GUEST_TLS_ANCHOR_FILE'', ''BARISTA_GUEST_PROCESS'', ''BARISTA_GUEST_HOOKS'']"

definition child_env :: "(string \<rightharpoonup> string) \<Rightarrow> (string \<rightharpoonup> string) \<Rightarrow> string \<rightharpoonup> string" where
  "child_env agent_env env = fold (\<lambda>var e. e(var := None)) BOOTSTRAP_ENV_VARS agent_env ++ env"

definition workload_env :: "(string \<rightharpoonup> string) \<Rightarrow> process \<Rightarrow> string option \<Rightarrow> string \<rightharpoonup> string" where
  "workload_env agent_env p workload_socket =
     (let e = (child_env agent_env (proc_env p))(''BARISTA_WORKLOAD_SOCKET'' := None)
      in case workload_socket of None \<Rightarrow> e | Some sock \<Rightarrow> e(''BARISTA_WORKLOAD_SOCKET'' \<mapsto> sock))"

definition workload_command ::
  "(string \<rightharpoonup> string) \<Rightarrow> process \<Rightarrow> string option \<Rightarrow> (string list \<times> (string \<rightharpoonup> string) \<times> string) option" where
  "workload_command agent_env p workload_socket =
     (case proc_start_cmd p of
        [] \<Rightarrow> None
      | argv \<Rightarrow> Some (argv, workload_env agent_env p workload_socket, proc_workdir p))"

definition run :: "(string \<Rightarrow> string) \<Rightarrow> string list \<Rightarrow> (string \<rightharpoonup> string) \<Rightarrow> string \<Rightarrow> int option \<Rightarrow> (string + Outcome) gact" where
  "run lossy argv env workdir timeout =
     State (\<lambda>g. (cmd_run lossy argv timeout (g_spawn g argv (child_env (g_env g) env) workdir), g))"

section \<open>Readiness and hooks\<close>

definition ready_verdict :: "(string \<Rightarrow> string) \<Rightarrow> process \<Rightarrow> (bool \<times> int) gact" where
  "ready_verdict lossy p =
     (if proc_ready_cmd p = [] then ret (True, 0)
      else do {
        r \<leftarrow> run lossy (proc_ready_cmd p) (proc_env p) (proc_workdir p) None;
        ret (case r of Inr out \<Rightarrow> (succeeded out, oc_exit_code out) | Inl e \<Rightarrow> (False, -1)) })"

definition evaluate_ready :: "(string \<Rightarrow> string) \<Rightarrow> bool gact" where
  "evaluate_ready lossy = do {
     p \<leftarrow> looking (\<lambda>g. gt_process (g_state g));
     verdict \<leftarrow> ready_verdict lossy p;
     on_state (\<lambda>s. s\<lparr>gt_ready := fst verdict, gt_ready_cmd_exit := snd verdict\<rparr>);
     ret (fst verdict) }"

definition health :: "(string \<Rightarrow> string) \<Rightarrow> bool \<Rightarrow> HealthResponse gact" where
  "health lossy run_ready_cmd = do {
     ready \<leftarrow> (if run_ready_cmd then evaluate_ready lossy else looking (\<lambda>g. gt_ready (g_state g)));
     looking (\<lambda>g. \<lparr>hr_ready = ready, hr_idle_declared = map_option ts (idle_declared_ms (g_state g)),
                  hr_last_user_activity = Some (ts (gt_last_user_activity_ms (g_state g)))\<rparr>) }"

definition DEFAULT_HOOK_TIMEOUT :: int where
  "DEFAULT_HOOK_TIMEOUT = 30000"

definition hook_timeout :: "int \<Rightarrow> int \<Rightarrow> int" where
  "hook_timeout requested_ms configured_ms =
     (if requested_ms = 0 then if configured_ms = 0 then DEFAULT_HOOK_TIMEOUT else configured_ms
      else requested_ms)"

record RunHookResponse =
  rh_ran :: bool
  rh_timed_out :: bool
  rh_exit_code :: int
  rh_stdout_tail :: string
  rh_stderr_tail :: string

text \<open>An unset or unknown hook kind is \<^const>\<open>None\<close>.\<close>

definition run_hook :: "(string \<Rightarrow> string) \<Rightarrow> HookKind option \<Rightarrow> int \<Rightarrow> (Status + RunHookResponse) gact" where
  "run_hook lossy kind timeout_ms = do {
     s \<leftarrow> looking g_state;
     case kind of
       None \<Rightarrow> ret (Inl (status GC_InvalidArgument ''hook kind is required''))
     | Some k \<Rightarrow> do {
         let (argv, configured) = (case k of
           PreSnapshot \<Rightarrow> (hk_pre_snapshot_cmd (gt_hooks s), hk_pre_snapshot_timeout_ms (gt_hooks s))
         | PostRestore \<Rightarrow> (hk_post_restore_cmd (gt_hooks s), hk_post_restore_timeout_ms (gt_hooks s)));
         if argv = []
         then ret (Inr \<lparr>rh_ran = False, rh_timed_out = False, rh_exit_code = 0, rh_stdout_tail = [], rh_stderr_tail = []\<rparr>)
         else do {
           r \<leftarrow> run lossy argv (proc_env (gt_process s)) (proc_workdir (gt_process s)) (Some (hook_timeout timeout_ms configured));
           ret (case r of
                     Inl e \<Rightarrow> Inl (status GC_Internal (''running hook: '' @ e))
                   | Inr out \<Rightarrow> Inr \<lparr>rh_ran = True, rh_timed_out = oc_timed_out out, rh_exit_code = oc_exit_code out,
                                     rh_stdout_tail = oc_stdout_tail out, rh_stderr_tail = oc_stderr_tail out\<rparr>) } } }"

section \<open>Files\<close>

definition io_status :: "string \<Rightarrow> io_kind \<Rightarrow> Status" where
  "io_status file e =
     (case e of
        NotFound \<Rightarrow> status GC_NotFound (file @ '': not found'')
      | PermissionDenied \<Rightarrow> status GC_PermissionDenied (file @ '': permission denied'')
      | OtherIo \<Rightarrow> status GC_Internal (file @ '': i/o error''))"

definition file_step :: "(guest \<Rightarrow> guest) \<Rightarrow> (nat \<Rightarrow> guest \<Rightarrow> guest) \<Rightarrow> io_kind option gact" where
  "file_step effect partial = do {
     fault \<leftarrow> next_fault;
     acting (\<lambda>g. case fault of None \<Rightarrow> (None, effect g) | Some (e, n) \<Rightarrow> (Some e, partial n g)) }"

text \<open>\<open>open\<close> with \<open>create\<close> and \<open>truncate\<close>: the requested mode, narrowed by the umask, is that of a new file only.\<close>

definition create_truncate :: "string \<Rightarrow> int \<Rightarrow> guest \<Rightarrow> guest" where
  "create_truncate file mode g =
     g\<lparr>g_files := (g_files g)(file \<mapsto>
        (case g_files g file of
           Some f \<Rightarrow> f\<lparr>fl_data := []\<rparr>
         | None \<Rightarrow> \<lparr>fl_data = [], fl_mode = mode AND NOT (g_umask g)\<rparr>))\<rparr>"

definition append_to :: "string \<Rightarrow> string \<Rightarrow> guest \<Rightarrow> guest" where
  "append_to file bytes g =
     g\<lparr>g_files := (g_files g)(file := map_option (\<lambda>f. f\<lparr>fl_data := fl_data f @ bytes\<rparr>) (g_files g file))\<rparr>"

definition chmod :: "string \<Rightarrow> int \<Rightarrow> guest \<Rightarrow> guest" where
  "chmod file mode g =
     g\<lparr>g_files := (g_files g)(file := map_option (\<lambda>f. f\<lparr>fl_mode := mode\<rparr>) (g_files g file))\<rparr>"

section \<open>WriteFile\<close>

text \<open>What the host's stream yields here: its frames, cut where the link ends early.\<close>

datatype arrival = Frame "GuestWrite option" | Ended link_end

definition arrivals :: "(nat \<times> link_end) option \<Rightarrow> GuestWrite option list \<Rightarrow> arrival list" where
  "arrivals link frames =
     (case link of
        None \<Rightarrow> map Frame frames
      | Some (n, e) \<Rightarrow> map Frame (take n frames) @ [Ended e])"

definition went_quiet :: Status where
  "went_quiet = status GC_DeadlineExceeded ''WriteFile stream went quiet''"

fun link_status :: "link_end \<Rightarrow> Status" where
  "link_status Quiet = went_quiet"
| "link_status (Broken st) = st"

text \<open>\<open>next_write_frame\<close>: the next frame, the end of the stream, or why there is neither.\<close>

fun next_write_frame :: "arrival list \<Rightarrow> (Status + GuestWrite option option) \<times> arrival list" where
  "next_write_frame [] = (Inr None, [])"
| "next_write_frame (Frame f # rest) = (Inr (Some f), rest)"
| "next_write_frame (Ended e # rest) = (Inl (link_status e), rest)"

fun write_each :: "string \<Rightarrow> arrival list \<Rightarrow> int \<Rightarrow> (Status + int) gact" where
  "write_each file [] written = ret (Inr written)"
| "write_each file (Ended e # _) written = ret (Inl (link_status e))"
| "write_each file (Frame (Some (GW_Chunk bytes)) # inbound) written = do {
     e \<leftarrow> file_step (append_to file bytes) (\<lambda>n. append_to file (take n bytes));
     case e of
       Some e \<Rightarrow> ret (Inl (io_status file e))
     | None \<Rightarrow> write_each file inbound (written + int (length bytes)) }"
| "write_each file (Frame (Some (GW_Open _ _)) # _) written =
     ret (Inl (status GC_InvalidArgument ''`open` may only be the first frame''))"
| "write_each file (Frame None # inbound) written = write_each file inbound written"

definition write_file_bounded :: "arrival list \<Rightarrow> (Status + int) gact" where
  "write_file_bounded inbound =
     (case next_write_frame inbound of
        (Inl st, _) \<Rightarrow> ret (Inl st)
      | (Inr None, _) \<Rightarrow> ret (Inl (status GC_InvalidArgument ''WriteFile stream closed before `open`''))
      | (Inr (Some (Some (GW_Open file mode))), rest) \<Rightarrow> do {
          e \<leftarrow> file_step (create_truncate file (if mode \<noteq> 0 then mode else 438)) (\<lambda>_. id);
          case e of
            Some e \<Rightarrow> ret (Inl (io_status file e))
          | None \<Rightarrow> do {
              r \<leftarrow> write_each file rest 0;
              case r of
                Inl st \<Rightarrow> ret (Inl st)
              | Inr written \<Rightarrow> do {
                  e \<leftarrow> file_step id (\<lambda>_. id);
                  case e of
                    Some e \<Rightarrow> ret (Inl (io_status file e))
                  | None \<Rightarrow>
                      if mode \<noteq> 0
                      then do {
                        e \<leftarrow> file_step (chmod file mode) (\<lambda>_. id);
                        ret (case e of Some e \<Rightarrow> Inl (io_status file e) | None \<Rightarrow> Inr written) }
                      else ret (Inr written) } } }
      | (Inr (Some _), _) \<Rightarrow> ret (Inl (status GC_InvalidArgument ''the first WriteFile frame must be `open`'')))"

text \<open>
  The verb as the host's client sees it.  An answer that is not an error was given at the end of
  the stream, so the host's half was polled once more than it has frames.
\<close>

definition guest_write_file :: "GuestWrite option list \<Rightarrow> ((Status + int) \<times> nat) gact" where
  "guest_write_file frames = do {
     mark_activity;
     link \<leftarrow> looking g_link;
     r \<leftarrow> write_file_bounded (arrivals link frames);
     ret (r, case r of Inr _ \<Rightarrow> Suc (length frames) | Inl _ \<Rightarrow> (case link of None \<Rightarrow> length frames | Some (n, _) \<Rightarrow> min n (length frames))) }"

section \<open>ReadFile\<close>

definition FILE_CHUNK :: nat where
  "FILE_CHUNK = 64 * 1024"

definition data_chunk :: "string \<Rightarrow> GuestChunk" where
  "data_chunk bytes = \<lparr>gk_data = bytes, gk_eof = False\<rparr>"

definition eof_chunk :: GuestChunk where
  "eof_chunk = \<lparr>gk_data = [], gk_eof = True\<rparr>"

definition want_bytes :: "nat \<Rightarrow> nat \<Rightarrow> nat" where
  "want_bytes limit sent = (if limit = 0 then FILE_CHUNK else min (limit - sent) FILE_CHUNK)"

definition first_fault :: "(io_kind \<times> nat) option list \<Rightarrow> io_kind option" where
  "first_fault faults = (case faults of [] \<Rightarrow> None | f # _ \<Rightarrow> map_option fst f)"

text \<open>A read of \<open>want\<close> bytes with \<open>left\<close> bytes before the end returns at least one and at most both.\<close>

definition read_size :: "nat \<Rightarrow> nat \<Rightarrow> nat list \<Rightarrow> nat" where
  "read_size want left reads = min (min want left) (case reads of [] \<Rightarrow> want | r # _ \<Rightarrow> Suc r)"

lemma read_size_pos: "0 < want \<Longrightarrow> 0 < left \<Longrightarrow> 0 < read_size want left reads"
  by (simp add: read_size_def split: list.split)

text \<open>The task behind the response; \<open>rest\<close> is what the file still holds from the current position on.\<close>

function read_loop ::
  "string \<Rightarrow> nat \<Rightarrow> nat \<Rightarrow> string \<Rightarrow> nat list \<Rightarrow> (io_kind \<times> nat) option list \<Rightarrow> (Status + GuestChunk) list" where
  "read_loop file limit sent rest reads faults =
     (if want_bytes limit sent = 0 then [Inr eof_chunk]
      else if first_fault faults \<noteq> None then [Inl (io_status file (the (first_fault faults)))]
      else if rest = [] then [Inr eof_chunk]
      else let n = read_size (want_bytes limit sent) (length rest) reads
           in Inr (data_chunk (take n rest)) # read_loop file limit (sent + n) (drop n rest) (tl reads) (tl faults))"
  by pat_completeness auto
termination
proof (relation "measure (\<lambda>(file, limit, sent, rest, reads, faults). length rest)")
  fix f :: string and limit sent rest reads and faults :: "(io_kind \<times> nat) option list" and n
  assume "want_bytes limit sent \<noteq> 0" "rest \<noteq> []" "n = read_size (want_bytes limit sent) (length rest) reads"
  hence "0 < n" using read_size_pos by simp
  thus "((f, limit, sent + n, drop n rest, tl reads, tl faults), f, limit, sent, rest, reads, faults)
      \<in> measure (\<lambda>(file, limit, sent, rest, reads, faults). length rest)"
    using \<open>rest \<noteq> []\<close> by simp
qed simp

declare read_loop.simps [simp del]

definition guest_read_file :: "GuestRead \<Rightarrow> (Status + (Status + GuestChunk) list) gact" where
  "guest_read_file r = do {
     mark_activity;
     fault \<leftarrow> next_fault;
     g \<leftarrow> looking (\<lambda>g. g);
     case (fault, g_files g (gr_path r)) of
       (Some (e, _), _) \<Rightarrow> ret (Inl (io_status (gr_path r) e))
     | (None, None) \<Rightarrow> ret (Inl (io_status (gr_path r) NotFound))
     | (None, Some f) \<Rightarrow> do {
         fault \<leftarrow> (if gr_offset r > 0 then next_fault else ret None);
         case fault of
           Some (e, _) \<Rightarrow> ret (Inl (io_status (gr_path r) e))
         | None \<Rightarrow> acting (\<lambda>g. (Inr (read_loop (gr_path r) (nat (gr_limit r)) 0 (drop (nat (gr_offset r)) (fl_data f))
                                      (g_reads g) (g_faults g)), g\<lparr>g_faults := []\<rparr>)) } }"

section \<open>Duties after a restore\<close>

text \<open>
  \<open>duties.rs\<close>.  Opening \<open>/dev/urandom\<close>, the two ioctls and setting the clock are the
  \<^typ>\<open>kernel\<close>'s to answer.  \<open>g_pool\<close> is what was mixed in, in order; \<open>g_rekeyed\<close> is how much
  of it the generator had been keyed from when it was last told to.
\<close>

datatype duty_note =
    NotRekeyed | NotCredited | NotReseeded io_kind | ClockNotStepped
  | CarrierNotRemoved int io_kind | CarrierNotPlaced int io_kind

record Reseed =
  rs_bytes_mixed :: int
  rs_credited :: bool
  rs_degraded :: "duty_note option"

definition reseed :: "string \<Rightarrow> Reseed gact" where
  "reseed entropy = do {
     k \<leftarrow> looking g_kernel;
     if k_opens k \<and> k_add_entropy k
     then acting (\<lambda>g. let g = g\<lparr>g_pool := g_pool g @ [entropy]\<rparr> in
            (\<lparr>rs_bytes_mixed = int (length entropy), rs_credited = True,
              rs_degraded = (if k_reseed k then None else Some NotRekeyed)\<rparr>,
             if k_reseed k then g\<lparr>g_rekeyed := Some (length (g_pool g))\<rparr> else g))
     else if k_opens k
     then do {
       e \<leftarrow> file_step (\<lambda>g. g\<lparr>g_pool := g_pool g @ [entropy]\<rparr>) (\<lambda>_. id);
       ret (case e of
              None \<Rightarrow> \<lparr>rs_bytes_mixed = int (length entropy), rs_credited = False, rs_degraded = Some NotCredited\<rparr>
            | Some e \<Rightarrow> \<lparr>rs_bytes_mixed = 0, rs_credited = False, rs_degraded = Some (NotReseeded e)\<rparr>) }
     else ret \<lparr>rs_bytes_mixed = 0, rs_credited = False, rs_degraded = Some (NotReseeded NotFound)\<rparr> }"

definition step_clock :: "ms \<Rightarrow> (bool \<times> duty_note option) gact" where
  "step_clock target_ms = do {
     k \<leftarrow> looking g_kernel;
     if k_set_clock k then acting (\<lambda>g. ((True, None), g\<lparr>g_now := target_ms\<rparr>))
     else ret (False, Some ClockNotStepped) }"

record CarrierOutcome =
  co_present :: bool
  co_epoch :: int
  co_degraded :: "duty_note option"

text \<open>Removing a file that is not there is no failure.\<close>

definition remove_file :: "string \<Rightarrow> io_kind option gact" where
  "remove_file file = do {
     fault \<leftarrow> next_fault;
     acting (\<lambda>g. let gone = g\<lparr>g_files := (g_files g)(file := None)\<rparr> in
       case fault of None \<Rightarrow> (None, gone) | Some (NotFound, _) \<Rightarrow> (None, gone) | Some (e, _) \<Rightarrow> (Some e, g)) }"

definition place_grant_carrier :: "string \<Rightarrow> int \<Rightarrow> string \<Rightarrow> CarrierOutcome gact" where
  "place_grant_carrier file epoch carrier =
     (if carrier = []
      then do {
        e \<leftarrow> remove_file file;
        ret \<lparr>co_present = False, co_epoch = epoch, co_degraded = map_option (CarrierNotRemoved epoch) e\<rparr> }
      else do {
        e \<leftarrow> file_step (create_truncate file 384) (\<lambda>_. id);
        e \<leftarrow> (case e of
                None \<Rightarrow> file_step (append_to file carrier) (\<lambda>n. append_to file (take n carrier))
              | Some _ \<Rightarrow> ret e);
        e \<leftarrow> (case e of None \<Rightarrow> file_step id (\<lambda>_. id) | Some _ \<Rightarrow> ret e);
        ret (case e of
               None \<Rightarrow> \<lparr>co_present = True, co_epoch = epoch, co_degraded = None\<rparr>
             | Some e \<Rightarrow> \<lparr>co_present = False, co_epoch = epoch, co_degraded = Some (CarrierNotPlaced epoch e)\<rparr>) })"

record RestoreDutiesRequest =
  dq_entropy :: string
  dq_host_time :: "timestamp option"
  dq_execution_epoch :: int
  dq_grant_carrier :: string

record RestoreDutiesResponse =
  dr_entropy_bytes_mixed :: int
  dr_entropy_credited :: bool
  dr_clock_drift_ms :: int
  dr_clock_stepped :: bool
  dr_degraded :: "duty_note list"
  dr_grant_rebound :: bool

text \<open>The notes stand for the text that is joined into \<open>degraded\<close>.\<close>

definition duties :: "RestoreDutiesRequest \<Rightarrow> ms \<Rightarrow> string \<Rightarrow> RestoreDutiesResponse gact" where
  "duties request guest_now_ms carrier_path = do {
     seeded \<leftarrow> reseed (dq_entropy request);
     clock \<leftarrow> (case dq_host_time request of
        None \<Rightarrow> ret (0, False, None)
      | Some host \<Rightarrow> do {
          let host_ms = t_seconds host * 1000 + trunc_div (t_nanos host) 1000000;
          (stepped, why) \<leftarrow> step_clock host_ms;
          ret (guest_now_ms - host_ms, stepped, why) });
     carrier \<leftarrow> place_grant_carrier carrier_path (dq_execution_epoch request) (dq_grant_carrier request);
     ret \<lparr>dr_entropy_bytes_mixed = rs_bytes_mixed seeded, dr_entropy_credited = rs_credited seeded,
          dr_clock_drift_ms = fst clock, dr_clock_stepped = fst (snd clock),
          dr_degraded = List.map_filter id [rs_degraded seeded, snd (snd clock), co_degraded carrier],
          dr_grant_rebound = co_present carrier\<rparr> }"

definition DEFAULT_GRANT_CARRIER :: string where
  "DEFAULT_GRANT_CARRIER = ''/run/barista/grant-carrier''"

definition run_restore_duties :: "RestoreDutiesRequest \<Rightarrow> (Status + RestoreDutiesResponse) gact" where
  "run_restore_duties r =
     (if dq_entropy r = [] then ret (Inl (status GC_InvalidArgument ''restore duties require host entropy''))
      else do {
        now \<leftarrow> looking g_now;
        resp \<leftarrow> duties r now DEFAULT_GRANT_CARRIER;
        ret (Inr resp) })"

section \<open>The channel\<close>

definition token_interceptor :: "GuestState \<Rightarrow> string option \<Rightarrow> Status + unit" where
  "token_interceptor s metadata =
     (if token_matches s (case metadata of Some v \<Rightarrow> v | None \<Rightarrow> [])
      then Inr () else Inl (status GC_Unauthenticated ''invalid or missing barista-instance-token''))"

definition network_port :: "int option \<Rightarrow> bool \<Rightarrow> int option" where
  "network_port configured has_identity =
     (case configured of Some port \<Rightarrow> if has_identity then Some port else None | None \<Rightarrow> None)"

definition trim :: "string \<Rightarrow> string" where
  "trim s = rev (dropWhile is_whitespace (rev (dropWhile is_whitespace s)))"

text \<open>\<open>parse\<close> is \<open>str::parse::<u16>\<close>, \<open>read\<close> the content of a file.\<close>

definition parse_tcp_port :: "(string \<Rightarrow> int option) \<Rightarrow> (string \<rightharpoonup> string) \<Rightarrow> string + int option" where
  "parse_tcp_port parse_u16 env =
     (case env ''BARISTA_GUEST_TCP_PORT'' of
        None \<Rightarrow> Inr None
      | Some v \<Rightarrow>
          if trim v = [] then Inr None
          else case parse_u16 (trim v) of
            None \<Rightarrow> Inl (''BARISTA_GUEST_TCP_PORT is not a port number: '' @ v)
          | Some port \<Rightarrow> Inr (if port \<noteq> 0 then Some port else None))"

definition read_token :: "(string \<rightharpoonup> string) \<Rightarrow> (string \<Rightarrow> string option) \<Rightarrow> string + string" where
  "read_token env content =
     (case env ''BARISTA_INSTANCE_TOKEN_FILE'' of
        Some file \<Rightarrow>
          if trim file \<noteq> []
          then (case content (trim file) of
                  None \<Rightarrow> Inl (''reading the instance token from '' @ file)
                | Some token \<Rightarrow> Inr (trim token))
          else Inr (case env ''BARISTA_INSTANCE_TOKEN'' of Some v \<Rightarrow> v | None \<Rightarrow> [])
      | None \<Rightarrow> Inr (case env ''BARISTA_INSTANCE_TOKEN'' of Some v \<Rightarrow> v | None \<Rightarrow> []))"

record GuestIdentity =
  gi_cert :: string
  gi_key :: string
  gi_anchor :: string

definition named_file :: "(string \<rightharpoonup> string) \<Rightarrow> string \<Rightarrow> string option" where
  "named_file env var =
     (case env var of Some f \<Rightarrow> if trim f \<noteq> [] then Some (trim f) else None | None \<Rightarrow> None)"

definition read_named :: "(string \<Rightarrow> string option) \<Rightarrow> string \<Rightarrow> string \<Rightarrow> string + string" where
  "read_named content var file =
     (case content file of
        None \<Rightarrow> Inl (''reading '' @ var @ '' from '' @ file)
      | Some bytes \<Rightarrow> if bytes = [] then Inl (var @ '' names '' @ file @ '', which is empty'') else Inr bytes)"

definition read_identity :: "(string \<rightharpoonup> string) \<Rightarrow> (string \<Rightarrow> string option) \<Rightarrow> string + GuestIdentity option" where
  "read_identity env content =
     (case (named_file env ''BARISTA_GUEST_TLS_CERT_FILE'', named_file env ''BARISTA_GUEST_TLS_KEY_FILE'',
            named_file env ''BARISTA_GUEST_TLS_ANCHOR_FILE'') of
        (None, None, None) \<Rightarrow> Inr None
      | (Some cert, Some key, Some anchor) \<Rightarrow>
          (case read_named content ''BARISTA_GUEST_TLS_CERT_FILE'' cert of
             Inl e \<Rightarrow> Inl e
           | Inr c \<Rightarrow> (case read_named content ''BARISTA_GUEST_TLS_KEY_FILE'' key of
                Inl e \<Rightarrow> Inl e
              | Inr k \<Rightarrow> (case read_named content ''BARISTA_GUEST_TLS_ANCHOR_FILE'' anchor of
                   Inl e \<Rightarrow> Inl e
                 | Inr a \<Rightarrow> Inr (Some \<lparr>gi_cert = c, gi_key = k, gi_anchor = a\<rparr>))))
      | _ \<Rightarrow> Inl ''the channel identity is incomplete'')"

text \<open>\<open>decode_process\<close> and \<open>decode_hooks\<close> are the base64 and prost decoders of the two messages.\<close>

definition decode_var :: "(string \<Rightarrow> 'm option) \<Rightarrow> 'm \<Rightarrow> (string \<rightharpoonup> string) \<Rightarrow> string \<Rightarrow> string + 'm" where
  "decode_var parse_m absent env var =
     (case env var of
        Some v \<Rightarrow> if v = [] then Inr absent else (case parse_m (trim v) of Some m \<Rightarrow> Inr m | None \<Rightarrow> Inl var)
      | None \<Rightarrow> Inr absent)"

record Bootstrap =
  bs_token :: string
  bs_process :: process
  bs_hooks :: hooks
  bs_identity :: "GuestIdentity option"

definition guest_from_env ::
  "(string \<Rightarrow> process option) \<Rightarrow> (string \<Rightarrow> hooks option) \<Rightarrow> process \<Rightarrow> hooks
   \<Rightarrow> (string \<rightharpoonup> string) \<Rightarrow> (string \<Rightarrow> string option) \<Rightarrow> string + Bootstrap" where
  "guest_from_env decode_process decode_hooks no_process no_hooks env content =
     (case read_token env content of
        Inl e \<Rightarrow> Inl e
      | Inr token \<Rightarrow>
          if token = [] then Inl ''BARISTA_INSTANCE_TOKEN_FILE or BARISTA_INSTANCE_TOKEN is required''
          else case decode_var decode_process no_process env ''BARISTA_GUEST_PROCESS'' of
            Inl e \<Rightarrow> Inl e
          | Inr p \<Rightarrow> (case decode_var decode_hooks no_hooks env ''BARISTA_GUEST_HOOKS'' of
               Inl e \<Rightarrow> Inl e
             | Inr h \<Rightarrow> (case read_identity env content of
                  Inl e \<Rightarrow> Inl e
                | Inr i \<Rightarrow> Inr \<lparr>bs_token = token, bs_process = p, bs_hooks = h, bs_identity = i\<rparr>)))"

end
