(* ===== verification/Guest_Facts.thy ===== *)
theory Guest_Facts
  imports Guest_Agent
begin

text \<open>
  What the guest agent guarantees: its token check is equality, its diagnostics are the tail of
  what a command wrote in bounded memory, no child inherits the bootstrap environment, files
  arrive and leave unchanged, and restore duties replace the grant of the last epoch.
\<close>

section \<open>The token\<close>

lemma byte_inj: "byte a = byte b \<longleftrightarrow> a = b"
proof
  assume "byte a = byte b"
  hence "unat (byte a) = unat (byte b)" by simp
  moreover have "unat (byte c) = of_char c" for c
    by (simp add: byte_def unat_of_nat)
  ultimately show "a = b" by (metis char_of_char)
qed simp

lemma fold_or_zero:
  "foldl (\<lambda>acc (a, b). acc OR (byte a XOR byte b)) acc ps = 0 \<longleftrightarrow> acc = 0 \<and> list_all (\<lambda>(a, b). a = b) ps"
proof (induction ps arbitrary: acc)
  case (Cons p ps)
  obtain a b where p: "p = (a, b)" by fastforce
  have "(byte a XOR byte b = 0) = (byte a = byte b)"
    by (auto simp: bit_eq_iff bit_xor_iff)
  hence "(acc OR (byte a XOR byte b) = 0) = (acc = 0 \<and> a = b)"
    using byte_inj [of a b] by (simp add: or_eq_0_iff)
  thus ?case by (simp add: p Cons.IH)
qed simp

lemma zip_all_equal: "length xs = length ys \<Longrightarrow> list_all (\<lambda>(a, b). a = b) (zip xs ys) \<longleftrightarrow> xs = ys"
  by (induction xs ys rule: list_induct2) auto

text \<open>
  The constant-time token comparison is equality: it accepts exactly the instance's token,
  whatever the lengths and whichever byte differs.
\<close>

theorem token_matches_iff: "token_matches s presented \<longleftrightarrow> presented = gt_token s"
  by (auto simp: token_matches_def fold_or_zero zip_all_equal)

section \<open>Diagnostics\<close>

text \<open>What is kept of a stream of which \<open>s\<close> was written so far.\<close>

definition tail_of :: "string \<Rightarrow> Tail" where
  "tail_of s = \<lparr>tl_kept = drop (length s - TAIL_LIMIT) s, tl_dropped = length s - TAIL_LIMIT\<rparr>"

lemma pop_front_while_eq:
  "pop_front_while t = \<lparr>tl_kept = drop (length (tl_kept t) - TAIL_LIMIT) (tl_kept t),
     tl_dropped = tl_dropped t + (length (tl_kept t) - TAIL_LIMIT)\<rparr>"
proof (induction t rule: pop_front_while.induct)
  case (1 t)
  show ?case
  proof (cases "TAIL_LIMIT < length (tl_kept t)")
    case True
    hence "length (tl_kept t) - TAIL_LIMIT = Suc (length (tl_kept t) - Suc TAIL_LIMIT)" by simp
    with True 1 show ?thesis
      by (subst pop_front_while.simps) (simp add: drop_Suc)
  qed (subst pop_front_while.simps, simp)
qed

lemma tail_push_of: "tail_push (tail_of s) bytes = tail_of (s @ bytes)"
proof -
  let ?k = "drop (length s - TAIL_LIMIT) s @ drop (length bytes - min (length bytes) TAIL_LIMIT) bytes"
  have "drop (length ?k - TAIL_LIMIT) ?k = drop (length (s @ bytes) - TAIL_LIMIT) (s @ bytes)"
    by (cases "TAIL_LIMIT \<le> length s") (auto simp: min_def not_le add.commute)
  moreover have "length s - TAIL_LIMIT + (length bytes - min (length bytes) TAIL_LIMIT) + (length ?k - TAIL_LIMIT)
      = length (s @ bytes) - TAIL_LIMIT"
    by auto
  ultimately show ?thesis
    unfolding tail_push_def Let_def pop_front_while_eq by (simp add: tail_of_def)
qed

text \<open>
  C38: the bounded tail refines the stream.  The ring starts as the tail of nothing, pushing what
  was read moves it as appending moves the stream, so after any reads it is exactly the last
  4096 bytes of all that was written together with the number of bytes before them; and at no
  point does it hold more than 4096 bytes.
\<close>

theorem tail_refines_stream:
  "tail_new = tail_of []
   \<and> (\<forall>s bytes. tail_push (tail_of s) bytes = tail_of (s @ bytes))
   \<and> drain reads = tail_of (concat reads)
   \<and> length (tl_kept (tail_of s)) \<le> TAIL_LIMIT
   \<and> tl_dropped (tail_of s) + length (tl_kept (tail_of s)) = length s"
proof -
  have "foldl tail_push (tail_of s) reads = tail_of (s @ concat reads)" for s
    by (induction reads arbitrary: s) (simp_all add: tail_push_of)
  from this [of "[]"] have "drain reads = tail_of (concat reads)"
    by (simp add: drain_def tail_new_def tail_of_def)
  thus ?thesis by (simp add: tail_push_of) (auto simp: tail_new_def tail_of_def)
qed

section \<open>What a child inherits\<close>

lemma fold_remove: "fold (\<lambda>var e. e(var := None)) vars m = (\<lambda>v. if v \<in> set vars then None else m v)"
  by (induction vars arbitrary: m) auto

lemma child_env_eq: "child_env agent_env env v = (case env v of Some x \<Rightarrow> Some x | None \<Rightarrow> if v \<in> set BOOTSTRAP_ENV_VARS then None else agent_env v)"
  by (simp add: child_env_def fold_remove map_add_def)

text \<open>
  No process the agent starts inherits its credentials.  A hook or probe sees a variable of the
  bootstrap contract only if the spec sets it, and every other variable as the spec or the
  agent's environment has it; a workload likewise, except that the socket it declares
  idleness on is the agent's choice and absent when there is none.
\<close>

theorem children_inherit_no_credentials:
  "(list_all (\<lambda>v. child_env agent_env env v = env v) BOOTSTRAP_ENV_VARS)
   \<and> list_all (\<lambda>v. workload_env agent_env p sock v
        = (if v = ''BARISTA_WORKLOAD_SOCKET'' then sock else proc_env p v)) BOOTSTRAP_ENV_VARS
   \<and> (\<forall>v. v \<in> set BOOTSTRAP_ENV_VARS \<or> child_env agent_env env v = (case env v of Some x \<Rightarrow> Some x | None \<Rightarrow> agent_env v))"
proof -
  have "child_env agent_env e v = e v" if "v \<in> set BOOTSTRAP_ENV_VARS" for e v
    using that by (auto simp: child_env_eq split: option.split)
  moreover have "workload_env agent_env p sock v = (if v = ''BARISTA_WORKLOAD_SOCKET'' then sock else child_env agent_env (proc_env p) v)" for v
    by (simp add: workload_env_def Let_def split: option.split)
  ultimately show ?thesis
    by (auto simp: list_all_iff child_env_eq split: option.split)
qed

section \<open>Files\<close>

lemma run_next_fault: "\<exists>f fs. run_state next_fault g = (f, g\<lparr>g_faults := fs\<rparr>)"
  by (cases g) (auto simp: next_fault_def split: list.split)

text \<open>A file operation that is reported as done has had its effect, and has read no other oracle than the faults.\<close>

lemma file_step_done:
  assumes "run_state (file_step effect partial) g = (None, g')"
  shows "\<exists>fs. g' = effect (g\<lparr>g_faults := fs\<rparr>)"
  using assms run_next_fault [of g] by (auto simp: file_step_def acting_def split: prod.splits option.splits)

definition holds_file :: "string \<Rightarrow> string \<Rightarrow> guest \<Rightarrow> bool" where
  "holds_file file data g \<longleftrightarrow> map_option fl_data (g_files g file) = Some data"

lemma holds_append: "holds_file file data g \<Longrightarrow> holds_file file (data @ bytes) (append_to file bytes g)"
  by (auto simp: holds_file_def append_to_def)

lemma holds_create: "holds_file file [] (create_truncate file mode g)"
  by (simp add: holds_file_def create_truncate_def split: option.split)

lemma holds_chmod: "holds_file file data (chmod file mode g) \<longleftrightarrow> holds_file file data g"
  by (simp add: holds_file_def chmod_def option.map_comp comp_def)

lemma holds_faults [simp]: "holds_file file data (g\<lparr>g_faults := fs\<rparr>) \<longleftrightarrow> holds_file file data g"
  by (simp add: holds_file_def)

text \<open>The bytes of the chunks of a stream that carries nothing but chunks and empty messages.\<close>

fun payload :: "GuestWrite option list \<Rightarrow> string option" where
  "payload [] = Some []"
| "payload (Some (GW_Chunk bytes) # frames) = map_option ((@) bytes) (payload frames)"
| "payload (Some (GW_Open _ _) # _) = None"
| "payload (None # frames) = payload frames"

lemma write_each_done:
  assumes "run_state (write_each nm inbound written) g = (Inr n, g')" and "holds_file nm data g"
  shows "\<exists>frames bytes. inbound = map Frame frames \<and> payload frames = Some bytes
     \<and> n = written + int (length bytes) \<and> holds_file nm (data @ bytes) g'"
  using assms
proof (induction nm inbound written arbitrary: g data rule: write_each.induct)
  case (3 nm bytes inbound written)
  from "3.prems"(1) obtain g1 where g1: "run_state (file_step (append_to nm bytes) (\<lambda>n. append_to nm (take n bytes))) g = (None, g1)"
    and rest: "run_state (write_each nm inbound (written + int (length bytes))) g1 = (Inr n, g')"
    by (auto split: prod.splits option.splits)
  from file_step_done [OF g1] "3.prems"(2) have "holds_file nm (data @ bytes) g1"
    by (auto intro: holds_append)
  from "3.IH" [OF rest this] obtain frames more where "inbound = map Frame frames" "payload frames = Some more"
      "n = written + int (length bytes) + int (length more)" "holds_file nm ((data @ bytes) @ more) g'"
    by auto
  thus ?case by (intro exI [of _ "Some (GW_Chunk bytes) # frames"] exI [of _ "bytes @ more"]) simp
next
  case (5 nm inbound written)
  from "5.IH" [OF _ "5.prems"(2)] "5.prems"(1) obtain frames bytes where "inbound = map Frame frames"
      "payload frames = Some bytes" "n = written + int (length bytes)" "holds_file nm (data @ bytes) g'"
    by auto
  thus ?case by (intro exI [of _ "None # frames"] exI [of _ bytes]) simp
qed (auto intro: exI [of _ "[]"])

text \<open>A write that is answered with a count got an \<open>open\<close> and then chunks to the end, and the file holds them.\<close>

lemma write_file_bounded_done:
  assumes "run_state (write_file_bounded inbound) g = (Inr n, g')"
  shows "\<exists>nm mode frames bytes. inbound = map Frame (Some (GW_Open nm mode) # frames) \<and> payload frames = Some bytes
     \<and> n = int (length bytes) \<and> holds_file nm bytes g'"
proof -
  obtain nm mode rest where inbound: "inbound = Frame (Some (GW_Open nm mode)) # rest"
    using assms by (cases inbound rule: next_write_frame.cases)
      (auto simp: write_file_bounded_def split: option.splits GuestWrite.splits)
  define create where "create = create_truncate nm (if mode \<noteq> 0 then mode else 438)"
  from assms obtain g1 g2 g3 where g1: "run_state (file_step create (\<lambda>_. id)) g = (None, g1)"
      and g2: "run_state (write_each nm rest 0) g1 = (Inr n, g2)"
      and g3: "run_state (file_step id (\<lambda>_. id)) g2 = (None, g3)"
      and "g' = g3 \<or> run_state (file_step (chmod nm mode) (\<lambda>_. id)) g3 = (None, g')"
    by (auto simp: inbound write_file_bounded_def create_def split: prod.splits option.splits sum.splits if_splits)
  moreover from file_step_done [OF g1] have "holds_file nm [] g1" by (auto simp: create_def intro: holds_create)
  moreover from write_each_done [OF g2 this] obtain frames bytes where rest: "rest = map Frame frames" "payload frames = Some bytes"
      "n = int (length bytes)" and "holds_file nm bytes g2" by auto
  moreover from file_step_done [OF g3] this(4) have "holds_file nm bytes g3" by auto
  ultimately have "holds_file nm bytes g'"
    using file_step_done [of "chmod nm mode" "\<lambda>_. id" g3 g'] by (auto simp: holds_chmod)
  with inbound rest show ?thesis by auto
qed

lemma inj_Frame: "map Frame xs = map Frame ys \<longleftrightarrow> xs = ys"
  by (auto simp: inj_map_eq_map inj_def)

lemma arrivals_frames: "arrivals link frames = map Frame fs \<Longrightarrow> fs = frames"
proof (cases link)
  case (Some l)
  moreover assume "arrivals link frames = map Frame fs"
  ultimately have "map Frame fs = map Frame (take (fst l) frames) @ [Ended (snd l)]"
    by (simp add: arrivals_def case_prod_beta)
  hence "Ended (snd l) \<in> set (map Frame fs)" by simp
  thus ?thesis by auto
qed (auto simp: arrivals_def inj_Frame)

lemma guest_write_file_done:
  assumes "run_state (guest_write_file frames) g = ((Inr n, polled), g')"
  shows "polled = Suc (length frames) \<and> (\<exists>nm mode chunks bytes. frames = Some (GW_Open nm mode) # chunks
     \<and> payload chunks = Some bytes \<and> n = int (length bytes) \<and> holds_file nm bytes g')"
proof -
  from assms obtain g1 where "run_state (write_file_bounded (arrivals (g_link g) frames)) g1 = (Inr n, g')"
      and polled: "polled = Suc (length frames)"
    by (auto simp: guest_write_file_def looking_def mark_activity_def split: prod.splits)
  from write_file_bounded_done [OF this(1)] obtain nm mode chunks bytes where
      "arrivals (g_link g) frames = map Frame (Some (GW_Open nm mode) # chunks)" "payload chunks = Some bytes"
      "n = int (length bytes)" "holds_file nm bytes g'" by blast
  with polled show ?thesis using arrivals_frames by blast
qed

section \<open>Reading\<close>

text \<open>A response stream: full of nonempty bounded chunks, ended by the mark that all of \<open>data\<close> was sent, or by an error.\<close>

definition chunked :: "string \<Rightarrow> (Status + GuestChunk) list \<Rightarrow> bool" where
  "chunked data items \<longleftrightarrow>
     (\<exists>datas. list_all (\<lambda>d. d \<noteq> [] \<and> length d \<le> FILE_CHUNK) datas
        \<and> (items = map (Inr \<circ> data_chunk) datas @ [Inr eof_chunk] \<and> concat datas = data
           \<or> (\<exists>st. items = map (Inr \<circ> data_chunk) datas @ [Inl st])))"

lemma chunked_ends: "chunked [] [Inr eof_chunk]" "chunked data [Inl st]"
  unfolding chunked_def by (rule exI [of _ "[]"], simp)+

lemma chunked_Cons:
  assumes "chunked data items" and "b \<noteq> []" and "length b \<le> FILE_CHUNK"
  shows "chunked (b @ data) (Inr (data_chunk b) # items)"
proof -
  from assms(1) obtain datas where "list_all (\<lambda>d. d \<noteq> [] \<and> length d \<le> FILE_CHUNK) datas"
      "items = map (Inr \<circ> data_chunk) datas @ [Inr eof_chunk] \<and> concat datas = data
       \<or> (\<exists>st. items = map (Inr \<circ> data_chunk) datas @ [Inl st])"
    unfolding chunked_def by blast
  with assms(2,3) show ?thesis unfolding chunked_def by (intro exI [of _ "b # datas"]) auto
qed

definition asked_for :: "nat \<Rightarrow> string \<Rightarrow> string" where
  "asked_for limit data = (if limit = 0 then data else take limit data)"

lemma read_loop_stops:
  "want_bytes limit sent = 0 \<Longrightarrow> read_loop nm limit sent rest reads faults = [Inr eof_chunk]"
  "want_bytes limit sent \<noteq> 0 \<Longrightarrow> first_fault faults = Some e \<Longrightarrow> read_loop nm limit sent rest reads faults = [Inl (io_status nm e)]"
  "first_fault faults = None \<Longrightarrow> read_loop nm limit sent [] reads faults = [Inr eof_chunk]"
  by (subst read_loop.simps, simp)+

definition left_over :: "nat \<Rightarrow> nat \<Rightarrow> string \<Rightarrow> string" where
  "left_over limit sent rest = (if limit = 0 then rest else take (limit - sent) rest)"

lemma left_over_split:
  "n \<le> want_bytes limit sent \<Longrightarrow> take n rest @ left_over limit (sent + n) (drop n rest) = left_over limit sent rest"
proof (cases "limit = 0")
  case False
  assume "n \<le> want_bytes limit sent"
  hence "n \<le> limit - sent" using False by (simp add: want_bytes_def)
  hence "n + (limit - (sent + n)) = limit - sent" by (metis diff_diff_left le_add_diff_inverse)
  hence "take n rest @ take (limit - (sent + n)) (drop n rest) = take (limit - sent) rest"
    by (simp only: take_add [symmetric])
  thus ?thesis using False by (simp add: left_over_def)
qed (simp add: left_over_def)

lemma read_loop_chunked: "chunked (left_over limit sent rest) (read_loop nm limit sent rest reads faults)"
proof (induction nm limit sent rest reads faults rule: read_loop.induct)
  case (1 nm limit sent rest reads faults)
  let ?n = "read_size (want_bytes limit sent) (length rest) reads"
  consider "want_bytes limit sent = 0" | e where "want_bytes limit sent \<noteq> 0" "first_fault faults = Some e"
    | "first_fault faults = None" "rest = []"
    | "want_bytes limit sent \<noteq> 0" "first_fault faults = None" "rest \<noteq> []"
    by (cases "first_fault faults") blast+
  thus ?case
  proof cases
    case 1
    hence "left_over limit sent rest = []"
      by (auto simp: want_bytes_def left_over_def FILE_CHUNK_def min_def split: if_splits)
    with 1 show ?thesis by (simp add: read_loop_stops chunked_ends)
  next
    case 4
    have n: "0 < ?n" "?n \<le> length rest" "?n \<le> want_bytes limit sent"
      using 4 by (simp_all add: read_size_pos) (simp_all add: read_size_def)
    have "read_loop nm limit sent rest reads faults
        = Inr (data_chunk (take ?n rest)) # read_loop nm limit (sent + ?n) (drop ?n rest) (tl reads) (tl faults)"
      using 4 by (subst read_loop.simps) (simp add: Let_def)
    note loop = this
    have "take ?n rest \<noteq> []" using n(1) 4(3) by simp
    moreover have "length (take ?n rest) \<le> FILE_CHUNK"
      using n(3) by (auto simp: want_bytes_def split: if_splits)
    moreover have "chunked (left_over limit (sent + ?n) (drop ?n rest)) (read_loop nm limit (sent + ?n) (drop ?n rest) (tl reads) (tl faults))"
      by (rule "1.IH" [OF 4(1) _ 4(3) refl]) (simp add: 4(2))
    ultimately show ?thesis
      unfolding loop left_over_split [OF n(3), symmetric] by (intro chunked_Cons)
  qed (simp_all add: read_loop_stops chunked_ends left_over_def)
qed

lemma guest_read_file_chunked:
  assumes "run_state (guest_read_file r) g = (Inr items, g')" and "holds_file (gr_path r) data g"
  shows "chunked (asked_for (nat (gr_limit r)) (drop (nat (gr_offset r)) data)) items"
proof -
  from assms(2) obtain f where f: "g_files g (gr_path r) = Some f" "fl_data f = data"
    by (auto simp: holds_file_def)
  let ?rest = "drop (nat (gr_offset r)) data"
  obtain a where a: "run_state mark_activity g = ((), a)" "g_files a = g_files g" by (simp add: mark_activity_def)
  obtain x fs where x: "run_state next_fault a = (x, a\<lparr>g_faults := fs\<rparr>)" using run_next_fault by blast
  obtain y gs where y: "run_state next_fault (a\<lparr>g_faults := fs\<rparr>) = (y, a\<lparr>g_faults := gs\<rparr>)"
    using run_next_fault [of "a\<lparr>g_faults := fs\<rparr>"] by auto
  have "\<exists>reads faults. items = read_loop (gr_path r) (nat (gr_limit r)) 0 ?rest reads faults"
    using assms(1) f
    by (cases x; cases "0 < gr_offset r"; cases y)
      (auto simp: guest_read_file_def looking_def acting_def a x y split: prod.splits)
  then obtain reads faults where "items = read_loop (gr_path r) (nat (gr_limit r)) 0 ?rest reads faults" by blast
  with read_loop_chunked [of "nat (gr_limit r)" 0 ?rest "gr_path r" reads faults]
  show ?thesis by (simp only: left_over_def asked_for_def diff_zero)
qed

section \<open>Restore duties\<close>

definition carrier_is :: "string \<Rightarrow> string \<Rightarrow> guest \<Rightarrow> bool" where
  "carrier_is nm carrier g \<longleftrightarrow> map_option fl_data (g_files g nm) = (if carrier = [] then None else Some carrier)"

lemma reseed_clean:
  assumes "run_state (reseed entropy) g = (s, g')" and "rs_degraded s = None"
  shows "g' = g\<lparr>g_pool := g_pool g @ [entropy], g_rekeyed := Some (Suc (length (g_pool g)))\<rparr>
     \<and> rs_bytes_mixed s = int (length entropy) \<and> rs_credited s"
  using assms by (auto simp: reseed_def looking_def acting_def Let_def split: if_splits option.splits prod.splits)

lemma step_clock_clean:
  "run_state (step_clock ms) g = ((stepped, None), g') \<Longrightarrow> stepped \<and> g' = g\<lparr>g_now := ms\<rparr>"
  by (auto simp: step_clock_def looking_def acting_def split: if_splits)

lemma remove_file_done: "run_state (remove_file nm) g = (None, g') \<Longrightarrow> \<exists>fs. g' = g\<lparr>g_faults := fs, g_files := (g_files g)(nm := None)\<rparr>"
  using run_next_fault [of g] by (auto simp: remove_file_def acting_def Let_def split: prod.splits option.splits io_kind.splits)

lemma place_grant_carrier_clean:
  assumes "run_state (place_grant_carrier nm epoch carrier) g = (c, g')" and "co_degraded c = None"
  shows "carrier_is nm carrier g' \<and> co_present c = (carrier \<noteq> []) \<and> g_pool g' = g_pool g \<and> g_now g' = g_now g \<and> g_rekeyed g' = g_rekeyed g"
proof (cases "carrier = []")
  case True
  with assms obtain e where e: "run_state (remove_file nm) g = (e, g')" "c = \<lparr>co_present = False, co_epoch = epoch, co_degraded = map_option (CarrierNotRemoved epoch) e\<rparr>"
    by (auto simp: place_grant_carrier_def split: prod.splits)
  with assms(2) have "run_state (remove_file nm) g = (None, g')" by simp
  with remove_file_done [OF this] True e(2) show ?thesis by (auto simp: carrier_is_def)
next
  case False
  with assms obtain g1 g2 where g1: "run_state (file_step (create_truncate nm 384) (\<lambda>_. id)) g = (None, g1)"
      and g2: "run_state (file_step (append_to nm carrier) (\<lambda>n. append_to nm (take n carrier))) g1 = (None, g2)"
      and g3: "run_state (file_step id (\<lambda>_. id)) g2 = (None, g')" and c: "co_present c"
    by (auto simp: place_grant_carrier_def split: prod.splits option.splits)
  from file_step_done [OF g1] holds_create have "holds_file nm [] g1" by auto
  with file_step_done [OF g2] have "holds_file nm carrier g2" using holds_append [of nm "[]"] by fastforce
  with file_step_done [OF g3] have "carrier_is nm carrier g'" using False by (auto simp: carrier_is_def holds_file_def)
  moreover have "g_pool g' = g_pool g \<and> g_now g' = g_now g \<and> g_rekeyed g' = g_rekeyed g"
    using file_step_done [OF g1] file_step_done [OF g2] file_step_done [OF g3]
    by (auto simp: create_truncate_def append_to_def)
  ultimately show ?thesis using c False by simp
qed

definition host_clock :: "timestamp option \<Rightarrow> ms \<Rightarrow> ms" where
  "host_clock host now = (case host of None \<Rightarrow> now | Some h \<Rightarrow> t_seconds h * 1000 + trunc_div (t_nanos h) 1000000)"

lemma duties_clean:
  assumes run: "run_state (duties r now nm) g = (resp, g')" and clean: "dr_degraded resp = []"
  shows "g_pool g' = g_pool g @ [dq_entropy r] \<and> g_rekeyed g' = Some (length (g_pool g'))
     \<and> g_now g' = host_clock (dq_host_time r) (g_now g) \<and> dr_clock_stepped resp = (dq_host_time r \<noteq> None)
     \<and> dr_clock_drift_ms resp = (if dq_host_time r = None then 0 else now - g_now g')
     \<and> carrier_is nm (dq_grant_carrier r) g' \<and> dr_grant_rebound resp = (dq_grant_carrier r \<noteq> [])"
proof -
  obtain s g1 where s: "run_state (reseed (dq_entropy r)) g = (s, g1)" by fastforce
  define clocked :: "(int \<times> bool \<times> duty_note option) gact" where "clocked = (case dq_host_time r of
        None \<Rightarrow> ret (0, False, None)
      | Some host \<Rightarrow> do {
          let host_ms = t_seconds host * 1000 + trunc_div (t_nanos host) 1000000;
          (stepped, why) \<leftarrow> step_clock host_ms;
          ret (now - host_ms, stepped, why) })"
  obtain d st n g2 where c: "run_state clocked g1 = ((d, st, n), g2)" by (metis prod.collapse)
  obtain cr g3 where p: "run_state (place_grant_carrier nm (dq_execution_epoch r) (dq_grant_carrier r)) g2 = (cr, g3)" by fastforce
  have run': "resp = \<lparr>dr_entropy_bytes_mixed = rs_bytes_mixed s, dr_entropy_credited = rs_credited s,
        dr_clock_drift_ms = d, dr_clock_stepped = st, dr_degraded = List.map_filter id [rs_degraded s, n, co_degraded cr],
        dr_grant_rebound = co_present cr\<rparr>" "g' = g3"
    using run unfolding duties_def clocked_def [symmetric] by (simp_all add: s c p cong: option.case_cong)
  hence none: "rs_degraded s = None" "n = None" "co_degraded cr = None"
    using clean by (auto simp: List.map_filter_simps split: option.splits)
  have "st = (dq_host_time r \<noteq> None) \<and> g2 = g1\<lparr>g_now := host_clock (dq_host_time r) (g_now g1)\<rparr>
      \<and> d = (if dq_host_time r = None then 0 else now - g_now g2)"
  proof (cases "dq_host_time r")
    case (Some h)
    with c none(2) obtain b where "run_state (step_clock (host_clock (Some h) 0)) g1 = ((b, None), g2)" "st = b" "d = now - host_clock (Some h) 0"
      by (auto simp: clocked_def host_clock_def Let_def split: prod.splits)
    with step_clock_clean [OF this(1)] Some show ?thesis by (simp add: host_clock_def)
  qed (use c in \<open>simp add: clocked_def host_clock_def\<close>)
  with reseed_clean [OF s none(1)] place_grant_carrier_clean [OF p none(3)] show ?thesis
    by (simp add: run')
qed


definition sample_kernel :: kernel where
  "sample_kernel = \<lparr>k_opens = True, k_add_entropy = True, k_reseed = True, k_set_clock = True\<rparr>"

definition sample_process :: process where
  "sample_process = \<lparr>proc_start_cmd = [], proc_ready_cmd = [], proc_env = Map.empty, proc_workdir = []\<rparr>"

definition sample_hooks :: hooks where
  "sample_hooks = \<lparr>hk_pre_snapshot_cmd = [], hk_post_restore_cmd = [], hk_pre_snapshot_timeout_ms = 0, hk_post_restore_timeout_ms = 0\<rparr>"

definition sample_child :: child where
  "sample_child = \<lparr>ch_spawn = None, ch_elapsed_ms = 1, ch_wait = Inr (Some 0), ch_stdout = Some [], ch_stderr = Some []\<rparr>"

definition sample_sandbox :: guest where
  "sample_sandbox = \<lparr>g_state = new_state ''t'' sample_process sample_hooks 5, g_now = 5, g_files = Map.empty, g_umask = 18,
     g_faults = [], g_reads = [], g_link = None, g_kernel = sample_kernel, g_env = Map.empty,
     g_spawn = (\<lambda>_ _ _. sample_child), g_pool = [], g_rekeyed = None\<rparr>"

definition sample_duties :: RestoreDutiesRequest where
  "sample_duties = \<lparr>dq_entropy = ''e'', dq_host_time = Some \<lparr>t_seconds = 7, t_nanos = 0\<rparr>, dq_execution_epoch = 2,
     dq_grant_carrier = ''grant''\<rparr>"

lemmas sample_guest_simps = sample_sandbox_def sample_kernel_def sample_process_def sample_hooks_def sample_child_def


text \<open>
  A carrier that is already there keeps the mode it has: the \<open>0600\<close> of the open applies to a new
  file only, and nothing sets it afterwards.
\<close>

lemma stale_carrier_keeps_its_mode:
  "\<exists>resp g'. run_state (run_restore_duties sample_duties)
       (sample_sandbox\<lparr>g_files := [DEFAULT_GRANT_CARRIER \<mapsto> \<lparr>fl_data = ''old'', fl_mode = 420\<rparr>]\<rparr>) = (Inr resp, g')
     \<and> dr_degraded resp = [] \<and> g_files g' DEFAULT_GRANT_CARRIER = Some \<lparr>fl_data = ''grant'', fl_mode = 420\<rparr>"
  by (simp add: run_restore_duties_def duties_def sample_duties_def sample_guest_simps looking_def acting_def reseed_def
      step_clock_def place_grant_carrier_def create_truncate_def append_to_def file_step_def next_fault_def Let_def List.map_filter_simps)

end
