(* ===== verification/Passthrough.thy ===== *)
theory Passthrough
  imports Reconcile Service_Rpc
begin

text \<open>
  \<open>passthrough.rs\<close>: Exec, ReadFile and WriteFile, proxied from a client of the node to the
  guest agent of an instance.  A client's half of a stream is the list of what it yields
  before it ends: frames, or the status of a transport that broke.
\<close>

section \<open>The frames of the node contract\<close>

record TermSize =
  tz_rows :: int
  tz_cols :: int

record ExecStart =
  es_instance_id :: instance_id
  es_cmd :: "string list"
  es_env :: "string \<rightharpoonup> string"
  es_workdir :: string
  es_pty :: bool
  es_term_size :: "TermSize option"
  es_user_activity :: bool

datatype ExecFrame =
    EF_Start ExecStart | EF_Stdin string | EF_Stdout string | EF_Stderr string
  | EF_Resize TermSize | EF_Exit int

record WriteOpen =
  wo_instance_id :: instance_id
  wo_path :: string
  wo_mode :: int

datatype WriteFrame = WF_Open WriteOpen | WF_Chunk string

record ReadFileRequest =
  rq_instance_id :: instance_id
  rq_path :: string
  rq_offset :: int
  rq_limit :: int

record FileChunk =
  fc_data :: string
  fc_eof :: bool

text \<open>What a client sends: a frame, whose \<open>oneof\<close> may be unset, or the end of its transport.\<close>

type_synonym 'f client_stream = "(Status + 'f option) list"

section \<open>The channel\<close>

definition open_guest :: "'s env \<Rightarrow> instance_id \<Rightarrow> ('s, Status + unit) act" where
  "open_guest E iid = do {
     r \<leftarrow> db_read E (\<lambda>db. get_instance db iid);
     case r of
       Inl e \<Rightarrow> return (Inl (internal_status E e))
     | Inr None \<Rightarrow> return (Inl (not_found E ''instance not found'' iid))
     | Inr (Some row) \<Rightarrow>
         if ir_state row \<noteq> I_Running
         then return (Inl (status_with_reason GC_FailedPrecondition ER_GuestUnreachable
                (say E ''instance is not RUNNING'' [A_Text iid, A_State (ir_state row)])))
         else do {
           c \<leftarrow> connect E row iid;
           case c of
             Inr _ \<Rightarrow> return (Inr ())
           | Inl (GE_Unsupported runtime) \<Rightarrow>
               return (Inl (status_with_reason GC_FailedPrecondition ER_CapabilityMissing
                 (say E ''runtime provides no guest channel'' [A_Text runtime])))
           | Inl (GE_Unreachable i source) \<Rightarrow> do {
               record_event E (degradation iid [] (say E ''GUEST_UNREACHABLE'' [A_Guest (GE_Unreachable i source)]));
               return (Inl (status_with_reason GC_Unavailable ER_GuestUnreachable
                 (say E ''guest agent unreachable'' [A_Guest (GE_Unreachable i source)]))) } } }"

section \<open>Frame translation\<close>

definition to_guest_term_size :: "TermSize \<Rightarrow> GuestTermSize" where
  "to_guest_term_size s = \<lparr>gz_rows = tz_rows s, gz_cols = tz_cols s\<rparr>"

definition to_guest_start :: "ExecStart \<Rightarrow> GuestExecStart" where
  "to_guest_start s =
     \<lparr>gs_cmd = es_cmd s, gs_env = es_env s, gs_workdir = es_workdir s, gs_pty = es_pty s,
      gs_term_size = map_option to_guest_term_size (es_term_size s), gs_user_activity = es_user_activity s\<rparr>"

fun to_guest_frame :: "ExecFrame option \<Rightarrow> GuestFrame option" where
  "to_guest_frame (Some (EF_Stdin bytes)) = Some (GF_Stdin bytes)"
| "to_guest_frame (Some (EF_Resize area)) = Some (GF_Resize (to_guest_term_size area))"
| "to_guest_frame _ = None"

fun to_node_frame :: "GuestFrame option \<Rightarrow> ExecFrame option" where
  "to_node_frame (Some (GF_Stdout bytes)) = Some (EF_Stdout bytes)"
| "to_node_frame (Some (GF_Stderr bytes)) = Some (EF_Stderr bytes)"
| "to_node_frame (Some (GF_Exit code)) = Some (EF_Exit code)"
| "to_node_frame _ = None"

section \<open>Exec\<close>

text \<open>The frames the guest is sent after \<open>start\<close>, and the status reported when the stream ends by breaking.\<close>

fun exec_frames :: "ExecFrame client_stream \<Rightarrow> GuestFrame list \<times> Status option" where
  "exec_frames [] = ([], None)"
| "exec_frames (Inl st # _) = ([], Some st)"
| "exec_frames (Inr frame # inbound) =
     (case exec_frames inbound of (frames, broke) \<Rightarrow>
        ((case to_guest_frame frame of None \<Rightarrow> frames | Some g \<Rightarrow> g # frames), broke))"

fun to_client :: "(Status + GuestFrame option) list \<Rightarrow> (Status + ExecFrame) list" where
  "to_client [] = []"
| "to_client (Inl st # items) = Inl st # to_client items"
| "to_client (Inr frame # items) =
     (case to_node_frame frame of None \<Rightarrow> to_client items | Some n \<Rightarrow> Inr n # to_client items)"

text \<open>
  The task behind the response: items are forwarded until the guest ends the stream, or until
  the break of the client's half is picked by the \<open>select!\<close>, here after \<open>taken\<close> items.
\<close>

definition exec_response ::
  "(Status + GuestFrame option) list \<Rightarrow> nat \<Rightarrow> Status option \<Rightarrow> (Status + ExecFrame) list" where
  "exec_response items taken broke =
     (case broke of
        Some st \<Rightarrow> if taken \<le> length items then to_client (take taken items) @ [Inl st] else to_client items
      | None \<Rightarrow> to_client items)"

definition exec :: "'s env \<Rightarrow> ExecFrame client_stream \<Rightarrow> ('s, Status + (Status + ExecFrame) list) act" where
  "exec E inbound =
     (case inbound of
        [] \<Rightarrow> return (Inl (status GC_InvalidArgument ''Exec stream closed before `start`''))
      | Inl st # _ \<Rightarrow> return (Inl st)
      | Inr (Some (EF_Start start)) # rest \<Rightarrow>
          if es_instance_id start = []
          then return (Inl (status GC_InvalidArgument ''start.instance_id is required''))
          else do {
            let iid = es_instance_id start;
            c \<leftarrow> open_guest E iid;
            case c of
              Inl st \<Rightarrow> return (Inl st)
            | Inr _ \<Rightarrow> do {
                note_activity E iid;
                let (frames, broke) = exec_frames rest;
                r \<leftarrow> await E (gc_exec (en_guest E) iid (map Some (GF_Start (to_guest_start start) # frames)));
                return (case r of
                          Inl e \<Rightarrow> Inl (status_with_reason GC_Unavailable ER_GuestUnreachable
                                     (say E ''guest exec'' [A_Text (st_message e)]))
                        | Inr (items, taken) \<Rightarrow> Inr (exec_response items taken broke)) } }
      | _ \<Rightarrow> return (Inl (status GC_InvalidArgument ''the first Exec frame must be `start`'')))"

section \<open>ReadFile\<close>

text \<open>Chunks are forwarded up to and including the first error.\<close>

fun chunks_until_error :: "(Status + GuestChunk) list \<Rightarrow> (Status + FileChunk) list" where
  "chunks_until_error [] = []"
| "chunks_until_error (Inl st # _) = [Inl st]"
| "chunks_until_error (Inr c # items) = Inr \<lparr>fc_data = gk_data c, fc_eof = gk_eof c\<rparr> # chunks_until_error items"

definition read_file :: "'s env \<Rightarrow> ReadFileRequest \<Rightarrow> ('s, Status + (Status + FileChunk) list) act" where
  "read_file E request = do {
     let iid = rq_instance_id request;
     c \<leftarrow> open_guest E iid;
     case c of
       Inl st \<Rightarrow> return (Inl st)
     | Inr _ \<Rightarrow> do {
         note_activity E iid;
         r \<leftarrow> await E (gc_read_file (en_guest E) iid
                \<lparr>gr_path = rq_path request, gr_offset = rq_offset request, gr_limit = rq_limit request\<rparr>);
         return (case r of Inl st \<Rightarrow> Inl st | Inr items \<Rightarrow> Inr (chunks_until_error items)) } }"

section \<open>WriteFile\<close>

text \<open>The chunks the guest is sent after \<open>open\<close>, and what is recorded when the stream is polled past them.\<close>

fun write_chunks :: "WriteFrame client_stream \<Rightarrow> GuestWrite list \<times> Status option" where
  "write_chunks [] = ([], None)"
| "write_chunks (Inl st # _) = ([], Some st)"
| "write_chunks (Inr (Some (WF_Chunk bytes)) # inbound) =
     (case write_chunks inbound of (frames, failure) \<Rightarrow> (GW_Chunk bytes # frames, failure))"
| "write_chunks (Inr (Some (WF_Open _)) # _) = ([], Some (status GC_InvalidArgument ''`open` may only be the first frame''))"
| "write_chunks (Inr None # inbound) = write_chunks inbound"

definition write_file :: "'s env \<Rightarrow> WriteFrame client_stream \<Rightarrow> ('s, Status + int) act" where
  "write_file E inbound =
     (case inbound of
        [] \<Rightarrow> return (Inl (status GC_InvalidArgument ''WriteFile stream closed before `open`''))
      | Inl st # _ \<Rightarrow> return (Inl st)
      | Inr (Some (WF_Open opened)) # rest \<Rightarrow> do {
          let iid = wo_instance_id opened;
          c \<leftarrow> open_guest E iid;
          case c of
            Inl st \<Rightarrow> return (Inl st)
          | Inr _ \<Rightarrow> do {
              note_activity E iid;
              let (frames, failure) = write_chunks rest;
              let outbound = GW_Open (wo_path opened) (wo_mode opened) # frames;
              (written, polled) \<leftarrow> await E (gc_write_file (en_guest E) iid (map Some outbound));
              let failed = (if length outbound < polled then failure else None);
              return (case failed of
                        Some st \<Rightarrow> Inl (status (st_code st)
                                    (say E ''the client's WriteFile stream ended early'' [A_Text (wo_path opened), A_Text (st_message st)]))
                      | None \<Rightarrow> written) } }
      | _ \<Rightarrow> return (Inl (status GC_InvalidArgument ''the first WriteFile frame must be `open`'')))"

end
