(* ===== verification/Passthrough_Facts.thy ===== *)
theory Passthrough_Facts
  imports Passthrough Guest_Facts Service_Facts
begin

text \<open>
  What the proxied streams guarantee, on their own and together with the guest agent at their
  other end: they keep the invariant of the journal, only the frames that may cross do, and an
  upload that is reported as written was sent completely and can be read back.
\<close>

section \<open>The journal invariant\<close>

lemma keeps_node_open_guest [keep_rules]: "rely node_ok E \<Longrightarrow> keeps (on_db node_ok) (open_guest E iid)"
  unfolding open_guest_def connect_def
  by (auto intro!: keep_rules split: GuestError.split sum.split)

lemma keeps_node_streams [keep_rules]:
  assumes "rely node_ok E"
  shows "keeps (on_db node_ok) (exec E inbound)" and "keeps (on_db node_ok) (read_file E request)"
    and "keeps (on_db node_ok) (write_file E chunks)"
  by (auto simp: exec_def read_file_def write_file_def Let_def
      intro!: keep_rules assms split: list.split sum.split option.split ExecFrame.split WriteFrame.split)

section \<open>Which frames cross\<close>

text \<open>Only input and resizing reach the guest after \<open>start\<close>; only output and the exit status come back.\<close>

lemma exec_frames_are_input: "list_all (\<lambda>f. case f of GF_Stdin _ \<Rightarrow> True | GF_Resize _ \<Rightarrow> True | _ \<Rightarrow> False) (fst (exec_frames inbound))"
proof (induction inbound rule: exec_frames.induct)
  case (3 f inbound)
  thus ?case by (cases f rule: to_guest_frame.cases) (auto split: prod.splits)
qed simp_all

lemma to_client_is_output: "list_all (\<lambda>i. case i of Inr (EF_Start _) \<Rightarrow> False | Inr (EF_Stdin _) \<Rightarrow> False | Inr (EF_Resize _) \<Rightarrow> False | _ \<Rightarrow> True) (to_client items)"
proof (induction items rule: to_client.induct)
  case (3 f items)
  thus ?case by (cases f rule: to_node_frame.cases) auto
qed simp_all

lemma exec_frames_unbroken: "(snd (exec_frames inbound) = None) = list_all (\<lambda>i. \<not> isl i) inbound"
  by (induction inbound rule: exec_frames.induct) (auto split: prod.splits)

section \<open>An upload\<close>

text \<open>The bytes of a client's stream after \<open>open\<close>, when it ends cleanly and carries nothing but chunks.\<close>

fun client_bytes :: "WriteFrame client_stream \<Rightarrow> string option" where
  "client_bytes [] = Some []"
| "client_bytes (Inl _ # _) = None"
| "client_bytes (Inr (Some (WF_Chunk bytes)) # inbound) = map_option ((@) bytes) (client_bytes inbound)"
| "client_bytes (Inr (Some (WF_Open _)) # _) = None"
| "client_bytes (Inr None # inbound) = client_bytes inbound"

lemma write_chunks_payload:
  "snd (write_chunks inbound) = None \<Longrightarrow> payload (map Some (fst (write_chunks inbound))) = client_bytes inbound"
  by (induction inbound rule: write_chunks.induct) (auto split: prod.splits)

definition uploaded ::
  "('s \<Rightarrow> instance_id \<Rightarrow> string \<Rightarrow> string option) \<Rightarrow> instance_id \<Rightarrow> string \<Rightarrow> WriteFrame client_stream \<Rightarrow> Status + int \<Rightarrow> 's world \<Rightarrow> bool" where
  "uploaded content iid nm rest r w \<longleftrightarrow> (\<forall>n. r = Inr n \<longrightarrow>
     (\<exists>bytes. client_bytes rest = Some bytes \<and> n = int (length bytes) \<and> content (w_ext w) iid nm = Some bytes))"

lemma uploaded_refused [simp]: "uploaded content iid nm rest (Inl st) w"
  by (simp add: uploaded_def)

lemma triple_await_alone:
  assumes "alone E"
  shows "triple P (await E f) (\<lambda>a w. \<exists>s. f s = (a, w_ext w))"
  using assms by (intro tripleI) (auto simp: await_def others_def modify_def extern_def alone_def split: prod.splits)

lemma keeps_anything: "keeps (\<lambda>_. True) m"
  by (simp add: keeps_def triple_def split: prod.split)

lemma keeps_ext_extern: "(\<And>s. C s \<Longrightarrow> C (snd (f s))) \<Longrightarrow> keeps (\<lambda>w. C (w_ext w)) (extern f)"
  by (rule keepsI) (auto simp: extern_def split: prod.splits, metis snd_conv)

lemma keeps_ext_others: "alone E \<Longrightarrow> keeps P (others E)"
  by (rule keepsI) (simp add: others_def modify_def alone_def)

lemma keeps_ext_await: "alone E \<Longrightarrow> (\<And>s. C s \<Longrightarrow> C (snd (f s))) \<Longrightarrow> keeps (\<lambda>w. C (w_ext w)) (await E f)"
  unfolding await_def by (intro keep_rules keeps_ext_others keeps_ext_extern)

lemma keeps_ext_db_call:
  assumes "alone E" and "\<And>s. C s \<Longrightarrow> C (snd (en_now E s))" and "\<And>s. C s \<Longrightarrow> C (snd (en_fault E s))"
  shows "keeps (\<lambda>w. C (w_ext w)) (db_call E f)"
proof -
  have "keeps (\<lambda>w. C (w_ext w)) (State (\<lambda>w. case f now (w_db w) of
      Inl e \<Rightarrow> (Inl (DE_Refused e), w) | Inr (a, db) \<Rightarrow> (Inr a, w\<lparr>w_db := db\<rparr>)))" for now
    by (rule keepsI) (auto split: sum.splits prod.splits)
  thus ?thesis
    unfolding db_call_def now_ms_def by (intro keep_rules keeps_ext_others keeps_ext_extern assms)
qed

lemma keeps_ext_open_and_note:
  assumes "alone E" and "\<And>s. C s \<Longrightarrow> C (snd (en_now E s))" and "\<And>s. C s \<Longrightarrow> C (snd (en_fault E s))"
    and "\<And>token identity s. C s \<Longrightarrow> C (snd (gc_connect (en_guest E) iid token identity s))"
  shows "keeps (\<lambda>w. C (w_ext w)) (open_guest E iid)" and "keeps (\<lambda>w. C (w_ext w)) (note_activity E iid)"
  unfolding open_guest_def connect_def note_activity_def ttl_deadline_ms_def record_event_def db_read_def db_write_def now_ms_def
  by (auto intro!: keep_rules keeps_ext_await keeps_ext_db_call keeps_ext_extern assms split: GuestError.split sum.split)

text \<open>
  The two file verbs as their client relies on them: a count is given only for a stream read to its
  end, whose chunks are then the content of the file; and a file is read in order.
\<close>

locale file_guest =
  fixes put :: "instance_id \<Rightarrow> GuestWrite option list \<Rightarrow> 's \<Rightarrow> ((Status + int) \<times> nat) \<times> 's"
    and get :: "instance_id \<Rightarrow> GuestRead \<Rightarrow> 's \<Rightarrow> (Status + (Status + GuestChunk) list) \<times> 's"
    and content :: "'s \<Rightarrow> instance_id \<Rightarrow> string \<Rightarrow> string option"
  assumes put_counts: "put iid frames s = ((Inr n, polled), s') \<Longrightarrow>
      length frames < polled \<and> (\<exists>nm mode chunks bytes. frames = Some (GW_Open nm mode) # chunks
        \<and> payload chunks = Some bytes \<and> n = int (length bytes) \<and> content s' iid nm = Some bytes)"
    and get_reads: "get iid r s = (Inr items, s') \<Longrightarrow> content s iid (gr_path r) = Some data \<Longrightarrow>
      chunked (asked_for (nat (gr_limit r)) (drop (nat (gr_offset r)) data)) items"
begin

lemma put_uploads:
  assumes "put iid (map Some (GW_Open nm mode # fst (write_chunks rest))) s = ((written, polled), w_ext w)"
  shows "uploaded content iid nm rest (case (if length (GW_Open nm mode # fst (write_chunks rest)) < polled then snd (write_chunks rest) else None) of
      Some st \<Rightarrow> Inl (f st) | None \<Rightarrow> written) w"
proof (cases written)
  case (Inr n)
  with put_counts [of iid _ s n polled] assms obtain bytes where "length (GW_Open nm mode # fst (write_chunks rest)) < polled"
      and bytes: "payload (map Some (fst (write_chunks rest))) = Some bytes" "n = int (length bytes)" "content (w_ext w) iid nm = Some bytes"
    by fastforce
  moreover have "snd (write_chunks rest) = None \<Longrightarrow> client_bytes rest = Some bytes"
    using write_chunks_payload [of rest] bytes(1) by simp
  ultimately show ?thesis using Inr by (auto simp: uploaded_def split: option.split)
qed (simp add: uploaded_def split: option.split)

lemma write_file_uploads:
  assumes "alone E" and "gc_write_file (en_guest E) = put"
  shows "triple (\<lambda>_. True) (write_file E (Inr (Some (WF_Open dst)) # rest))
           (uploaded content (wo_instance_id dst) (wo_path dst) rest)"
proof -
  let ?Q = "uploaded content (wo_instance_id dst) (wo_path dst) rest"
  obtain frames failure where chunks: "write_chunks rest = (frames, failure)" by fastforce
  have sent: "triple (\<lambda>_. True) (do {
      (written, polled) \<leftarrow> await E (put (wo_instance_id dst) (map Some (GW_Open (wo_path dst) (wo_mode dst) # frames)));
      return (case (if length (GW_Open (wo_path dst) (wo_mode dst) # frames) < polled then failure else None) of
          Some st \<Rightarrow> Inl (f st) | None \<Rightarrow> written) }) ?Q" for f
  proof (rule triple_bind [OF triple_await_alone [OF assms(1)]])
    fix a :: "(Status + int) \<times> nat"
    obtain written polled where a: "a = (written, polled)" by fastforce
    show "triple (\<lambda>w. \<exists>s. put (wo_instance_id dst) (map Some (GW_Open (wo_path dst) (wo_mode dst) # frames)) s = (a, w_ext w))
        (case a of (written, polled) \<Rightarrow> return (case (if length (GW_Open (wo_path dst) (wo_mode dst) # frames) < polled then failure else None) of
          Some st \<Rightarrow> Inl (f st) | None \<Rightarrow> written)) ?Q"
      unfolding a prod.case
      by (rule triple_return, elim exE) (erule put_uploads [of _ _ _ rest, unfolded chunks fst_conv snd_conv])
  qed
  show ?thesis
    unfolding write_file_def list.case sum.case option.case WriteFrame.case Let_def chunks prod.case
    by (rule keeps_then [OF keeps_anything], rule triple_case_sum, rule triple_return, simp,
        rule keeps_then [OF keeps_anything]) (use sent assms(2) in simp)
qed

text \<open>What is in a file stays there until the next upload, when nothing else reaches the guests.\<close>

lemma read_file_reads:
  assumes "alone E" and "gc_read_file (en_guest E) = get"
    and calm: "\<And>s. content (snd (en_now E s)) = content s" "\<And>s. content (snd (en_fault E s)) = content s"
      "\<And>iid token identity s. content (snd (gc_connect (en_guest E) iid token identity s)) = content s"
  shows "triple (\<lambda>w. content (w_ext w) (rq_instance_id q) (rq_path q) = Some data) (read_file E q)
     (\<lambda>r w. \<forall>items. r = Inr items \<longrightarrow>
        (\<exists>sent. items = chunks_until_error sent \<and> chunked (asked_for (nat (rq_limit q)) (drop (nat (rq_offset q)) data)) sent))"
proof -
  let ?C = "\<lambda>s. content s (rq_instance_id q) (rq_path q) = Some data"
  let ?r = "\<lparr>gr_path = rq_path q, gr_offset = rq_offset q, gr_limit = rq_limit q\<rparr>"
  let ?Q = "\<lambda>r w. \<forall>items. r = Inr items \<longrightarrow>
     (\<exists>sent. items = chunks_until_error sent \<and> chunked (asked_for (nat (rq_limit q)) (drop (nat (rq_offset q)) data)) sent)"
  have "triple (\<lambda>w. ?C (w_ext w)) (await E (get (rq_instance_id q) ?r))
      (\<lambda>r w. \<forall>sent. r = Inr sent \<longrightarrow> chunked (asked_for (nat (rq_limit q)) (drop (nat (rq_offset q)) data)) sent)"
    using assms(1) get_reads [of "rq_instance_id q" ?r]
    by (intro tripleI) (auto simp: await_def others_def modify_def extern_def alone_def split: prod.splits)
  note got = this
  have "triple (\<lambda>w. ?C (w_ext w)) (do { r \<leftarrow> await E (get (rq_instance_id q) ?r);
      return (case r of Inl st \<Rightarrow> Inl st | Inr items \<Rightarrow> Inr (chunks_until_error items)) }) ?Q"
    by (rule triple_bind [OF got], rule triple_return) (auto split: sum.splits)
  note last = this
  have "keeps (\<lambda>w. ?C (w_ext w)) (open_guest E (rq_instance_id q))" "keeps (\<lambda>w. ?C (w_ext w)) (note_activity E (rq_instance_id q))"
    by (rule keeps_ext_open_and_note [OF assms(1)], simp_all add: calm)+
  note kept = this
  show ?thesis
    unfolding read_file_def Let_def assms(2)
    by (rule keeps_then [OF kept(1)], rule triple_case_sum, rule triple_return, simp, rule keeps_then [OF kept(2)], rule last)
qed

end

section \<open>The guest agent at the other end\<close>

text \<open>The sandboxes of a node, one for each instance.\<close>

definition at_guest :: "'a gact \<Rightarrow> instance_id \<Rightarrow> (instance_id \<Rightarrow> guest) \<Rightarrow> 'a \<times> (instance_id \<Rightarrow> guest)" where
  "at_guest m iid s = (case run_state m (s iid) of (a, g) \<Rightarrow> (a, s(iid := g)))"

definition guest_put :: "instance_id \<Rightarrow> GuestWrite option list \<Rightarrow> (instance_id \<Rightarrow> guest) \<Rightarrow> ((Status + int) \<times> nat) \<times> (instance_id \<Rightarrow> guest)" where
  "guest_put iid frames = at_guest (guest_write_file frames) iid"

definition guest_get :: "instance_id \<Rightarrow> GuestRead \<Rightarrow> (instance_id \<Rightarrow> guest) \<Rightarrow> (Status + (Status + GuestChunk) list) \<times> (instance_id \<Rightarrow> guest)" where
  "guest_get iid r = at_guest (guest_read_file r) iid"

definition guest_content :: "(instance_id \<Rightarrow> guest) \<Rightarrow> instance_id \<Rightarrow> string \<Rightarrow> string option" where
  "guest_content s iid nm = map_option fl_data (g_files (s iid) nm)"

interpretation sandboxes: file_guest guest_put guest_get guest_content
proof unfold_locales
  fix iid frames n polled and s s' :: "instance_id \<Rightarrow> guest"
  assume "guest_put iid frames s = ((Inr n, polled), s')"
  then obtain g where g: "run_state (guest_write_file frames) (s iid) = ((Inr n, polled), g)" "s' = s(iid := g)"
    by (auto simp: guest_put_def at_guest_def split: prod.splits)
  from guest_write_file_done [OF g(1)] g(2)
  show "length frames < polled \<and> (\<exists>nm mode chunks bytes. frames = Some (GW_Open nm mode) # chunks
      \<and> payload chunks = Some bytes \<and> n = int (length bytes) \<and> guest_content s' iid nm = Some bytes)"
    by (auto simp: guest_content_def holds_file_def)
next
  fix iid r items data and s s' :: "instance_id \<Rightarrow> guest"
  assume "guest_get iid r s = (Inr items, s')" and content: "guest_content s iid (gr_path r) = Some data"
  then obtain g where g: "run_state (guest_read_file r) (s iid) = (Inr items, g)"
    by (auto simp: guest_get_def at_guest_def split: prod.splits)
  show "chunked (asked_for (nat (gr_limit r)) (drop (nat (gr_offset r)) data)) items"
    by (rule guest_read_file_chunked [OF g]) (use content in \<open>simp add: guest_content_def holds_file_def\<close>)
qed

lemma chunked_until_error:
  assumes "chunked data items"
  shows "list_ex isl (chunks_until_error items)
     \<or> (\<exists>datas. chunks_until_error items = map (\<lambda>d. Inr \<lparr>fc_data = d, fc_eof = False\<rparr>) datas @ [Inr \<lparr>fc_data = [], fc_eof = True\<rparr>]
          \<and> concat datas = data)"
proof -
  have "chunks_until_error (map (Inr \<circ> data_chunk) datas @ more) = map (\<lambda>d. Inr \<lparr>fc_data = d, fc_eof = False\<rparr>) datas @ chunks_until_error more" for datas more
    by (induction datas) (simp_all add: data_chunk_def)
  with assms show ?thesis by (auto simp: chunked_def eof_chunk_def)
qed

text \<open>
  C37: what was uploaded can be downloaded.  Host and guest together: a WriteFile that is answered
  with a count was fed by a client stream that ended cleanly and carried nothing but chunks,
  the count is that of their bytes, and reading the file afterwards returns exactly these
  bytes in order and then the end mark, or reports an error; a broken or truncated
  upload is never reported as written.
\<close>

theorem upload_then_download:
  assumes "alone E" and "gc_write_file (en_guest E) = guest_put" and "gc_read_file (en_guest E) = guest_get"
    and "\<And>s. guest_content (snd (en_now E s)) = guest_content s" and "\<And>s. guest_content (snd (en_fault E s)) = guest_content s"
    and "\<And>iid token identity s. guest_content (snd (gc_connect (en_guest E) iid token identity s)) = guest_content s"
    and "run_state (write_file E (Inr (Some (WF_Open dst)) # rest)) w = (Inr n, w1)"
    and "run_state (read_file E \<lparr>rq_instance_id = wo_instance_id dst, rq_path = wo_path dst, rq_offset = 0, rq_limit = 0\<rparr>) w1 = (Inr items, w2)"
  shows "\<exists>bytes. client_bytes rest = Some bytes \<and> n = int (length bytes)
     \<and> (list_ex isl items
        \<or> (\<exists>datas. items = map (\<lambda>d. Inr \<lparr>fc_data = d, fc_eof = False\<rparr>) datas @ [Inr \<lparr>fc_data = [], fc_eof = True\<rparr>]
             \<and> concat datas = bytes))"
proof -
  from tripleD [OF sandboxes.write_file_uploads [OF assms(1,2)] TrueI assms(7)] obtain bytes where
    bytes: "client_bytes rest = Some bytes" "n = int (length bytes)" "guest_content (w_ext w1) (wo_instance_id dst) (wo_path dst) = Some bytes"
    by (auto simp: uploaded_def)
  let ?q = "\<lparr>rq_instance_id = wo_instance_id dst, rq_path = wo_path dst, rq_offset = 0, rq_limit = 0\<rparr>"
  have "guest_content (w_ext w1) (rq_instance_id ?q) (rq_path ?q) = Some bytes" using bytes(3) by simp
  from tripleD [OF sandboxes.read_file_reads [OF assms(1,3-6)] this assms(8)] obtain sent where
    "items = chunks_until_error sent" "chunked bytes sent" by (auto simp: asked_for_def)
  with bytes chunked_until_error [of bytes sent] show ?thesis by auto
qed

definition sample_files_env :: "(instance_id \<Rightarrow> guest) env" where
  "sample_files_env = sample_env\<lparr>en_guest := sample_guest\<lparr>gc_write_file := guest_put, gc_read_file := guest_get\<rparr>\<rparr>"

definition sample_destination :: WriteOpen where
  "sample_destination = \<lparr>wo_instance_id = ''i1'', wo_path = ''/f'', wo_mode = 384\<rparr>"

abbreviation sample_node :: "(instance_id \<Rightarrow> guest) \<Rightarrow> (instance_id \<Rightarrow> guest) world" where
  "sample_node s \<equiv> sample_world sample_running s"

lemma sample_channel:
  "run_state (open_guest sample_files_env ''i1'') (sample_node s) = (Inr (), sample_node s)"
  "run_state (note_activity sample_files_env ''i1'') (sample_node s) = ((), sample_node s)"
proof -
  obtain row where row: "get_instance sample_running ''i1'' = Some row" "ir_state row = I_Running" "sp_ttl_seconds (ir_spec row) = 0"
    by (simp add: sample_running_def set_instance_state_def sample_simps)
  have "w_db (sample_node s) = sample_running" by (simp add: sample_world_def)
  with row show "run_state (open_guest sample_files_env ''i1'') (sample_node s) = (Inr (), sample_node s)"
      "run_state (note_activity sample_files_env ''i1'') (sample_node s) = ((), sample_node s)"
    by (simp_all add: open_guest_def connect_def note_activity_def found_def sample_files_env_def sample_env_def sample_guest_def action_defs)
qed

text \<open>The sandbox before and after a small file was written to it.\<close>

definition sample_written :: guest where
  "sample_written = sample_sandbox\<lparr>g_files := [''/f'' \<mapsto> \<lparr>fl_data = ''ab'', fl_mode = 384\<rparr>]\<rparr>"

lemma sample_put:
  "run_state (guest_write_file [Some (GW_Open ''/f'' 384), Some (GW_Chunk ''ab'')]) sample_sandbox = ((Inr 2, 3), sample_written)"
  by (simp add: guest_write_file_def write_file_bounded_def arrivals_def file_step_def next_fault_def looking_def acting_def
      mark_activity_def create_truncate_def append_to_def chmod_def sample_written_def sample_sandbox_def new_state_def)

lemma sample_get:
  "\<exists>items g. run_state (guest_read_file \<lparr>gr_path = ''/f'', gr_offset = 0, gr_limit = 0\<rparr>) sample_written = (Inr items, g)"
  by (simp add: guest_read_file_def next_fault_def looking_def acting_def mark_activity_def sample_written_def sample_sandbox_def)

theorem upload_then_download_witness:
  "\<exists>w1 items w2. run_state (write_file sample_files_env [Inr (Some (WF_Open sample_destination)), Inr (Some (WF_Chunk ''ab''))])
       (sample_node (\<lambda>_. sample_sandbox)) = (Inr 2, w1)
     \<and> run_state (read_file sample_files_env \<lparr>rq_instance_id = ''i1'', rq_path = ''/f'', rq_offset = 0, rq_limit = 0\<rparr>) w1 = (Inr items, w2)
     \<and> (list_ex isl items \<or> (\<exists>datas. items = map (\<lambda>d. Inr \<lparr>fc_data = d, fc_eof = False\<rparr>) datas @ [Inr \<lparr>fc_data = [], fc_eof = True\<rparr>]
          \<and> concat datas = ''ab''))"
proof -
  let ?in = "[Inr (Some (WF_Chunk ''ab''))]" and ?w = "sample_node (\<lambda>_. sample_sandbox)"
  have calls: "gc_write_file (en_guest sample_files_env) = guest_put" "gc_read_file (en_guest sample_files_env) = guest_get"
      "alone sample_files_env" "snd (en_now sample_files_env s) = s" "snd (en_fault sample_files_env s) = s"
      "snd (gc_connect (en_guest sample_files_env) iid token identity s) = s" for s iid token identity
    by (simp_all add: sample_files_env_def sample_env_def sample_guest_def alone_def)
  have step: "run_state (await sample_files_env f) (sample_node s) = (fst (f s), sample_node (snd (f s)))" for f and s :: "instance_id \<Rightarrow> guest"
    by (simp add: await_def others_def modify_def extern_def sample_files_env_def sample_env_def sample_world_def split: prod.split)
  have wrote: "run_state (write_file sample_files_env (Inr (Some (WF_Open sample_destination)) # ?in)) ?w
      = (Inr 2, sample_node ((\<lambda>_. sample_sandbox)(''i1'' := sample_written)))" (is "_ = (_, sample_node ?s)")
    by (simp add: write_file_def sample_destination_def sample_channel calls step guest_put_def at_guest_def sample_put Let_def)
  obtain items g where "run_state (guest_read_file \<lparr>gr_path = ''/f'', gr_offset = 0, gr_limit = 0\<rparr>) sample_written = (Inr items, g)"
    using sample_get by blast
  hence "run_state (read_file sample_files_env \<lparr>rq_instance_id = ''i1'', rq_path = ''/f'', rq_offset = 0, rq_limit = 0\<rparr>) (sample_node ?s)
      = (Inr (chunks_until_error items), sample_node (?s(''i1'' := g)))"
    by (simp add: read_file_def sample_channel calls step guest_get_def at_guest_def Let_def)
  moreover from this have "run_state (read_file sample_files_env \<lparr>rq_instance_id = wo_instance_id sample_destination,
      rq_path = wo_path sample_destination, rq_offset = 0, rq_limit = 0\<rparr>) (sample_node ?s)
      = (Inr (chunks_until_error items), sample_node (?s(''i1'' := g)))"
    by (simp add: sample_destination_def)
  from upload_then_download [OF calls(3,1,2) _ _ _ wrote this] calls(4-6) have "list_ex isl (chunks_until_error items)
      \<or> (\<exists>datas. chunks_until_error items = map (\<lambda>d. Inr \<lparr>fc_data = d, fc_eof = False\<rparr>) datas @ [Inr \<lparr>fc_data = [], fc_eof = True\<rparr>]
          \<and> concat datas = ''ab'')"
    by simp
  ultimately show ?thesis using wrote by blast
qed

end
