(* ===== verification/Agent_Boot.thy ===== *)
theory Agent_Boot
  imports Bucket_Url Fleet_Policy Reconcile Service_Facts Guest_Agent
begin

text \<open>
  \<open>lib.rs\<close>: the configuration read from the environment, the address the node may listen on,
  building the agent and joining the fleet.  Creating the data directory, opening the database
  (\<open>open_journal\<close>) and reading the node's identity come before and are where a run starts.
\<close>

section \<open>Configuration\<close>

text \<open>\<open>parse_u64\<close> is \<open>str::parse::<u64>\<close>.\<close>

definition env_secs :: "(string \<Rightarrow> int option) \<Rightarrow> (string \<rightharpoonup> string) \<Rightarrow> string \<Rightarrow> int \<Rightarrow> int" where
  "env_secs parse_u64 env var default_secs =
     (case env var of
        None \<Rightarrow> default_secs
      | Some v \<Rightarrow> (case parse_u64 (trim v) of Some n \<Rightarrow> n | None \<Rightarrow> default_secs))"

definition config_from_env :: "(string \<Rightarrow> int option) \<Rightarrow> (string \<rightharpoonup> string) \<Rightarrow> Config \<times> string option" where
  "config_from_env parse_u64 env =
     (\<lparr>cf_event_retention = 1000 * env_secs parse_u64 env ''BARISTA_EVENT_RETENTION_SECS'' (7 * 24 * 60 * 60),
       cf_retention_sweep_interval = 1000 * env_secs parse_u64 env ''BARISTA_RETENTION_SWEEP_SECS'' (60 * 60),
       cf_credential_sweep_interval = 1000 * env_secs parse_u64 env ''BARISTA_CREDENTIAL_SWEEP_SECS'' (5 * 60)\<rparr>,
      (case env ''BARISTA_CAPSULE_BUCKET'' of
         Some v \<Rightarrow> if trim v = [] then None else Some v
       | None \<Rightarrow> None))"

section \<open>The listener\<close>

datatype ip_addr = V4 nat nat nat nat | V6 "nat list"

fun is_loopback :: "ip_addr \<Rightarrow> bool" where
  "is_loopback (V4 a b c d) \<longleftrightarrow> a = 127"
| "is_loopback (V6 segments) \<longleftrightarrow> segments = [0, 0, 0, 0, 0, 0, 0, 1]"

text \<open>
  \<open>parse_addr\<close> is \<open>str::parse::<SocketAddr>\<close>, which accepts an address and a port and no name;
  \<open>show_addr\<close> is the \<open>Display\<close> of \<open>SocketAddr\<close>.
\<close>

definition check_listen_addr ::
  "(string \<Rightarrow> (ip_addr \<times> int) option) \<Rightarrow> (ip_addr \<times> int \<Rightarrow> string) \<Rightarrow> string \<Rightarrow> string + ip_addr \<times> int" where
  "check_listen_addr parse_addr show_addr listen =
     (case parse_addr listen of
        None \<Rightarrow> Inl (''--listen must be an ip:port, not a hostname ('' @ listen @
          ''): a name may resolve to a routable address, and Contract A has no authentication to survive that'')
      | Some addr \<Rightarrow>
          if is_loopback (fst addr) then Inr addr
          else Inl (''refusing to serve the node API on '' @ show_addr addr @ '': Contract A is served on loopback only''))"

section \<open>Building the agent\<close>

datatype boot_error = Boot_Bucket string | Boot_Journal db_error

text \<open>\<open>build\<close> makes the client of a bucket from its settings.\<close>

definition capsule_remote ::
  "(string \<Rightarrow> store_config \<Rightarrow> 's Remote) \<Rightarrow> string option \<Rightarrow> boot_error + 's Remote option" where
  "capsule_remote build url =
     (case url of
        None \<Rightarrow> Inr None
      | Some u \<Rightarrow> (case from_url u of
           Inl _ \<Rightarrow> Inl (Boot_Bucket (without_credentials u))
         | Inr config \<Rightarrow> Inr (Some (build (without_credentials u) config))))"

definition start_agent :: "'s env \<Rightarrow> ('s, boot_error + unit) act" where
  "start_agent E = do {
     r \<leftarrow> recover E;
     case r of
       Inl e \<Rightarrow> return (Inl (Boot_Journal e))
     | Inr _ \<Rightarrow> do {
         n \<leftarrow> db_call E (\<lambda>now db. Inr (recover_capsule_ops db now));
         case n of
           Inl e \<Rightarrow> return (Inl (Boot_Journal e))
         | Inr _ \<Rightarrow> do {
             _ \<leftarrow> run_startup_gc E;
             return (Inr ()) } } }"

definition bootstrap ::
  "'s env \<Rightarrow> (string \<Rightarrow> store_config \<Rightarrow> 's Remote) \<Rightarrow> string option \<Rightarrow> ('s, boot_error + unit) act" where
  "bootstrap E build url =
     (case capsule_remote build url of
        Inl e \<Rightarrow> return (Inl e)
      | Inr remote \<Rightarrow> start_agent (E\<lparr>en_remote := remote\<rparr>))"

text \<open>
  \<open>Arc::get_mut\<close> succeeds only while nothing else holds the agent; every executor that was
  spawned holds a clone of it until it has finished.
\<close>

definition join_fleet :: "'s env \<Rightarrow> Fleet \<Rightarrow> ('s, unit) act" where
  "join_fleet E F = do {
     fleet_recover E F;
     modify (\<lambda>w. if w_tasks w = [] then w\<lparr>w_fleet := Some F\<rparr> else w) }"

section \<open>Node invariant\<close>

lemma keeps_node_untracked [keep_rules]:
  assumes "rely node_ok E"
  shows "keeps (on_db node_ok) (run_startup_gc E)"
  unfolding run_startup_gc_def sweep_untracked_local_def
  by (intro keep_rules keeps_sweep_files assms) (auto simp: remove_object_file_def split: if_splits)

lemma keeps_node_start_agent [keep_rules]:
  assumes "rely node_ok E"
  shows "keeps (on_db node_ok) (start_agent E)"
proof -
  have "keeps (on_db node_ok) (db_call E (\<lambda>now db. Inr (recover_capsule_ops db now)))"
    by (rule keeps_db_call [OF assms]) (use node_ok_capsule_ops(1) in \<open>metis Inr_inject snd_conv\<close>)
  thus ?thesis unfolding start_agent_def by (intro keep_rules assms)
qed

lemma rely_remote [simp]: "rely I (E\<lparr>en_remote := r\<rparr>) \<longleftrightarrow> rely I E"
  by (simp add: rely_def)

lemma keeps_node_bootstrap [keep_rules]: "rely node_ok E \<Longrightarrow> keeps (on_db node_ok) (bootstrap E build url)"
  unfolding bootstrap_def by (auto intro!: keep_rules split: sum.split)

lemma keeps_node_join_fleet [keep_rules]: "rely node_ok E \<Longrightarrow> keeps (on_db node_ok) (join_fleet E F)"
  unfolding join_fleet_def by (intro keep_rules) auto

section \<open>Joining after a fence\<close>

text \<open>A node whose journal remembers a lease on a running instance, started again.\<close>

definition sample_believer :: "unit world" where
  "sample_believer = sample_world (hold_lease (set_instance_state sample_journal ''i1'' I_Running 4) ''web'' 1 ''i1'' 2) ()"


end
