(* ===== verification/Spec2Isabelle.thy ===== *)
theory Spec2Isabelle
  imports
    State_Machine Contract Rust_Text
    Journal_Submit Journal_Snapshots Journal_Capsules Journal_Events Journal_Leases
    Event_Bus Fleet_Lease Fleet_Desired Bucket_Url
    Content_Ids Restore_Policy
    Op_Kinds Agent_World Object_Store Op_Submit Node_Invariant Fleet_Stamp Op_Execute Op_Outcome Op_Recover
    Fleet_Policy Fleet_Phase Reconcile
    Capsule_Ops Service_Pages Service_Rpc Service_Facts
    Guest_Agent Guest_Facts Passthrough Passthrough_Facts Agent_Boot
begin

text \<open>
  A verification library for barista, a node agent that runs sessions in sandboxes.

  \<^bold>\<open>The program.\<close>  A node runs one agent (\<open>crates/barista-node-agent\<close>).  Clients call its
  service (\<open>service.rs\<close>, \<open>passthrough.rs\<close>).  A call that changes an instance is journaled as an
  operation in one SQLite transaction (\<open>db.rs\<close>) and an executor is spawned for it (\<open>ops.rs\<close>), which
  drives the runtime and the guest and settles operation and instance in a second transaction.
  What happens is told to watchers (\<open>events.rs\<close>).  Snapshots leave a node as content-addressed
  capsules (\<open>capsule.rs\<close>, \<open>capsule_ops.rs\<close>, \<open>objects.rs\<close>).  A tick runs deadlines, sweeps and probes
  (\<open>reconcile.rs\<close>) and, for a member of a fleet, one pass over the sessions it may own (\<open>fleet.rs\<close>,
  \<open>fleet_phase.rs\<close>) through leases in a bucket (\<open>crates/barista-fleet\<close>).  Inside each sandbox runs the
  guest agent (\<open>crates/barista-guest-agent\<close>).

  \<^bold>\<open>How it is modelled.\<close>  Definitions keep the names and the order of the code.  A table of the
  journal is the list of its rows and the journal the record of its tables; a method of \<open>Db\<close> is
  a function on it, and a transaction that rolls back returns the error and no journal.  A handler
  of the agent is an action of the state monad over \<open>world\<close>, which holds the journal, the two
  object directories, the executors spawned and what the process remembers.  Everything the
  sources only call (runtime, guest client, buckets, clock, entropy, SHA-256, certificates, the
  protobuf encoding) is a field of the record \<open>env\<close> that every handler takes.  Other tasks of the
  process run at every wait as an arbitrary change of the world, and every statement may fail.  A
  message is the data it is formatted from.  Machine integers are \<^typ>\<open>int\<close> with the casts and
  saturating operations written out, or words where the code works on bits.

  \<^bold>\<open>The theories.\<close>
  \<^item> \<open>Barista_Prelude\<close>, \<open>Rust_Text\<close>, \<open>Contract\<close>: collections of facts, integers, row operations and the
    locale \<open>keyed_table\<close>; the string functions used; the messages of the node contract.
  \<^item> \<open>State_Machine\<close> (\<open>state_machine.rs\<close>): the two transition tables, both a \<open>lifecycle\<close>.
  \<^item> \<open>Journal_Schema\<close>, \<open>Journal_Instances\<close>, \<open>Journal_Operations\<close>, \<open>Journal_Submit\<close>, \<open>Journal_Snapshots\<close>,
    \<open>Journal_Capsules\<close>, \<open>Journal_Events\<close>, \<open>Journal_Leases\<close> (\<open>db.rs\<close>): every statement keeps the keys and
    the claims of the schema; a submission and a settlement are all or nothing; a deadline is taken
    once; reference counts are exact; an accepted cursor misses nothing.
  \<^item> \<open>Event_Bus\<close> (\<open>events.rs\<close>, \<open>watch_events\<close>): a subscription as a step relation; it loses nothing,
    except to a retention sweep between the check and a page.
  \<^item> \<open>Fleet_Lease\<close>, \<open>Fleet_Desired\<close>, \<open>Bucket_Url\<close> (\<open>lease.rs\<close>, \<open>desired.rs\<close>, \<open>store.rs\<close>): over every
    interleaving of nodes an epoch has one owner and a superseded owner writes nothing.  The locale
    \<open>conditional_store\<close> is the contract of the bucket, interpreted on one store versioned by content
    and on one versioned by a counter.
  \<^item> \<open>Content_Ids\<close>, \<open>Restore_Policy\<close> (\<open>snapshot_key.rs\<close>, \<open>capsule.rs\<close>, \<open>hex.rs\<close>, \<open>restore.rs\<close>,
    \<open>grants.rs\<close>, \<open>admission.rs\<close>): what is hashed identifies what is meant; memory is restored only
    where it fits.
  \<^item> \<open>Agent_World\<close>: the world, the environment, the primitive actions and the calculus of the later
    theories: \<open>triple\<close> (pre- and postcondition of an action), \<open>keeps\<close> (an invariant, by the rules
    \<open>keep_rules\<close>), \<open>rely\<close> and \<open>undisturbed\<close> (what the other tasks leave alone), \<open>yields\<close> (the
    answers an action can give).
  \<^item> \<open>Op_Kinds\<close>, \<open>Op_Submit\<close>, \<open>Op_Execute\<close>, \<open>Op_Outcome\<close>, \<open>Op_Recover\<close>, \<open>Fleet_Stamp\<close> (\<open>ops.rs\<close>): a
    submission spawns one executor or none; an executor settles both rows or neither and reaches no
    runtime without an epoch; crash recovery returns and resolves everything.  The locale
    \<open>executor_invariant\<close> is what an executor's narration keeps.
  \<^item> \<open>Object_Store\<close>, \<open>Capsule_Ops\<close> (\<open>objects.rs\<close>, \<open>capsule_ops.rs\<close>): only bytes that hash to their
    name are read; collection spares what is referenced; what is exported can be imported.
  \<^item> \<open>Fleet_Policy\<close>, \<open>Fleet_Phase\<close> (\<open>fleet.rs\<close>, \<open>fleet_phase.rs\<close>): a bucket that is down stops
    nothing, held leases are remembered, recovery disowns what was taken.  The locales
    \<open>phase_observed\<close> and \<open>phase_invariant\<close> are what one pass owes to an invariant.
  \<^item> \<open>Reconcile\<close> (\<open>reconcile.rs\<close>): the duties of a tick.
  \<^item> \<open>Service_Pages\<close>, \<open>Service_Rpc\<close>, \<open>Service_Facts\<close> (\<open>service.rs\<close>): every verb with its refusals; a
    refusal leaves no trace; a listing in pages is complete.
  \<^item> \<open>Guest_Agent\<close>, \<open>Guest_Facts\<close> (\<open>state.rs\<close>, \<open>cmd.rs\<close>, \<open>service.rs\<close>, \<open>duties.rs\<close>, \<open>bootstrap.rs\<close> and
    part of \<open>serve.rs\<close> of the guest agent) and \<open>Passthrough\<close>, \<open>Passthrough_Facts\<close> (\<open>passthrough.rs\<close>):
    the guest's duties and bounds, and an upload that can be downloaded again through both agents.
    The locale \<open>file_guest\<close> is what the host needs of a guest, interpreted on the guest agent.
  \<^item> \<open>Agent_Boot\<close> (\<open>lib.rs\<close>): configuration, start and joining a fleet.
  \<^item> \<open>Node_Invariant\<close> and this theory: the invariant of the journal, and that it holds over every
    history of a node.

  \<^bold>\<open>Bounds and fuel.\<close>  The retention loop (\<open>prune_loop\<close>, and through it \<open>sweep_retention\<close> and
  \<open>tick\<close>) and the client's loop over pages (\<open>list_all_from\<close>) take fuel.  A chunk that is not
  the last removes 1000 events, so fuel above the thousands of events to remove is enough; every
  page but the last carries an instance, so fuel above the number of instances is enough.  Both
  are proved: with that fuel there is a result.  All other loops recurse on their data or on what is left to read.

  \<^bold>\<open>Not modelled.\<close>
  \<^item> The runtimes behind \<open>dyn Runtime\<close> (\<open>runtime/hypeman\<close>, \<open>runtime/fake.rs\<close>): clients of an HTTP service
    and of a container engine, whose answers are arbitrary here.
  \<^item> \<open>exec.rs\<close>, the terminals and the listeners of the guest agent: processes, file descriptors
    and TLS.
  \<^item> \<open>main.rs\<close>, \<open>node_info.rs\<close>, \<open>testing.rs\<close>: flags, one file with the node's name, test doubles.
  \<^item> \<open>barista-cli\<close> apart from its loop over pages: argument parsing and printing.
  \<^item> The generated clients and servers of \<open>barista-proto\<close>, \<open>py\<close>, \<open>scripts\<close>, \<open>scenario\<close>, \<open>fuzz\<close>.
  \<^item> Failures of SQLite other than a statement that has no effect, and the scheduler below a wait.
\<close>

section \<open>A node over its whole life\<close>

text \<open>
  What a node does: start on a journal it finds, join a fleet, answer the calls of the contract,
  run an executor that was spawned, tick, and move an operation for its owner.
\<close>

datatype activity =
    Starts "string option" | Joins Fleet | Serves request | Sets_Wake instance_id "timestamp option"
  | Executes task | Ticks nat int
  | Streams "ExecFrame client_stream" | Reads ReadFileRequest | Writes "WriteFrame client_stream"
  | Awaits_Input OperationRow string | Takes_Input OperationRow string | Cancels OperationRow string

definition ignoring :: "('s, 'a) act \<Rightarrow> ('s, unit) act" where
  "ignoring m = do { _ \<leftarrow> m; return () }"

text \<open>The process is gone and comes back: what it kept in memory is lost and the journal is opened again.\<close>

definition restarted :: "'s world \<Rightarrow> 's world" where
  "restarted w = w\<lparr>w_db := open_journal (w_db w), w_tasks := [], w_fleet := None, w_vanished := Map.empty,
     w_unclaimed := [], w_retention_at := None, w_credentials_at := None\<rparr>"

fun perform :: "'s env \<Rightarrow> (string \<Rightarrow> store_config \<Rightarrow> 's Remote) \<Rightarrow> activity \<Rightarrow> ('s, unit) act" where
  "perform E build (Starts url) = do { modify restarted; ignoring (bootstrap E build url) }"
| "perform E build (Joins F) = join_fleet E F"
| "perform E build (Serves q) = ignoring (serve E q)"
| "perform E build (Sets_Wake iid at) = ignoring (set_wake E iid at)"
| "perform E build (Executes t) = do {
     spawned \<leftarrow> gets (\<lambda>w. t \<in> set (w_tasks w));
     if spawned then do { modify (w_tasks_update (remove1 t)); execute E t } else return () }"
| "perform E build (Ticks fuel n) = ignoring (tick E fuel n)"
| "perform E build (Streams inbound) = ignoring (exec E inbound)"
| "perform E build (Reads rq) = ignoring (read_file E rq)"
| "perform E build (Writes inbound) = ignoring (write_file E inbound)"
| "perform E build (Awaits_Input op prompt) = ignoring (await_input E op prompt)"
| "perform E build (Takes_Input op name) = ignoring (resume_with_input E op name)"
| "perform E build (Cancels op reason) = ignoring (cancel E op reason)"

text \<open>
  A history of the node.  Each activity runs in an environment of its own: clock, faults,
  runtime, guest and buckets may answer anything.  Wherever it waits, further activities run in
  between (\<open>g\<close>), each of them interrupted in the same way.
  An activity that runs during a wait has ended when the wait ends, and a crash comes between
  activities; \<open>keeps_node_perform\<close> needs neither and holds for any change of the world at a wait that
  keeps the invariant.
\<close>

inductive history_of :: "(string \<Rightarrow> store_config \<Rightarrow> 's Remote) \<Rightarrow> 's world \<Rightarrow> 's world \<Rightarrow> bool"
  for build where
  at_rest: "history_of build w w"
| acts: "history_of build w w1 \<Longrightarrow> (\<And>v. history_of build v (g v))
    \<Longrightarrow> run_state (perform (E\<lparr>en_others := g\<rparr>) build a) w1 = (u, w2) \<Longrightarrow> history_of build w w2"

lemma keeps_ignoring [keep_rules]: "keeps P m \<Longrightarrow> keeps P (ignoring m)"
  unfolding ignoring_def by (intro keep_rules)

lemma node_ok_open_journal [node_intros]: "node_ok db \<Longrightarrow> node_ok (open_journal db)"
  by (rule node_ok_ops, assumption) (auto simp: node_ok_def intro: schema_ok_open_journal claims_ok_open_journal, simp_all add: open_journal_def)

lemma keeps_node_perform:
  assumes "rely node_ok E"
  shows "keeps (on_db node_ok) (perform E build a)"
proof -
  have "keeps (on_db node_ok) (modify restarted)"
    by (rule keepsI) (auto simp: modify_def on_db_def restarted_def intro: node_ok_open_journal)
  hence "keeps (on_db node_ok) (perform E build (Starts url))" for url
    unfolding perform.simps by (rule keeps_bind) (intro keep_rules assms)
  thus ?thesis by (cases a) (auto simp del: perform.simps(1) intro!: keep_rules assms)
qed

lemma history_keeps_node_ok: "history_of build w w' \<Longrightarrow> node_ok (w_db w) \<Longrightarrow> node_ok (w_db w')"
proof (induction rule: history_of.induct)
  case (acts w w1 g E a u w2)
  hence "rely node_ok (E\<lparr>en_others := g\<rparr>)" by (simp add: rely_def)
  from keepsD [OF keeps_node_perform [OF this]] acts show ?case by (auto simp: on_db_def)
qed

lemma one_in_flight:
  assumes "node_ok db" "o1 \<in> set (j_operations db)" "o2 \<in> set (j_operations db)" "op_is_in_flight (oc_state o1)"
    "op_is_in_flight (oc_state o2)" "oc_instance_id o1 = oc_instance_id o2"
  shows "o1 = o2"
  using assms by (auto simp: node_ok_def claims_ok_def distinct_map dest: inj_onD)

text \<open>
  C1: whatever a node does, its journal stays sound.  From an empty journal, over every
  history, with crashes and restarts between activities, further activities run at every
  wait, statements failing, and the runtime, the guest and the buckets answering anything:
  the keys of every table are unique, two operations in flight never belong to one instance,
  an operation in flight holds its instance and no instance is held twice, and every object
  is counted exactly as often as a registered capsule names it.
\<close>

theorem journal_sound_over_any_history:
  assumes "history_of build w w'" and "w_db w = empty_journal"
  shows "node_ok (w_db w')
    \<and> (\<forall>o1 \<in> set (j_operations (w_db w')). \<forall>o2 \<in> set (j_operations (w_db w')).
         op_is_in_flight (oc_state o1) \<and> op_is_in_flight (oc_state o2) \<and> oc_instance_id o1 = oc_instance_id o2 \<longrightarrow> o1 = o2)"
proof -
  have sound: "node_ok (w_db w')" using history_keeps_node_ok [OF assms(1)] by (simp add: assms(2) node_ok_empty)
  thus ?thesis by (auto intro: one_in_flight)
qed

definition bootable_spec :: instance_spec where
  "bootable_spec = sample_spec\<lparr>sp_template := Some \<lparr>tpl_oci = Some \<lparr>oci_image = ''r'', oci_digest = ''d''\<rparr>,
     tpl_runtime_bundle_ref = [], tpl_template_hash = [], tpl_arch = []\<rparr>\<rparr>"

lemma sample_create_recorded:
  "j_operations (w_db (snd (run_state (perform sample_env build (Serves (Q_Create (Some bootable_spec) False ''k'')))
     (sample_world empty_journal ())))) \<noteq> []"
  by (simp add: ignoring_def create_instance_def rpc_submit_def submit_def admit_def bootable_spec_def submit_run_simps
      sample_env_def sample_runtime_def sample_world_def sample_simps sample_spec_def default_spec_def is_whitespace_def)

text \<open>A bucket that holds nothing.\<close>

definition empty_remote :: "string \<Rightarrow> store_config \<Rightarrow> 's Remote" where
  "empty_remote label config = \<lparr>ob_label = label, ob_head = (\<lambda>_ x. (Inr False, x)), ob_get = (\<lambda>_ x. (Inr None, x)),
     ob_put = (\<lambda>_ _ x. (Inr (), x)), ob_delete = (\<lambda>_ x. (Inr (), x))\<rparr>"

theorem journal_sound_over_any_history_witness:
  "\<exists>w'. history_of empty_remote (sample_world empty_journal ()) w' \<and> j_operations (w_db w') \<noteq> [] \<and> node_ok (w_db w')"
proof -
  let ?a = "Serves (Q_Create (Some bootable_spec) False ''k'')" and ?w = "sample_world empty_journal ()"
  obtain u w' where run: "run_state (perform sample_env empty_remote ?a) ?w = (u, w')" by (metis surj_pair)
  have "sample_env\<lparr>en_others := \<lambda>v. v\<rparr> = (sample_env :: unit env)" by (simp add: sample_env_def)
  with run have hist: "history_of empty_remote ?w w'"
    by (intro history_of.acts [where g = "\<lambda>v. v" and E = sample_env and a = ?a, OF history_of.at_rest history_of.at_rest]) simp
  hence "node_ok (w_db w')" using journal_sound_over_any_history by (fastforce simp: sample_world_def)
  thus ?thesis using hist sample_create_recorded [of empty_remote] run by auto
qed

end
